theory Spec2Isabelle
  imports Main "HOL-Library.Word"
begin

section \<open>Outcomes, flags and positions\<close>

text \<open>
  The closed set of outcome codes.  Only the codes that \<^verbatim>\<open>game.cpp\<close> names in the
  functions embedded below are spelled out; every other code of the enumeration is
  \<open>RETURNVALUE_OTHER k\<close>.
\<close>

datatype ReturnValue =
    RETURNVALUE_NOERROR
  | RETURNVALUE_NOTPOSSIBLE
  | RETURNVALUE_NOTENOUGHROOM
  | RETURNVALUE_NEEDEXCHANGE
  | RETURNVALUE_OTHER nat

text \<open>
  The \<^verbatim>\<open>flags\<close> argument is a bit mask; it is modelled as the set of bits that are set,
  so that \<^verbatim>\<open>flags |= A | B\<close> is a union and \<^verbatim>\<open>flags = 0\<close> the empty set.
\<close>

datatype cylinderflags_t =
    FLAG_NOLIMIT
  | FLAG_IGNOREBLOCKITEM
  | FLAG_IGNOREBLOCKCREATURE
  | FLAG_IGNORENOTMOVEABLE
  | FLAG_OTHER nat

type_synonym cflags = "cylinderflags_t set"

record Position =
  posx :: "16 word"
  posy :: "16 word"
  posz :: "8 word"

datatype Direction =
    DIRECTION_NORTH
  | DIRECTION_EAST
  | DIRECTION_SOUTH
  | DIRECTION_WEST
  | DIRECTION_SOUTHWEST
  | DIRECTION_SOUTHEAST
  | DIRECTION_NORTHWEST
  | DIRECTION_NORTHEAST

text \<open>\<^verbatim>\<open>(direction & DIRECTION_DIAGONAL_MASK) != 0\<close>: the four diagonal directions carry the mask bit.\<close>

fun diagonalDirection :: "Direction \<Rightarrow> bool" where
  "diagonalDirection DIRECTION_SOUTHWEST = True"
| "diagonalDirection DIRECTION_SOUTHEAST = True"
| "diagonalDirection DIRECTION_NORTHWEST = True"
| "diagonalDirection DIRECTION_NORTHEAST = True"
| "diagonalDirection _ = False"

section \<open>Creature movement\<close>

datatype tileflags_t =
    TILESTATE_BLOCKSOLID
  | TILESTATE_IMMOVABLEBLOCKSOLID
  | TILESTATE_FLOORCHANGE
  | TILESTATE_OTHER nat

text \<open>
  A tile, as far as \<^verbatim>\<open>Game::internalMoveCreature\<close> reads it: its position, whether
  \<^verbatim>\<open>getGround()\<close> is non-null, the state flags \<^verbatim>\<open>hasFlag\<close> answers from, and the
  accumulated height of what lies on it (\<^verbatim>\<open>hasHeight(n)\<close> holds when that height reaches \<open>n\<close>).
\<close>

record Tile =
  tilePos :: Position
  hasGround :: bool
  tileFlags :: "tileflags_t list"
  tileHeight :: nat

definition hasFlag :: "Tile \<Rightarrow> tileflags_t \<Rightarrow> bool" where
  "hasFlag t f = (f \<in> set (tileFlags t))"

definition hasHeight :: "Tile \<Rightarrow> nat \<Rightarrow> bool" where
  "hasHeight t n = (n \<le> tileHeight t)"

text \<open>
  A creature: the tile that holds it (\<^verbatim>\<open>getTile()\<close>, \<^verbatim>\<open>getParent()\<close>), its facing, the
  position it came from, and whether \<^verbatim>\<open>getPlayer()\<close> is non-null.
\<close>

record Creature =
  getTile :: Tile
  direction :: Direction
  lastPosition :: Position
  isPlayer :: bool

definition getPosition :: "Creature \<Rightarrow> Position" where
  "getPosition c = tilePos (getTile c)"

text \<open>
  The map and the geometry helpers live outside \<^verbatim>\<open>game.cpp\<close>; they are parameters:
  \<open>nextPos\<close> is \<^verbatim>\<open>getNextPosition\<close> and \<open>tileAt\<close> is \<^verbatim>\<open>map.getTile\<close>, which answers
  \<open>None\<close> for \<^verbatim>\<open>nullptr\<close>.
\<close>

type_synonym tilemap = "Position \<Rightarrow> Tile option"

text \<open>The block under the comment \<^verbatim>\<open>// try to go up\<close>.\<close>

definition tryGoUp ::
  "tilemap \<Rightarrow> Direction \<Rightarrow> Position \<Rightarrow> Creature \<times> Position \<times> cflags \<Rightarrow> Creature \<times> Position \<times> cflags" where
  "tryGoUp tileAt dir currentPos st =
     (case st of (creature, destPos, flags) \<Rightarrow>
        if posz currentPos \<noteq> 8 \<and> hasHeight (getTile creature) 3 then
          (if (case tileAt (currentPos\<lparr>posz := posz currentPos - 1\<rparr>) of
                 None \<Rightarrow> True
               | Some tmpTile \<Rightarrow> \<not> hasGround tmpTile \<and> \<not> hasFlag tmpTile TILESTATE_BLOCKSOLID)
           then
             (case tileAt (destPos\<lparr>posz := posz destPos - 1\<rparr>) of
                None \<Rightarrow> st
              | Some tmpTile \<Rightarrow>
                  if hasGround tmpTile \<and> \<not> hasFlag tmpTile TILESTATE_IMMOVABLEBLOCKSOLID then
                    (let flags = flags \<union> {FLAG_IGNOREBLOCKITEM, FLAG_IGNOREBLOCKCREATURE} in
                     if \<not> hasFlag tmpTile TILESTATE_FLOORCHANGE
                     then (creature\<lparr>direction := dir\<rparr>, destPos\<lparr>posz := posz destPos - 1\<rparr>, flags)
                     else (creature, destPos, flags))
                  else st)
           else st)
        else st)"

text \<open>The block under the comment \<^verbatim>\<open>// try to go down\<close>.\<close>

definition tryGoDown ::
  "tilemap \<Rightarrow> Direction \<Rightarrow> Position \<Rightarrow> Creature \<times> Position \<times> cflags \<Rightarrow> Creature \<times> Position \<times> cflags" where
  "tryGoDown tileAt dir currentPos st =
     (case st of (creature, destPos, flags) \<Rightarrow>
        if posz currentPos \<noteq> 7 \<and> posz currentPos = posz destPos then
          (if (case tileAt destPos of
                 None \<Rightarrow> True
               | Some tmpTile \<Rightarrow> \<not> hasGround tmpTile \<and> \<not> hasFlag tmpTile TILESTATE_BLOCKSOLID)
           then
             (case tileAt (destPos\<lparr>posz := posz destPos + 1\<rparr>) of
                None \<Rightarrow> st
              | Some tmpTile \<Rightarrow>
                  if hasHeight tmpTile 3 \<and> \<not> hasFlag tmpTile TILESTATE_IMMOVABLEBLOCKSOLID then
                    (creature\<lparr>direction := dir\<rparr>, destPos\<lparr>posz := posz destPos + 1\<rparr>,
                     flags \<union> {FLAG_IGNOREBLOCKITEM, FLAG_IGNOREBLOCKCREATURE})
                  else st)
           else st)
        else st)"

text \<open>
  \<^verbatim>\<open>Game::internalMoveCreature(Creature*, Direction, flags)\<close> up to the lookup of the
  destination tile: the creature (facing and last position updated), the destination
  position and the flags that the tile overload is then called with.
\<close>

definition stepDestination ::
  "(Direction \<Rightarrow> Position \<Rightarrow> Position) \<Rightarrow> tilemap \<Rightarrow> Creature \<Rightarrow> Direction \<Rightarrow> cflags
     \<Rightarrow> Creature \<times> Position \<times> cflags" where
  "stepDestination nextPos tileAt creature0 dir flags =
     (let creature = creature0\<lparr>lastPosition := getPosition creature0\<rparr>;
          currentPos = getPosition creature;
          destPos = nextPos dir currentPos;
          diagonalMovement = diagonalDirection dir
      in if isPlayer creature \<and> \<not> diagonalMovement
         then tryGoDown tileAt dir currentPos
                (tryGoUp tileAt dir currentPos (creature, destPos, flags))
         else (creature, destPos, flags))"

section \<open>Items, holders and the world\<close>

type_synonym item_id = nat
type_synonym cyl_id = nat

datatype ItemDecayState_t = DECAYING_FALSE | DECAYING_TRUE | DECAYING_PENDING

text \<open>
  An item, as far as the transfer engine and the decay scheduler read it.  The count is a
  byte in the source (\<^verbatim>\<open>static_cast<uint8_t>\<close> on every write).  \<open>itemParent\<close> is the
  holder back-reference (\<^verbatim>\<open>getParent()\<close>); \<open>itemAttributes\<close> stands for everything besides
  the type id that \<^verbatim>\<open>equals\<close> compares.
\<close>

record Item =
  itemID :: nat
  itemCount :: nat
  isStackable :: bool
  stackSize :: nat
  itemAttributes :: nat
  duration :: int
  decaying :: ItemDecayState_t
  decayTo :: int
  canDecay :: bool
  canRemove :: bool
  referenceCounter :: nat
  itemParent :: "cyl_id option"

text \<open>
  What a holder is told after a mutation, and what the game-rule hooks are told after a
  move; the world keeps them in the order they were fired.
\<close>

datatype notification =
    PostAddNotification cyl_id item_id "cyl_id option" int
  | PostRemoveNotification cyl_id item_id "cyl_id option" int
  | OnItemMoved item_id nat cyl_id cyl_id
  | OnRemoved item_id
  | ItemDecayed item_id

text \<open>
  The world: the item objects, the holders (their ordered children, their parent holder
  and, for a container, the item the holder is), the allocator for cloned items, the
  decay structures of \<^verbatim>\<open>Game\<close> and the list of items waiting for release.
\<close>

record world =
  items :: "item_id \<Rightarrow> Item"
  things :: "cyl_id \<Rightarrow> item_id list"
  cylParent :: "cyl_id \<Rightarrow> cyl_id option"
  cylItem :: "cyl_id \<Rightarrow> item_id option"
  nextItem :: item_id
  toDecayItems :: "item_id list"
  decayItems :: "item_id list list"
  lastBucket :: nat
  ToReleaseItems :: "item_id list"
  notifications :: "notification list"

subsection \<open>Machine arithmetic\<close>

text \<open>Conversion to \<^verbatim>\<open>uint32_t\<close>, to \<^verbatim>\<open>int32_t\<close> and to \<^verbatim>\<open>uint8_t\<close>.\<close>

definition u32 :: "int \<Rightarrow> nat" where
  "u32 i = nat (i mod 2 ^ 32)"

definition s32 :: "nat \<Rightarrow> int" where
  "s32 n = (if n mod 2 ^ 32 < 2 ^ 31 then int (n mod 2 ^ 32) else int (n mod 2 ^ 32) - 2 ^ 32)"

definition u8 :: "nat \<Rightarrow> nat" where
  "u8 n = n mod 256"

subsection \<open>Item and holder primitives\<close>

definition isRemoved :: "world \<Rightarrow> item_id \<Rightarrow> bool" where
  "isRemoved w i = (itemParent (items w i) = None)"

text \<open>
  Modelled from the spec: \<^verbatim>\<open>Item::equals\<close> is not in \<^verbatim>\<open>game.cpp\<close>.  Two items are
  equal when they have the same type and the same attributes; nothing equals \<^verbatim>\<open>nullptr\<close>.
\<close>

definition equals :: "world \<Rightarrow> item_id \<Rightarrow> item_id option \<Rightarrow> bool" where
  "equals w i other =
     (case other of
        None \<Rightarrow> False
      | Some j \<Rightarrow> itemID (items w i) = itemID (items w j)
                 \<and> itemAttributes (items w i) = itemAttributes (items w j))"

text \<open>
  Modelled from the spec: \<^verbatim>\<open>getThingIndex\<close> is the holder's lookup primitive; it answers
  the position of the thing among the holder's children, and \<open>-1\<close> when it is not there.
\<close>

fun indexOf :: "item_id list \<Rightarrow> item_id \<Rightarrow> int" where
  "indexOf [] i = -1"
| "indexOf (x # xs) i = (if x = i then 0 else (let k = indexOf xs i in if k < 0 then -1 else k + 1))"

definition getThingIndex :: "world \<Rightarrow> cyl_id \<Rightarrow> item_id \<Rightarrow> int" where
  "getThingIndex w c i = indexOf (things w c) i"

text \<open>
  Modelled from the spec: \<^verbatim>\<open>removeThing\<close> removes a quantity.  Taking part of a stack
  lowers its count in place (clamped at zero, never negative); taking all of it, or taking a
  thing that does not stack, detaches the thing from the holder.
\<close>

definition removeThing :: "world \<Rightarrow> cyl_id \<Rightarrow> item_id \<Rightarrow> nat \<Rightarrow> world" where
  "removeThing w c i n =
     (let it = items w i in
      if isStackable it \<and> n \<noteq> itemCount it
      then w\<lparr>items := (items w)(i := it\<lparr>itemCount := itemCount it - n\<rparr>)\<rparr>
      else w\<lparr>things := (things w)(c := removeAll i (things w c)),
             items := (items w)(i := it\<lparr>itemParent := None\<rparr>)\<rparr>)"

text \<open>
  Modelled from the spec: \<^verbatim>\<open>updateThing\<close> updates a stack's id and count in place.
\<close>

definition updateThing :: "world \<Rightarrow> cyl_id \<Rightarrow> item_id \<Rightarrow> nat \<Rightarrow> nat \<Rightarrow> world" where
  "updateThing w c i newId n =
     w\<lparr>items := (items w)(i := (items w i)\<lparr>itemID := newId, itemCount := u8 n\<rparr>)\<rparr>"

text \<open>
  Modelled from the spec: \<^verbatim>\<open>addThing\<close> inserts at an index; an index outside the
  children (such as \<^verbatim>\<open>INDEX_WHEREEVER\<close>) puts the thing in front.  The thing's
  back-reference becomes the holder.
\<close>

definition INDEX_WHEREEVER :: int where
  "INDEX_WHEREEVER = -1"

definition insertAt :: "int \<Rightarrow> item_id \<Rightarrow> item_id list \<Rightarrow> item_id list" where
  "insertAt k i xs =
     (if 0 \<le> k \<and> k \<le> int (length xs) then take (nat k) xs @ i # drop (nat k) xs else i # xs)"

definition addThing :: "world \<Rightarrow> cyl_id \<Rightarrow> int \<Rightarrow> item_id \<Rightarrow> world" where
  "addThing w c k i =
     w\<lparr>things := (things w)(c := insertAt k i (things w c)),
       items := (items w)(i := (items w i)\<lparr>itemParent := Some c\<rparr>)\<rparr>"

text \<open>
  Modelled from the spec: \<^verbatim>\<open>clone\<close> makes a new item object with the attributes of the
  old one and no holder.  The pair is the world with the object allocated, and its id.
\<close>

definition clone :: "world \<Rightarrow> item_id \<Rightarrow> world \<times> item_id" where
  "clone w i =
     (let j = nextItem w in
      (w\<lparr>items := (items w)(j := (items w i)\<lparr>itemParent := None, referenceCounter := 0\<rparr>),
         nextItem := Suc j\<rparr>, j))"

definition setItemCount :: "world \<Rightarrow> item_id \<Rightarrow> nat \<Rightarrow> world" where
  "setItemCount w i n = w\<lparr>items := (items w)(i := (items w i)\<lparr>itemCount := n\<rparr>)\<rparr>"

definition ReleaseItem :: "world \<Rightarrow> item_id \<Rightarrow> world" where
  "ReleaseItem w i = w\<lparr>ToReleaseItems := ToReleaseItems w @ [i]\<rparr>"

definition notify :: "world \<Rightarrow> notification \<Rightarrow> world" where
  "notify w e = w\<lparr>notifications := notifications w @ [e]\<rparr>"

text \<open>
  \<^verbatim>\<open>incrementReferenceCounter(); setDecaying(DECAYING_TRUE); toDecayItems.push_front(item)\<close>
\<close>

definition enrolDecay :: "world \<Rightarrow> item_id \<Rightarrow> world" where
  "enrolDecay w i =
     w\<lparr>items := (items w)(i := (items w i)\<lparr>referenceCounter := Suc (referenceCounter (items w i)),
                                            decaying := DECAYING_TRUE\<rparr>),
       toDecayItems := i # toDecayItems w\<rparr>"

subsection \<open>The holder protocol\<close>

text \<open>
  What one call of \<^verbatim>\<open>queryDestination\<close> leaves behind: the holder it answers, and the
  index, the destination item and the flags, which it is handed by reference.
\<close>

record destination =
  destCylinder :: cyl_id
  destIndex :: int
  destItem :: "item_id option"
  destFlags :: cflags

text \<open>
  The queries are virtual and implemented by tiles, players and containers outside
  \<^verbatim>\<open>game.cpp\<close>; so are the game-rule hooks.  They are parameters of the engine: each may
  read the whole world, none changes it.
\<close>

record holder_ops =
  queryAdd :: "world \<Rightarrow> cyl_id \<Rightarrow> int \<Rightarrow> item_id \<Rightarrow> nat \<Rightarrow> cflags \<Rightarrow> Creature option \<Rightarrow> ReturnValue"
  queryMaxCount :: "world \<Rightarrow> cyl_id \<Rightarrow> int \<Rightarrow> item_id \<Rightarrow> nat \<Rightarrow> cflags \<Rightarrow> ReturnValue \<times> nat"
  queryRemove :: "world \<Rightarrow> cyl_id \<Rightarrow> item_id \<Rightarrow> nat \<Rightarrow> cflags \<Rightarrow> Creature option \<Rightarrow> ReturnValue"
  queryDestination :: "world \<Rightarrow> item_id \<Rightarrow> destination \<Rightarrow> destination"
  eventPlayerOnMoveItem ::
    "world \<Rightarrow> Creature \<Rightarrow> item_id \<Rightarrow> nat \<Rightarrow> Position \<Rightarrow> Position \<Rightarrow> cyl_id \<Rightarrow> cyl_id \<Rightarrow> ReturnValue"

subsection \<open>Resolving the destination\<close>

text \<open>
  The loop at the head of \<^verbatim>\<open>Game::internalMoveItem\<close>:
  \<^verbatim>\<open>while ((subCylinder = toCylinder->queryDestination(...)) != toCylinder) { toCylinder = subCylinder; flags = 0; if (++floorN >= MAP_MAX_LAYERS) break; }\<close>
  \<open>maxLayers\<close> is \<^verbatim>\<open>MAP_MAX_LAYERS\<close>, a constant declared outside \<^verbatim>\<open>game.cpp\<close>.  The
  result is the resolved destination and the final value of \<^verbatim>\<open>floorN\<close>.
\<close>

function resolveDestination ::
  "holder_ops \<Rightarrow> nat \<Rightarrow> world \<Rightarrow> item_id \<Rightarrow> destination \<Rightarrow> nat \<Rightarrow> destination \<times> nat" where
  "resolveDestination ops maxLayers w item d floorN =
     (let r = queryDestination ops w item d in
      if destCylinder r = destCylinder d then (r, floorN)
      else if Suc floorN \<ge> maxLayers then (r\<lparr>destFlags := {}\<rparr>, Suc floorN)
      else resolveDestination ops maxLayers w item (r\<lparr>destFlags := {}\<rparr>) (Suc floorN))"
  by pat_completeness auto
termination
  by (relation "measure (\<lambda>(ops, maxLayers, w, item, d, floorN). maxLayers - floorN)") auto

declare resolveDestination.simps [simp del]

subsection \<open>Moving an item\<close>

text \<open>
  \<^verbatim>\<open>Player* actorPlayer = actor ? actor->getPlayer() : nullptr\<close>, and the condition
  \<^verbatim>\<open>actorPlayer && fromPos && toPos\<close> under which the game-rule hooks are consulted.
\<close>

definition actorPlayer :: "Creature option \<Rightarrow> Creature option" where
  "actorPlayer actor = (case actor of None \<Rightarrow> None | Some c \<Rightarrow> if isPlayer c then Some c else None)"

definition preMoveHook ::
  "holder_ops \<Rightarrow> world \<Rightarrow> Creature option \<Rightarrow> Position option \<Rightarrow> Position option
     \<Rightarrow> item_id \<Rightarrow> nat \<Rightarrow> cyl_id \<Rightarrow> cyl_id \<Rightarrow> ReturnValue" where
  "preMoveHook ops w actor fromPos toPos item n fromCylinder toCylinder =
     (case (actorPlayer actor, fromPos, toPos) of
        (Some p, Some fp, Some tp) \<Rightarrow>
          eventPlayerOnMoveItem ops w p item (n mod 65536) fp tp fromCylinder toCylinder
      | _ \<Rightarrow> RETURNVALUE_NOERROR)"

definition hooked :: "Creature option \<Rightarrow> Position option \<Rightarrow> Position option \<Rightarrow> bool" where
  "hooked actor fromPos toPos = (actorPlayer actor \<noteq> None \<and> fromPos \<noteq> None \<and> toPos \<noteq> None)"

text \<open>The one-argument \<^verbatim>\<open>addThing(thing)\<close>: no index is given, the thing goes in front.\<close>

definition addThingFront :: "world \<Rightarrow> cyl_id \<Rightarrow> item_id \<Rightarrow> world" where
  "addThingFront w c i = addThing w c 0 i"

text \<open>
  The reciprocal move of the colliding item, inside
  \<^verbatim>\<open>if (toCylinder->queryRemove(*toItem, ...) == RETURNVALUE_NOERROR) { ... }\<close>: the colliding
  item leaves the destination for the source, both holders are notified, the destination is
  asked again, and \<^verbatim>\<open>toItem\<close> is cleared.  The result is the new \<^verbatim>\<open>ret\<close> and the world.
\<close>

definition exchangeItems ::
  "holder_ops \<Rightarrow> world \<Rightarrow> cyl_id \<Rightarrow> destination \<Rightarrow> item_id \<Rightarrow> item_id \<Rightarrow> nat
     \<Rightarrow> Creature option \<Rightarrow> bool \<Rightarrow> ReturnValue \<times> world" where
  "exchangeItems ops w fromCylinder d toItem item n actor hk =
     (let toCylinder = destCylinder d;
          oldToItemIndex = getThingIndex w toCylinder toItem;
          w1 = removeThing w toCylinder toItem (itemCount (items w toItem));
          w2 = addThingFront w1 fromCylinder toItem;
          w3 = (if oldToItemIndex \<noteq> -1
                then notify w2 (PostRemoveNotification toCylinder toItem (Some fromCylinder) oldToItemIndex)
                else w2);
          newToItemIndex = getThingIndex w3 fromCylinder toItem;
          w4 = (if newToItemIndex \<noteq> -1
                then notify w3 (PostAddNotification fromCylinder toItem (Some toCylinder) newToItemIndex)
                else w3);
          ret = queryAdd ops w4 toCylinder (destIndex d) item n (destFlags d) actor;
          w5 = (if hk \<and> \<not> isRemoved w4 toItem
                then notify w4 (OnItemMoved toItem (n mod 65536) toCylinder fromCylinder)
                else w4)
      in (ret, w5))"

text \<open>
  The add check of \<^verbatim>\<open>Game::internalMoveItem\<close>, from
  \<^verbatim>\<open>ReturnValue ret = toCylinder->queryAdd(index, *item, count, flags, actor)\<close> to
  \<^verbatim>\<open>if (ret != RETURNVALUE_NOERROR) return ret\<close>.  \<open>Inl\<close> is a return out of
  \<^verbatim>\<open>internalMoveItem\<close> (outcome and world), \<open>Inr\<close> carries on with the world and the value of
  \<^verbatim>\<open>toItem\<close>.  \<open>None\<close>: the destination asked for an exchange without naming the colliding
  item, and the source dereferences \<^verbatim>\<open>nullptr\<close>.
\<close>

definition checkAdd ::
  "holder_ops \<Rightarrow> world \<Rightarrow> cyl_id \<Rightarrow> destination \<Rightarrow> item_id \<Rightarrow> nat \<Rightarrow> Creature option
     \<Rightarrow> Position option \<Rightarrow> Position option
     \<Rightarrow> ((ReturnValue \<times> world) + (world \<times> item_id option)) option" where
  "checkAdd ops w fromCylinder d item n actor fromPos toPos =
     (let toCylinder = destCylinder d;
          ret = queryAdd ops w toCylinder (destIndex d) item n (destFlags d) actor
      in if ret = RETURNVALUE_NEEDEXCHANGE then
           (case destItem d of
              None \<Rightarrow> None
            | Some toItem \<Rightarrow>
                (let tn = itemCount (items w toItem);
                     ret = queryAdd ops w fromCylinder (getThingIndex w fromCylinder item) toItem tn {} None
                 in if ret = RETURNVALUE_NOERROR then
                      (let eventRet = preMoveHook ops w actor toPos fromPos toItem tn toCylinder fromCylinder
                       in if eventRet \<noteq> RETURNVALUE_NOERROR then Some (Inl (eventRet, w))
                          else
                            (case queryMaxCount ops w fromCylinder INDEX_WHEREEVER toItem tn {} of
                               (retExchangeMaxCount, maxExchangeQueryCount) \<Rightarrow>
                                 if retExchangeMaxCount \<noteq> RETURNVALUE_NOERROR \<and> maxExchangeQueryCount = 0
                                 then Some (Inl (retExchangeMaxCount, w))
                                 else if queryRemove ops w toCylinder toItem tn (destFlags d) actor
                                           = RETURNVALUE_NOERROR
                                 then
                                   (case exchangeItems ops w fromCylinder d toItem item n actor
                                           (hooked actor fromPos toPos) of
                                      (ret, w') \<Rightarrow>
                                        if ret \<noteq> RETURNVALUE_NOERROR then Some (Inl (ret, w'))
                                        else Some (Inr (w', None)))
                                 else Some (Inr (w, Some toItem))))
                    else Some (Inl (ret, w))))
         else if ret \<noteq> RETURNVALUE_NOERROR then Some (Inl (ret, w))
         else Some (Inr (w, destItem d)))"

text \<open>
  \<^verbatim>\<open>if (item->isStackable()) m = std::min<uint32_t>(count, maxQueryCount); else m = maxQueryCount;\<close>
\<close>

definition moveCount :: "world \<Rightarrow> item_id \<Rightarrow> nat \<Rightarrow> nat \<Rightarrow> nat" where
  "moveCount w item n maxQueryCount =
     (if isStackable (items w item) then min n maxQueryCount else maxQueryCount)"

text \<open>
  The walk up the destination's parent chain, \<^verbatim>\<open>while (tmpCylinder) { ... }\<close>.  Nothing
  bounds it: on a chain that loops back without meeting the trade item it does not return,
  which is the value \<open>None\<close>.
\<close>

partial_function (option) parentHoldsTradeItem ::
  "world \<Rightarrow> item_id \<Rightarrow> cyl_id option \<Rightarrow> bool option" where
  "parentHoldsTradeItem w tradeItem tmpCylinder =
     (case tmpCylinder of
        None \<Rightarrow> Some False
      | Some c \<Rightarrow>
          if cylItem w c = Some tradeItem then Some True
          else parentHoldsTradeItem w tradeItem (cylParent w c))"

text \<open>The whole block \<^verbatim>\<open>if (tradeItem) { ... }\<close>: \<open>Some True\<close> when the move is refused.\<close>

definition tradeItemInDestination :: "world \<Rightarrow> item_id option \<Rightarrow> cyl_id \<Rightarrow> bool option" where
  "tradeItemInDestination w tradeItem toCylinder =
     (case tradeItem of
        None \<Rightarrow> Some False
      | Some t \<Rightarrow>
          if cylItem w toCylinder = Some t then Some True
          else parentHoldsTradeItem w t (cylParent w toCylinder))"

text \<open>
  The block \<^verbatim>\<open>if (item->isStackable()) { ... }\<close> under \<^verbatim>\<open>// update item(s)\<close>: the merge
  into the destination item, the clone that carries the remainder, and the release of the
  source item when nothing of it is left.  The result is the world, \<^verbatim>\<open>moveItem\<close> and
  \<^verbatim>\<open>updateItem\<close>.
\<close>

definition mergeAmount :: "world \<Rightarrow> item_id \<Rightarrow> nat \<Rightarrow> nat" where
  "mergeAmount w toItem m =
     min (u32 (int (stackSize (items w toItem)) - int (itemCount (items w toItem)))) m"

definition updateStack ::
  "world \<Rightarrow> cyl_id \<Rightarrow> item_id \<Rightarrow> item_id option \<Rightarrow> nat
     \<Rightarrow> world \<times> item_id option \<times> item_id option" where
  "updateStack w toCylinder item toItem m =
     (let (w1, n, updateItem) =
            (case toItem of
               Some t \<Rightarrow>
                 if equals w item toItem then
                   (let n = mergeAmount w t m
                    in (updateThing w toCylinder t (itemID (items w t))
                          (u32 (int (itemCount (items w t)) + int n)), n, Some t))
                 else (w, 0, None)
             | None \<Rightarrow> (w, 0, None));
          newCount = s32 (u32 (int m - int n));
          (w2, moveItem) =
            (if newCount > 0 then
               (let (wc, j) = clone w1 item in (setItemCount wc j (u8 (nat newCount)), Some j))
             else (w1, None));
          w3 = (if isRemoved w2 item then ReleaseItem w2 item else w2)
      in (w3, moveItem, updateItem))"

text \<open>
  The notifications of the commit: \<^verbatim>\<open>postRemoveNotification\<close> on the source for the item,
  \<^verbatim>\<open>postAddNotification\<close> on the destination for \<^verbatim>\<open>moveItem\<close> and for
  \<^verbatim>\<open>updateItem\<close>, each only when the thing has an index there.
\<close>

definition postMoveNotifications ::
  "world \<Rightarrow> cyl_id \<Rightarrow> cyl_id \<Rightarrow> item_id \<Rightarrow> int \<Rightarrow> item_id option \<Rightarrow> item_id option \<Rightarrow> world" where
  "postMoveNotifications w3 fromCylinder toCylinder item itemIndex moveItem updateItem =
     (let w4 = (if itemIndex \<noteq> -1
                then notify w3 (PostRemoveNotification fromCylinder item (Some toCylinder) itemIndex)
                else w3);
          w5 = (case moveItem of
                  Some mi \<Rightarrow>
                    (let moveItemIndex = getThingIndex w4 toCylinder mi
                     in if moveItemIndex \<noteq> -1
                        then notify w4 (PostAddNotification toCylinder mi (Some fromCylinder) moveItemIndex)
                        else w4)
                | None \<Rightarrow> w4)
      in (case updateItem of
            Some ui \<Rightarrow>
              (let updateItemIndex = getThingIndex w5 toCylinder ui
               in if updateItemIndex \<noteq> -1
                  then notify w5 (PostAddNotification toCylinder ui (Some fromCylinder) updateItemIndex)
                  else w5)
          | None \<Rightarrow> w5))"

text \<open>
  The item the after-move hook is told about: \<^verbatim>\<open>updateItem\<close>, else \<^verbatim>\<open>moveItem\<close>, else
  the item itself, the first of them that exists and is not removed.
\<close>

definition movedItem :: "world \<Rightarrow> item_id \<Rightarrow> item_id option \<Rightarrow> item_id option \<Rightarrow> item_id option" where
  "movedItem w item moveItem updateItem =
     (if updateItem \<noteq> None \<and> \<not> isRemoved w (the updateItem) then updateItem
      else if moveItem \<noteq> None \<and> \<not> isRemoved w (the moveItem) then moveItem
      else if \<not> isRemoved w item then Some item
      else None)"

text \<open>
  The end of \<^verbatim>\<open>Game::internalMoveItem\<close>, from \<^verbatim>\<open>if (_moveItem)\<close> to the final
  \<^verbatim>\<open>return ret\<close>: a stackable move that fell short returns what \<^verbatim>\<open>queryMaxCount\<close>
  reported, before the decay enrolment and the after-move hook; every other move enrols
  a decaying \<^verbatim>\<open>moveItem\<close>, tells the hook and returns \<^verbatim>\<open>ret\<close>.  The triple is the
  outcome, the world and the value written through \<^verbatim>\<open>_moveItem\<close>.
\<close>

definition reportMove ::
  "world \<Rightarrow> cyl_id \<Rightarrow> cyl_id \<Rightarrow> item_id \<Rightarrow> item_id option \<Rightarrow> item_id option \<Rightarrow> nat
     \<Rightarrow> ReturnValue \<Rightarrow> nat \<Rightarrow> ReturnValue \<Rightarrow> bool \<Rightarrow> ReturnValue \<times> world \<times> item_id option" where
  "reportMove w6 fromCylinder toCylinder item moveItem updateItem n retMaxCount maxQueryCount ret hk =
     (let out = (case moveItem of Some mi \<Rightarrow> mi | None \<Rightarrow> item)
      in if isStackable (items w6 item) \<and> maxQueryCount < n then (retMaxCount, w6, Some out)
         else
           (let w7 = (case moveItem of
                        Some mi \<Rightarrow>
                          if duration (items w6 mi) > 0 \<and> decaying (items w6 mi) \<noteq> DECAYING_TRUE
                          then enrolDecay w6 mi else w6
                      | None \<Rightarrow> w6);
                w8 = (if hk then
                        (case movedItem w7 item moveItem updateItem of
                           Some x \<Rightarrow> notify w7 (OnItemMoved x (n mod 65536) fromCylinder toCylinder)
                         | None \<Rightarrow> w7)
                      else w7)
            in (ret, w8, Some out)))"

text \<open>
  The commit of \<^verbatim>\<open>Game::internalMoveItem\<close>, from \<^verbatim>\<open>// remove the item\<close> on: the
  quantity leaves the source, a stack is merged and split, \<^verbatim>\<open>moveItem\<close> is added to the
  destination, the holders are notified, and the outcome is reported.
\<close>

definition commitMove ::
  "world \<Rightarrow> cyl_id \<Rightarrow> destination \<Rightarrow> item_id option \<Rightarrow> item_id \<Rightarrow> nat \<Rightarrow> nat
     \<Rightarrow> ReturnValue \<Rightarrow> nat \<Rightarrow> ReturnValue \<Rightarrow> bool \<Rightarrow> ReturnValue \<times> world \<times> item_id option" where
  "commitMove w fromCylinder d toItem item n m retMaxCount maxQueryCount ret hk =
     (let toCylinder = destCylinder d;
          itemIndex = getThingIndex w fromCylinder item;
          w1 = removeThing w fromCylinder item m;
          (w2, moveItem, updateItem) =
            (if isStackable (items w1 item) then updateStack w1 toCylinder item toItem m
             else (w1, Some item, None));
          w3 = (case moveItem of Some mi \<Rightarrow> addThing w2 toCylinder (destIndex d) mi | None \<Rightarrow> w2);
          w6 = postMoveNotifications w3 fromCylinder toCylinder item itemIndex moveItem updateItem
      in reportMove w6 fromCylinder toCylinder item moveItem updateItem n retMaxCount maxQueryCount ret hk)"

text \<open>
  \<^verbatim>\<open>Game::internalMoveItem\<close> after the add check: how much can move, whether the source
  lets it go, the trade-item check, and the commit.
\<close>

definition moveChecked ::
  "holder_ops \<Rightarrow> world \<Rightarrow> cyl_id \<Rightarrow> destination \<Rightarrow> item_id option \<Rightarrow> item_id \<Rightarrow> nat
     \<Rightarrow> Creature option \<Rightarrow> item_id option \<Rightarrow> bool
     \<Rightarrow> (ReturnValue \<times> world \<times> item_id option) option" where
  "moveChecked ops w fromCylinder d toItem item n actor tradeItem hk =
     (case queryMaxCount ops w (destCylinder d) (destIndex d) item n (destFlags d) of
        (retMaxCount, maxQueryCount) \<Rightarrow>
          if retMaxCount \<noteq> RETURNVALUE_NOERROR \<and> maxQueryCount = 0 then Some (retMaxCount, w, None)
          else
            (let m = moveCount w item n maxQueryCount;
                 ret = queryRemove ops w fromCylinder item m (destFlags d) actor
             in if ret \<noteq> RETURNVALUE_NOERROR then Some (ret, w, None)
                else
                  (case tradeItemInDestination w tradeItem (destCylinder d) of
                     None \<Rightarrow> None
                   | Some True \<Rightarrow> Some (RETURNVALUE_NOTENOUGHROOM, w, None)
                   | Some False \<Rightarrow>
                       Some (commitMove w fromCylinder d toItem item n m retMaxCount maxQueryCount ret hk))))"

text \<open>
  \<^verbatim>\<open>Game::internalMoveItem\<close>.  \<open>None\<close> stands for a call that does not return (see
  \<open>checkAdd\<close> and \<open>parentHoldsTradeItem\<close>).
\<close>

definition internalMoveItem ::
  "holder_ops \<Rightarrow> nat \<Rightarrow> world \<Rightarrow> cyl_id \<Rightarrow> cyl_id \<Rightarrow> int \<Rightarrow> item_id \<Rightarrow> nat \<Rightarrow> cflags
     \<Rightarrow> Creature option \<Rightarrow> item_id option \<Rightarrow> Position option \<Rightarrow> Position option
     \<Rightarrow> (ReturnValue \<times> world \<times> item_id option) option" where
  "internalMoveItem ops maxLayers w fromCylinder toCylinder index item n flags actor tradeItem fromPos toPos =
     (let veto = preMoveHook ops w actor fromPos toPos item n fromCylinder toCylinder
      in if veto \<noteq> RETURNVALUE_NOERROR then Some (veto, w, None)
         else
           (let d = fst (resolveDestination ops maxLayers w item
                           \<lparr>destCylinder = toCylinder, destIndex = index, destItem = None,
                            destFlags = flags\<rparr> 0)
            in if destItem d = Some item then Some (RETURNVALUE_NOERROR, w, None)
               else
                 (case checkAdd ops w fromCylinder d item n actor fromPos toPos of
                    None \<Rightarrow> None
                  | Some (Inl (ret, w')) \<Rightarrow> Some (ret, w', None)
                  | Some (Inr (w', toItem)) \<Rightarrow>
                      moveChecked ops w' fromCylinder d toItem item n actor tradeItem
                        (hooked actor fromPos toPos))))"

subsection \<open>Adding and removing an item\<close>

text \<open>
  The stackable branch of \<^verbatim>\<open>Game::internalAddItem\<close> up to the test \<^verbatim>\<open>count > 0\<close>: the
  destination item takes what it has room for; the result is the world after
  \<^verbatim>\<open>updateThing\<close> and the \<^verbatim>\<open>int32_t count = m - n\<close> that is left over.
\<close>

definition addMerge :: "world \<Rightarrow> cyl_id \<Rightarrow> item_id \<Rightarrow> item_id \<Rightarrow> nat \<Rightarrow> world \<times> int" where
  "addMerge w toCylinder item toItem maxQueryCount =
     (let m = min (itemCount (items w item)) maxQueryCount;
          n = mergeAmount w toItem m
      in (updateThing w toCylinder toItem (itemID (items w toItem))
            (u32 (int (itemCount (items w toItem)) + int n)),
          s32 (u32 (int m - int n))))"

text \<open>Arithmetic of the conversions, as far as the recursion of \<open>internalAddItem\<close> needs it.\<close>

lemma u32_int: "u32 (int k) = k mod 2 ^ 32"
proof -
  have "int k mod 2 ^ 32 = int (k mod 2 ^ 32)"
    by (simp add: of_nat_mod)
  then show ?thesis unfolding u32_def by (simp only: nat_int)
qed

lemma u32_diff_le: "b \<le> a \<Longrightarrow> u32 (int a - int b) \<le> a - b"
proof -
  assume le: "b \<le> a"
  have "int a - int b = int (a - b)" using le by simp
  then have "u32 (int a - int b) = (a - b) mod 2 ^ 32"
    by (simp only: u32_int)
  then show ?thesis by (simp only: mod_less_eq_dividend)
qed

lemma s32_pos_le: "0 < s32 x \<Longrightarrow> s32 x \<le> int x"
  by (auto simp: s32_def split: if_splits)

lemma u8_le: "u8 n \<le> n"
  by (simp add: u8_def)

lemma u8_less: "u8 n < 256"
  by (simp add: u8_def)

lemma u8_u32_small: "c < 256 \<Longrightarrow> u8 (u32 (int c)) = c"
  by (simp add: u32_int u8_def)

lemma mergeAmount_le: "mergeAmount w t m \<le> m"
  by (simp add: mergeAmount_def)

text \<open>
  What is left over after the merge is less than what the item held, whenever the source
  goes on to clone a remainder: the recursion of \<open>internalAddItem\<close> is on a smaller stack.
\<close>

lemma addMerge_remainder:
  assumes am: "addMerge w tc item toItem maxQ = (w1, cnt)"
    and pos: "0 < cnt"
    and ne: "int (itemCount (items w1 item)) \<noteq> cnt"
  shows "u8 (nat cnt) < itemCount (items w item)"
proof -
  define c where "c = itemCount (items w item)"
  define m where "m = min c maxQ"
  define n where "n = mergeAmount w toItem m"
  have nm: "n \<le> m" unfolding n_def by (rule mergeAmount_le)
  have mc: "m \<le> c" unfolding m_def by simp
  have cnt: "cnt = s32 (u32 (int m - int n))"
    using am unfolding addMerge_def Let_def m_def n_def c_def by simp
  have w1: "w1 = updateThing w tc toItem (itemID (items w toItem))
                   (u32 (int (itemCount (items w toItem)) + int n))"
    using am unfolding addMerge_def Let_def m_def n_def c_def by simp
  have le1: "cnt \<le> int (u32 (int m - int n))" using pos cnt s32_pos_le by simp
  have le2: "u32 (int m - int n) \<le> m - n" using nm by (rule u32_diff_le)
  have cntc: "nat cnt \<le> c" using le1 le2 mc by linarith
  show ?thesis
  proof (cases "nat cnt < c")
    case True
    then show ?thesis using u8_le [of "nat cnt"] unfolding c_def by linarith
  next
    case False
    then have eq: "nat cnt = c" using cntc by simp
    then have n0: "n = 0" using le1 le2 mc nm pos by linarith
    have "toItem = item"
    proof (rule ccontr)
      assume "toItem \<noteq> item"
      then have "itemCount (items w1 item) = c" unfolding w1 updateThing_def c_def by simp
      then show False using ne eq pos by simp
    qed
    then have "itemCount (items w1 item) = u8 (u32 (int c))"
      unfolding w1 updateThing_def c_def using n0 by simp
    then have "u8 (u32 (int c)) \<noteq> c" using ne eq pos by auto
    then have "256 \<le> c" using u8_u32_small [of c] by (cases "c < 256") simp_all
    then show ?thesis using u8_less [of "nat cnt"] unfolding c_def by linarith
  qed
qed

definition addAndNotify :: "world \<Rightarrow> cyl_id \<Rightarrow> int \<Rightarrow> item_id \<Rightarrow> world" where
  "addAndNotify w toCylinder index item =
     (let w1 = addThing w toCylinder index item;
          itemIndex = getThingIndex w1 toCylinder item
      in if itemIndex \<noteq> -1 then notify w1 (PostAddNotification toCylinder item None itemIndex) else w1)"

text \<open>
  \<^verbatim>\<open>Game::internalAddItem\<close>; a null holder or item is \<open>None\<close>.  The last argument is the
  caller's \<^verbatim>\<open>remainderCount\<close>, handed over by reference; the triple is the outcome, the
  world and the value \<^verbatim>\<open>remainderCount\<close> holds on return.
\<close>

function internalAddItem ::
  "holder_ops \<Rightarrow> world \<Rightarrow> cyl_id option \<Rightarrow> item_id option \<Rightarrow> int \<Rightarrow> cflags \<Rightarrow> bool \<Rightarrow> nat
     \<Rightarrow> ReturnValue \<times> world \<times> nat" where
  "internalAddItem ops w toCylinder0 item0 index0 flags0 test remainderCount =
     (case (toCylinder0, item0) of
        (Some destCyl, Some item) \<Rightarrow>
          (let d = queryDestination ops w item
                     \<lparr>destCylinder = destCyl, destIndex = index0, destItem = None, destFlags = flags0\<rparr>;
               toCylinder = destCylinder d;
               ret = queryAdd ops w toCylinder (destIndex d) item (itemCount (items w item)) (destFlags d) None
           in if ret \<noteq> RETURNVALUE_NOERROR then (ret, w, remainderCount)
              else
                (case queryMaxCount ops w destCyl INDEX_WHEREEVER item (itemCount (items w item)) (destFlags d) of
                   (ret, maxQueryCount) \<Rightarrow>
                     if ret \<noteq> RETURNVALUE_NOERROR then (ret, w, remainderCount)
                     else if test then (RETURNVALUE_NOERROR, w, remainderCount)
                     else
                       (let (w', rc) =
                              (case (if isStackable (items w item) \<and> equals w item (destItem d)
                                     then destItem d else None) of
                                 Some toItem \<Rightarrow>
                                   (case addMerge w toCylinder item toItem maxQueryCount of
                                      (w1, cnt) \<Rightarrow>
                                        if cnt > 0 then
                                          (if int (itemCount (items w1 item)) \<noteq> cnt then
                                             (case clone w1 item of
                                                (w2, remainderItem) \<Rightarrow>
                                                  (case internalAddItem ops
                                                          (setItemCount w2 remainderItem (u8 (nat cnt)))
                                                          (Some destCyl) (Some remainderItem) INDEX_WHEREEVER
                                                          (destFlags d) False 0 of
                                                     (r, w3, _) \<Rightarrow>
                                                       if r \<noteq> RETURNVALUE_NOERROR
                                                       then (ReleaseItem w3 remainderItem, nat cnt)
                                                       else (w3, remainderCount)))
                                           else (addAndNotify w1 toCylinder (destIndex d) item, remainderCount))
                                        else
                                          (let w2 = ReleaseItem (notify w1 (OnRemoved item)) item;
                                               itemIndex = getThingIndex w2 toCylinder toItem
                                           in (if itemIndex \<noteq> -1
                                               then notify w2 (PostAddNotification toCylinder toItem None itemIndex)
                                               else w2, remainderCount)))
                               | None \<Rightarrow> (addAndNotify w toCylinder (destIndex d) item, remainderCount))
                        in (RETURNVALUE_NOERROR,
                            if duration (items w' item) > 0 then enrolDecay w' item else w', rc))))
      | _ \<Rightarrow> (RETURNVALUE_NOTPOSSIBLE, w, remainderCount))"
  by pat_completeness auto
termination
proof (relation "measure (\<lambda>(ops, w, c, i, k, f, t, r).
                   case i of None \<Rightarrow> 0 | Some j \<Rightarrow> itemCount (items w j))", goal_cases)
  case 1
  show ?case by simp
next
  case (2 ops w toCylinder0 item0 index0 flags0 test remainderCount)
  then show ?case
    by (auto simp: clone_def setItemCount_def Let_def dest!: sym [of "(_, _)" "addMerge _ _ _ _ _"]
             intro: addMerge_remainder)
qed

declare internalAddItem.simps [simp del]

text \<open>
  \<^verbatim>\<open>decayItems->remove(item)\<close>: \<^verbatim>\<open>decayItems\<close> is the array of bucket lists that
  \<^verbatim>\<open>checkDecay\<close> indexes as \<^verbatim>\<open>decayItems[bucket]\<close>, so the arrow reaches the first list of
  the array, and \<^verbatim>\<open>remove\<close> drops every occurrence of the item from that list.
\<close>

definition removeFromDecayItems :: "item_id list list \<Rightarrow> item_id \<Rightarrow> item_id list list" where
  "removeFromDecayItems buckets i = (case buckets of [] \<Rightarrow> [] | b # bs \<Rightarrow> removeAll i b # bs)"

text \<open>
  \<^verbatim>\<open>Game::internalRemoveItem\<close>.  The count is an \<^verbatim>\<open>int32_t\<close> whose default \<open>-1\<close> means
  the whole item.
\<close>

definition internalRemoveItem ::
  "holder_ops \<Rightarrow> world \<Rightarrow> item_id \<Rightarrow> int \<Rightarrow> bool \<Rightarrow> cflags \<Rightarrow> ReturnValue \<times> world" where
  "internalRemoveItem ops w item count0 test flags =
     (case itemParent (items w item) of
        None \<Rightarrow> (RETURNVALUE_NOTPOSSIBLE, w)
      | Some cylinder \<Rightarrow>
          (let n = (if count0 = -1 then int (itemCount (items w item)) else count0);
               ret = queryRemove ops w cylinder item (u32 n) (flags \<union> {FLAG_IGNORENOTMOVEABLE}) None
           in if ret \<noteq> RETURNVALUE_NOERROR then (ret, w)
              else if \<not> canRemove (items w item) then (RETURNVALUE_NOTPOSSIBLE, w)
              else if \<not> test then
                (let index = getThingIndex w cylinder item;
                     w1 = removeThing w cylinder item (u32 n);
                     w2 = (if isRemoved w1 item then
                             (let wa = notify w1 (OnRemoved item);
                                  wb = (if canDecay (items wa item)
                                        then wa\<lparr>decayItems := removeFromDecayItems (decayItems wa) item\<rparr>
                                        else wa)
                              in ReleaseItem wb item)
                           else w1)
                 in (RETURNVALUE_NOERROR, notify w2 (PostRemoveNotification cylinder item None index)))
              else (RETURNVALUE_NOERROR, w)))"

section \<open>The decay scheduler\<close>

text \<open>
  \<^verbatim>\<open>EVENT_DECAYINTERVAL\<close> (the tick length in milliseconds) and \<^verbatim>\<open>EVENT_DECAY_BUCKETS\<close>
  (the number of buckets) are constants declared outside \<^verbatim>\<open>game.cpp\<close>; they are the
  parameters \<open>interval\<close> and \<open>buckets\<close>.  The literal \<open>1000\<close> is the source's.
\<close>

definition bucketAt :: "item_id list list \<Rightarrow> nat \<Rightarrow> item_id list" where
  "bucketAt bs k = (if k < length bs then bs ! k else [])"

definition pushBucket :: "world \<Rightarrow> nat \<Rightarrow> item_id \<Rightarrow> world" where
  "pushBucket w k i = w\<lparr>decayItems := (decayItems w)[k := bucketAt (decayItems w) k @ [i]]\<rparr>"

text \<open>
  \<^verbatim>\<open>it = decayItems[bucket].erase(it)\<close>: the node at the iterator, here the position \<open>p\<close>
  in the bucket, is taken out, and the iterator stands at the node that followed it, which
  is again position \<open>p\<close>.
\<close>

definition eraseAt :: "world \<Rightarrow> nat \<Rightarrow> nat \<Rightarrow> world" where
  "eraseAt w k p =
     w\<lparr>decayItems := (decayItems w)[k := take p (bucketAt (decayItems w) k)
                                          @ drop (Suc p) (bucketAt (decayItems w) k)]\<rparr>"

definition decreaseDuration :: "world \<Rightarrow> item_id \<Rightarrow> int \<Rightarrow> world" where
  "decreaseDuration w i t = w\<lparr>items := (items w)(i := (items w i)\<lparr>duration := duration (items w i) - t\<rparr>)\<rparr>"

definition setDecaying :: "world \<Rightarrow> item_id \<Rightarrow> ItemDecayState_t \<Rightarrow> world" where
  "setDecaying w i st = w\<lparr>items := (items w)(i := (items w i)\<lparr>decaying := st\<rparr>)\<rparr>"

text \<open>
  \<^verbatim>\<open>Game::internalDecayItem\<close>: an item with a decay target is transformed and its decay
  restarted, \<^verbatim>\<open>startDecay(transformItem(item, decayTo))\<close>, which is the parameter
  \<open>transformDecay\<close>; an item without one is removed by \<open>internalRemoveItem\<close>.
\<close>

definition internalDecayItem ::
  "holder_ops \<Rightarrow> (world \<Rightarrow> item_id \<Rightarrow> world) \<Rightarrow> world \<Rightarrow> item_id \<Rightarrow> world" where
  "internalDecayItem ops transformDecay w item =
     (if decayTo (items w item) > 0 then transformDecay w item
      else snd (internalRemoveItem ops w item (-1) False {}))"

text \<open>
  The loop of \<^verbatim>\<open>Game::checkDecay\<close> walks the live \<^verbatim>\<open>std::list\<close> of the bucket while
  \<^verbatim>\<open>internalDecayItem\<close> runs, and \<open>internalRemoveItem\<close> may take every node that holds the
  item out of the first bucket under it.  \<open>live1\<close> is the bucket before the call, with the
  iterator at position \<open>p\<close>, and \<open>live2\<close> is the bucket after it.  When the bucket is as
  it was the iterator is where it was.  When the nodes of the item have been removed and the
  iterator's node is not one of them, the iterator has moved down by the removed nodes
  before it; when its node is one of them the iterator is lost, and what the source does
  next is undefined: \<open>None\<close>.  A transformation that rebuilds the bucket in any other way
  is not followed either.
\<close>

definition iteratorAfter :: "item_id list \<Rightarrow> item_id list \<Rightarrow> item_id \<Rightarrow> nat \<Rightarrow> nat option" where
  "iteratorAfter live1 live2 item p =
     (if live2 = live1 then Some p
      else if live2 = removeAll item live1 then
        (if p < length live1 \<and> live1 ! p = item then None
         else Some (length (removeAll item (take p live1))))
      else None)"

text \<open>
  \<^verbatim>\<open>internalDecayItem(item); ReleaseItem(item);\<close> after the item's node has been erased:
  the world and the position of the iterator.
\<close>

definition decayErased ::
  "holder_ops \<Rightarrow> (world \<Rightarrow> item_id \<Rightarrow> world) \<Rightarrow> nat \<Rightarrow> world \<Rightarrow> item_id \<Rightarrow> nat
     \<Rightarrow> (world \<times> nat) option" where
  "decayErased ops transformDecay bucket w item p =
     (let w' = internalDecayItem ops transformDecay w item
      in case iteratorAfter (bucketAt (decayItems w) bucket) (bucketAt (decayItems w') bucket) item p of
           None \<Rightarrow> None
         | Some p' \<Rightarrow> Some (ReleaseItem w' item, p'))"

text \<open>
  The body of the loop of \<^verbatim>\<open>Game::checkDecay\<close>, for the item at position \<open>p\<close> of the
  current bucket: the world and the position of the iterator after it.
\<close>

definition decayVisit ::
  "holder_ops \<Rightarrow> (world \<Rightarrow> item_id \<Rightarrow> world) \<Rightarrow> nat \<Rightarrow> nat \<Rightarrow> nat \<Rightarrow> world \<Rightarrow> nat
     \<Rightarrow> (world \<times> nat) option" where
  "decayVisit ops transformDecay interval buckets bucket w p =
     (let item = bucketAt (decayItems w) bucket ! p
      in if \<not> canDecay (items w item) then
           Some (eraseAt (ReleaseItem (setDecaying w item DECAYING_FALSE) item) bucket p, p)
         else
           (let decreaseTime = min (int interval * int buckets) (duration (items w item));
                dur = duration (items w item) - decreaseTime;
                w1 = decreaseDuration w item decreaseTime
            in if dur \<le> 0 then
                 decayErased ops transformDecay bucket (eraseAt w1 bucket p) item p
               else if dur < int interval * int buckets then
                 (let w2 = eraseAt w1 bucket p;
                      newBucket = (bucket + nat ((dur + int (interval div 2)) div 1000)) mod buckets
                  in if newBucket = bucket
                     then decayErased ops transformDecay bucket w2 item p
                     else Some (pushBucket w2 newBucket item, p))
               else Some (w1, Suc p)))"

text \<open>Every visit brings the iterator closer to the end of the bucket.\<close>

lemma bucketAt_eraseAt:
  "p < length (bucketAt (decayItems w) k)
   \<Longrightarrow> bucketAt (decayItems (eraseAt w k p)) k
         = take p (bucketAt (decayItems w) k) @ drop (Suc p) (bucketAt (decayItems w) k)"
  by (auto simp: eraseAt_def bucketAt_def split: if_splits)

lemma length_erased:
  "p < length xs \<Longrightarrow> length (take p xs @ drop (Suc p) xs) - p < length xs - p"
  by simp

lemma iteratorAfter_measure:
  assumes "iteratorAfter live1 live2 item p = Some p'"
  shows "length live2 - p' \<le> length live1 - p"
proof (cases "live2 = live1")
  case True
  then show ?thesis using assms by (simp add: iteratorAfter_def)
next
  case False
  then have l2: "live2 = removeAll item live1"
    and p': "p' = length (removeAll item (take p live1))"
    using assms by (auto simp: iteratorAfter_def split: if_splits)
  have "live1 = take p live1 @ drop p live1" by simp
  then have "removeAll item live1 = removeAll item (take p live1) @ removeAll item (drop p live1)"
    by (metis removeAll_append)
  then have "length live2 - p' = length (removeAll item (drop p live1))"
    by (simp add: l2 p')
  also have "\<dots> \<le> length (drop p live1)" by (rule length_removeAll_less_eq)
  finally show ?thesis by simp
qed

lemma decayErased_measure:
  assumes "decayErased ops transformDecay bucket w item p = Some (w', p')"
  shows "length (bucketAt (decayItems w') bucket) - p' \<le> length (bucketAt (decayItems w) bucket) - p"
proof -
  define w2 where "w2 = internalDecayItem ops transformDecay w item"
  have it: "iteratorAfter (bucketAt (decayItems w) bucket) (bucketAt (decayItems w2) bucket) item p = Some p'"
    and w': "w' = ReleaseItem w2 item"
    using assms by (auto simp: decayErased_def Let_def w2_def split: option.splits)
  have "decayItems w' = decayItems w2" by (simp add: w' ReleaseItem_def)
  then show ?thesis using iteratorAfter_measure [OF it] by simp
qed

lemma decayVisit_measure:
  assumes p: "p < length (bucketAt (decayItems w) bucket)"
    and v: "decayVisit ops transformDecay interval buckets bucket w p = Some (w', p')"
  shows "length (bucketAt (decayItems w') bucket) - p' < length (bucketAt (decayItems w) bucket) - p"
proof -
  define live where "live = bucketAt (decayItems w) bucket"
  define item where "item = live ! p"
  have erased: "length (bucketAt (decayItems (eraseAt wa bucket p)) bucket) - p < length live - p"
    if "decayItems wa = decayItems w" for wa
    using p that bucketAt_eraseAt [of p wa bucket] by (simp add: live_def)
  show ?thesis
  proof (cases "canDecay (items w item)")
    case False
    then have "w' = eraseAt (ReleaseItem (setDecaying w item DECAYING_FALSE) item) bucket p" "p' = p"
      using v by (auto simp: decayVisit_def Let_def item_def live_def)
    then show ?thesis
      using erased [of "ReleaseItem (setDecaying w item DECAYING_FALSE) item"]
      by (simp add: ReleaseItem_def setDecaying_def live_def)
  next
    case True
    define decreaseTime where "decreaseTime = min (int interval * int buckets) (duration (items w item))"
    define dur where "dur = duration (items w item) - decreaseTime"
    define w1 where "w1 = decreaseDuration w item decreaseTime"
    define newBucket where "newBucket = (bucket + nat ((dur + int (interval div 2)) div 1000)) mod buckets"
    have d1: "decayItems w1 = decayItems w" by (simp add: w1_def decreaseDuration_def)
    note e1 = erased [OF d1]
    have v': "(if dur \<le> 0 then decayErased ops transformDecay bucket (eraseAt w1 bucket p) item p
               else if dur < int interval * int buckets then
                 (if newBucket = bucket
                  then decayErased ops transformDecay bucket (eraseAt w1 bucket p) item p
                  else Some (pushBucket (eraseAt w1 bucket p) newBucket item, p))
               else Some (w1, Suc p)) = Some (w', p')"
      using v True
      unfolding decayVisit_def Let_def item_def live_def decreaseTime_def dur_def w1_def newBucket_def
      by (simp only: simp_thms if_True if_False)
    show ?thesis
    proof (cases "dur \<le> 0 \<or> (dur < int interval * int buckets \<and> newBucket = bucket)")
      case True
      then have "decayErased ops transformDecay bucket (eraseAt w1 bucket p) item p = Some (w', p')"
        using v' by (auto split: if_splits)
      then show ?thesis using decayErased_measure e1 by (fastforce simp: live_def)
    next
      case False
      show ?thesis
      proof (cases "dur < int interval * int buckets")
        case True
        then have nb: "newBucket \<noteq> bucket" using False by auto
        have "w' = pushBucket (eraseAt w1 bucket p) newBucket item" "p' = p"
          using v' True False nb by (auto split: if_splits)
        moreover have "bucketAt (decayItems (pushBucket wa newBucket item)) bucket
                         = bucketAt (decayItems wa) bucket" for wa
          using nb by (simp add: pushBucket_def bucketAt_def)
        ultimately show ?thesis using e1 by (simp add: live_def)
      next
        case notshort: False
        then have "w' = w1" "p' = Suc p" using v' False by (auto split: if_splits)
        then show ?thesis using p d1 by simp
      qed
    qed
  qed
qed

text \<open>
  The loop of \<^verbatim>\<open>Game::checkDecay\<close>, \<^verbatim>\<open>while (it != end) { ... }\<close>, from the position
  \<open>p\<close> of the iterator on.
\<close>

function decayLoop ::
  "holder_ops \<Rightarrow> (world \<Rightarrow> item_id \<Rightarrow> world) \<Rightarrow> nat \<Rightarrow> nat \<Rightarrow> nat \<Rightarrow> world \<Rightarrow> nat \<Rightarrow> world option" where
  "decayLoop ops transformDecay interval buckets bucket w p =
     (if p < length (bucketAt (decayItems w) bucket) then
        (case decayVisit ops transformDecay interval buckets bucket w p of
           None \<Rightarrow> None
         | Some (w', p') \<Rightarrow> decayLoop ops transformDecay interval buckets bucket w' p')
      else Some w)"
  by pat_completeness auto
termination
  by (relation "measure (\<lambda>(ops, transformDecay, interval, buckets, bucket, w, p).
                  length (bucketAt (decayItems w) bucket) - p)")
     (auto dest: decayVisit_measure)

declare decayLoop.simps [simp del]

text \<open>
  The tail of \<^verbatim>\<open>Game::cleanup\<close>: the pending items are dealt into their buckets.
\<close>

definition enrolBucket :: "nat \<Rightarrow> nat \<Rightarrow> item_id \<Rightarrow> world \<Rightarrow> world" where
  "enrolBucket interval buckets item w =
     (let dur = u32 (duration (items w item))
      in if dur \<ge> interval * buckets then pushBucket w (lastBucket w) item
         else pushBucket w ((lastBucket w + 1 + dur div 1000) mod buckets) item)"

definition decrementReferenceCounter :: "item_id \<Rightarrow> (item_id \<Rightarrow> Item) \<Rightarrow> (item_id \<Rightarrow> Item)" where
  "decrementReferenceCounter i its = its(i := (its i)\<lparr>referenceCounter := referenceCounter (its i) - 1\<rparr>)"

text \<open>
  \<^verbatim>\<open>Game::cleanup\<close>, for the items (the world modelled here holds no creatures to release).
\<close>

definition cleanup :: "nat \<Rightarrow> nat \<Rightarrow> world \<Rightarrow> world" where
  "cleanup interval buckets w =
     (let w1 = w\<lparr>items := fold decrementReferenceCounter (ToReleaseItems w) (items w),
                 ToReleaseItems := []\<rparr>;
          w2 = fold (enrolBucket interval buckets) (toDecayItems w1) w1
      in w2\<lparr>toDecayItems := []\<rparr>)"

text \<open>
  \<^verbatim>\<open>Game::checkDecay\<close>: one scheduler tick.  (The call re-arms itself with the scheduler
  for the next tick; time is outside the model, one call is one tick.)  \<open>None\<close>: the
  iterator of the loop was lost.
\<close>

definition checkDecay ::
  "holder_ops \<Rightarrow> (world \<Rightarrow> item_id \<Rightarrow> world) \<Rightarrow> nat \<Rightarrow> nat \<Rightarrow> world \<Rightarrow> world option" where
  "checkDecay ops transformDecay interval buckets w =
     (let bucket = (lastBucket w + 1) mod buckets
      in case decayLoop ops transformDecay interval buckets bucket w 0 of
           None \<Rightarrow> None
         | Some w1 \<Rightarrow> Some (cleanup interval buckets (w1\<lparr>lastBucket := bucket\<rparr>)))"

text \<open>The scheduler runs \<open>k\<close> ticks in a row.\<close>

fun ticks ::
  "holder_ops \<Rightarrow> (world \<Rightarrow> item_id \<Rightarrow> world) \<Rightarrow> nat \<Rightarrow> nat \<Rightarrow> nat \<Rightarrow> world \<Rightarrow> world option" where
  "ticks ops transformDecay interval buckets 0 w = Some w"
| "ticks ops transformDecay interval buckets (Suc k) w =
     (case checkDecay ops transformDecay interval buckets w of
        None \<Rightarrow> None
      | Some w' \<Rightarrow> ticks ops transformDecay interval buckets k w')"

section \<open>Moving a creature to a tile\<close>

text \<open>
  What \<^verbatim>\<open>Game::internalMoveCreature(Creature&, Tile&, flags)\<close> calls outside
  \<^verbatim>\<open>game.cpp\<close>: the tile's \<^verbatim>\<open>queryAdd\<close> and \<^verbatim>\<open>queryDestination\<close> (the latter answers the
  tile, the index and the flags), \<^verbatim>\<open>map.moveCreature\<close> and \<^verbatim>\<open>getDirectionTo\<close>.
\<close>

record tile_ops =
  tileQueryAdd :: "Tile \<Rightarrow> Creature \<Rightarrow> cflags \<Rightarrow> ReturnValue"
  tileQueryDestination :: "Tile \<Rightarrow> int \<Rightarrow> Creature \<Rightarrow> cflags \<Rightarrow> Tile \<times> int \<times> cflags"
  moveCreature :: "Creature \<Rightarrow> Tile \<Rightarrow> Creature"
  getDirectionTo :: "Position \<Rightarrow> Position \<Rightarrow> Direction"

text \<open>\<^verbatim>\<open>Game::internalCreatureTurn\<close>, without the messages to the spectators.\<close>

definition internalCreatureTurn :: "Creature \<Rightarrow> Direction \<Rightarrow> Creature" where
  "internalCreatureTurn creature dir =
     (if direction creature = dir then creature else creature\<lparr>direction := dir\<rparr>)"

text \<open>
  The loop of the tile overload,
  \<^verbatim>\<open>while ((subCylinder = toCylinder->queryDestination(...)) != toCylinder) { ... if (++n >= MAP_MAX_LAYERS) break; }\<close>
  The result is the creature, \<^verbatim>\<open>toCylinder\<close>, \<^verbatim>\<open>fromCylinder\<close> and the final \<^verbatim>\<open>n\<close>.
\<close>

function followTiles ::
  "tile_ops \<Rightarrow> nat \<Rightarrow> Creature \<Rightarrow> Tile \<Rightarrow> int \<Rightarrow> cflags \<Rightarrow> Tile option \<Rightarrow> nat
     \<Rightarrow> Creature \<times> Tile \<times> Tile option \<times> nat" where
  "followTiles tops maxLayers creature toCylinder index flags fromCylinder n =
     (case tileQueryDestination tops toCylinder index creature flags of
        (subCylinder, index', flags') \<Rightarrow>
          if subCylinder = toCylinder then (creature, toCylinder, fromCylinder, n)
          else
            (let creature' = moveCreature tops creature subCylinder
             in if getTile creature' \<noteq> subCylinder then (creature', toCylinder, None, n)
                else if Suc n \<ge> maxLayers then (creature', subCylinder, Some toCylinder, Suc n)
                else followTiles tops maxLayers creature' subCylinder index' {} (Some toCylinder) (Suc n)))"
  by pat_completeness auto
termination
  by (relation "measure (\<lambda>(tops, maxLayers, creature, toCylinder, index, flags, fromCylinder, n).
                  maxLayers - n)") auto

declare followTiles.simps [simp del]

definition internalMoveCreatureToTile ::
  "tile_ops \<Rightarrow> nat \<Rightarrow> Creature \<Rightarrow> Tile \<Rightarrow> cflags \<Rightarrow> ReturnValue \<times> Creature" where
  "internalMoveCreatureToTile tops maxLayers creature toTile flags =
     (let ret = tileQueryAdd tops toTile creature flags
      in if ret \<noteq> RETURNVALUE_NOERROR then (ret, creature)
         else
           (let creature1 = moveCreature tops creature toTile
            in if getTile creature1 \<noteq> toTile then (RETURNVALUE_NOERROR, creature1)
               else
                 (case followTiles tops maxLayers creature1 toTile 0 flags None 0 of
                    (creature2, toCylinder, fromCylinder, n) \<Rightarrow>
                      (case fromCylinder of
                         None \<Rightarrow> (RETURNVALUE_NOERROR, creature2)
                       | Some fromTile \<Rightarrow>
                           (let fromPosition = tilePos fromTile;
                                toPosition = tilePos toCylinder
                            in if posz fromPosition \<noteq> posz toPosition
                                  \<and> (posx fromPosition \<noteq> posx toPosition
                                       \<or> posy fromPosition \<noteq> posy toPosition)
                               then
                                 (let dir = getDirectionTo tops fromPosition toPosition
                                  in if \<not> diagonalDirection dir
                                     then (RETURNVALUE_NOERROR, internalCreatureTurn creature2 dir)
                                     else (RETURNVALUE_NOERROR, creature2))
                               else (RETURNVALUE_NOERROR, creature2))))))"

text \<open>\<^verbatim>\<open>Game::internalMoveCreature(Creature*, Direction, flags)\<close>.\<close>

definition internalMoveCreature ::
  "tile_ops \<Rightarrow> nat \<Rightarrow> (Direction \<Rightarrow> Position \<Rightarrow> Position) \<Rightarrow> tilemap \<Rightarrow> Creature \<Rightarrow> Direction
     \<Rightarrow> cflags \<Rightarrow> ReturnValue \<times> Creature" where
  "internalMoveCreature tops maxLayers nextPos tileAt creature0 dir flags0 =
     (case stepDestination nextPos tileAt creature0 dir flags0 of
        (creature, destPos, flags) \<Rightarrow>
          (case tileAt destPos of
             None \<Rightarrow> (RETURNVALUE_NOTPOSSIBLE, creature)
           | Some toTile \<Rightarrow> internalMoveCreatureToTile tops maxLayers creature toTile flags))"

section \<open>Counting what holders hold\<close>

text \<open>
  The vocabulary of the conservation property: how many units of an item a holder holds
  (none when the item is not among its children), and what it means for the stacks of a
  world to be within their limits.  The count of an item is a byte, so a limit is at most 255.
\<close>

definition heldCount :: "world \<Rightarrow> cyl_id \<Rightarrow> item_id \<Rightarrow> nat" where
  "heldCount w c i = (if i \<in> set (things w c) then itemCount (items w i) else 0)"

definition countOk :: "world \<Rightarrow> item_id \<Rightarrow> bool" where
  "countOk w i = (1 \<le> itemCount (items w i) \<and> itemCount (items w i) \<le> stackSize (items w i)
                  \<and> stackSize (items w i) \<le> 255)"

definition stacksOk :: "world \<Rightarrow> bool" where
  "stacksOk w = (\<forall>c. \<forall>i \<in> set (things w c). countOk w i)"

text \<open>The units a holder holds in all: the sum over its children.\<close>

definition totalCount :: "world \<Rightarrow> cyl_id \<Rightarrow> nat" where
  "totalCount w c = sum_list (map (\<lambda>i. itemCount (items w i)) (things w c))"

text \<open>
  What the conservation property looks at, and nothing else: the children of every holder,
  and the count and the stack limit of every item.
\<close>

definition stock :: "world \<Rightarrow> (cyl_id \<Rightarrow> item_id list) \<times> (item_id \<Rightarrow> nat \<times> nat)" where
  "stock w = (things w, \<lambda>i. (itemCount (items w i), stackSize (items w i)))"

text \<open>
  Filling the existing destination stack first: when the destination item equals the moved
  one it takes the moved quantity up to the room it has left, otherwise nothing is merged.
\<close>

definition mergedUnits :: "world \<Rightarrow> item_id \<Rightarrow> item_id option \<Rightarrow> nat \<Rightarrow> nat" where
  "mergedUnits w item toItem m =
     (case toItem of
        Some t \<Rightarrow> if equals w item toItem
                  then min (stackSize (items w t) - itemCount (items w t)) m else 0
      | None \<Rightarrow> 0)"

text \<open>
  The holder \<open>k\<close> steps up the parent chain of a holder (the holder itself for \<open>k = 0\<close>),
  if the chain is that long.
\<close>

primrec nthParent :: "world \<Rightarrow> nat \<Rightarrow> cyl_id \<Rightarrow> cyl_id option" where
  "nthParent w 0 c = Some c"
| "nthParent w (Suc k) c = (case cylParent w c of None \<Rightarrow> None | Some p \<Rightarrow> nthParent w k p)"

section \<open>Concrete worlds\<close>

text \<open>The instances at which the properties below are evaluated.\<close>

subsection \<open>Items and worlds to start from\<close>

definition plainItem :: Item where
  "plainItem =
     \<lparr>itemID = 1, itemCount = 1, isStackable = False, stackSize = 1, itemAttributes = 0,
      duration = 0, decaying = DECAYING_FALSE, decayTo = 0, canDecay = False, canRemove = True,
      referenceCounter = 1, itemParent = None\<rparr>"

definition emptyWorld :: world where
  "emptyWorld =
     \<lparr>items = (\<lambda>i. plainItem), things = (\<lambda>c. []), cylParent = (\<lambda>c. None), cylItem = (\<lambda>c. None),
      nextItem = 100, toDecayItems = [], decayItems = [[], [], [], []], lastBucket = 0,
      ToReleaseItems = [], notifications = []\<rparr>"

text \<open>A holder protocol that admits everything and resolves every destination to itself.\<close>

definition openOps :: holder_ops where
  "openOps =
     \<lparr>queryAdd = (\<lambda>w c k i n f a. RETURNVALUE_NOERROR),
      queryMaxCount = (\<lambda>w c k i n f. (RETURNVALUE_NOERROR, n)),
      queryRemove = (\<lambda>w c i n f a. RETURNVALUE_NOERROR),
      queryDestination = (\<lambda>w i d. d),
      eventPlayerOnMoveItem = (\<lambda>w p i n fp tp fc tc. RETURNVALUE_NOERROR)\<rparr>"

text \<open>A holder protocol whose \<open>queryDestination\<close> always points one holder further.\<close>

definition endlessOps :: holder_ops where
  "endlessOps = openOps\<lparr>queryDestination := (\<lambda>w i d. d\<lparr>destCylinder := Suc (destCylinder d)\<rparr>)\<rparr>"

subsection \<open>Two stacks\<close>

text \<open>
  Holder 2 holds item 10, a stack of 80; holder 3, a bag, holds item 20, a stack of 60 of the
  same type.  The stack limit is 100.  \<open>stackOps\<close> reports the first child of a holder as the
  item a new arrival collides with.
\<close>

definition stackOf :: "nat \<Rightarrow> cyl_id \<Rightarrow> Item" where
  "stackOf n c = plainItem\<lparr>itemID := 7, itemCount := n, isStackable := True, stackSize := 100,
                            itemParent := Some c\<rparr>"

definition twoStacks :: world where
  "twoStacks = emptyWorld\<lparr>items := (\<lambda>i. if i = 10 then stackOf 80 2 else if i = 20 then stackOf 60 3
                                            else plainItem),
                            things := (\<lambda>c. if c = 2 then [10] else if c = 3 then [20] else [])\<rparr>"

definition stackOps :: holder_ops where
  "stackOps = openOps\<lparr>queryDestination :=
     (\<lambda>w i d. d\<lparr>destItem := (case things w (destCylinder d) of [] \<Rightarrow> None | x # xs \<Rightarrow> Some x)\<rparr>)\<rparr>"


text \<open>A game rule that vetoes every move a player makes.\<close>

definition vetoOps :: holder_ops where
  "vetoOps = stackOps\<lparr>eventPlayerOnMoveItem := (\<lambda>w p i n fp tp fc tc. RETURNVALUE_NOTPOSSIBLE)\<rparr>"

text \<open>A holder that reports room for 40 of whatever is offered, and no failure.\<close>

definition cappedOps :: holder_ops where
  "cappedOps = stackOps\<lparr>queryMaxCount := (\<lambda>w c k i n f. (RETURNVALUE_NOERROR, 40))\<rparr>"

subsection \<open>An occupied slot\<close>

text \<open>
  Holder 2 holds item 10 and holder 3, a single slot, holds item 20, two different things
  that do not stack; holder 4 is empty.  The slot asks for an exchange while it is occupied.
  Under \<open>lockedOps\<close> nothing can be taken out of the slot.  Under \<open>swapOps\<close> the exchange
  goes through.  Under \<open>roomyOps\<close> every holder reports room for five and lets go of one
  thing at a time only.
\<close>

definition slotWorld :: world where
  "slotWorld = emptyWorld\<lparr>items := (\<lambda>i. if i = 10 then plainItem\<lparr>itemParent := Some 2\<rparr>
                                            else if i = 20 then plainItem\<lparr>itemID := 2, itemParent := Some 3\<rparr>
                                            else plainItem),
                            things := (\<lambda>c. if c = 2 then [10] else if c = 3 then [20] else [])\<rparr>"

definition swapOps :: holder_ops where
  "swapOps = stackOps\<lparr>queryAdd := (\<lambda>w c k i n f a. if c = 3 \<and> things w 3 \<noteq> []
                                                     then RETURNVALUE_NEEDEXCHANGE else RETURNVALUE_NOERROR)\<rparr>"

definition lockedOps :: holder_ops where
  "lockedOps = swapOps\<lparr>queryRemove := (\<lambda>w c i n f a. if c = 3 then RETURNVALUE_NOTPOSSIBLE
                                                      else RETURNVALUE_NOERROR)\<rparr>"


text \<open>
  The same slot as part of a trade: holder 3 is the container item 40, which is in escrow,
  and holder 6 is a bag inside it.
\<close>

definition escrowWorld :: world where
  "escrowWorld = slotWorld\<lparr>cylItem := (\<lambda>c. if c = 3 then Some 40 else None),
                            cylParent := (\<lambda>c. if c = 6 then Some 3 else None)\<rparr>"

subsection \<open>A decaying item\<close>

text \<open>
  Item 30 lies in holder 3, decays by removal (it has no decay target) and has \<open>d\<close>
  milliseconds left.  In \<open>pendingDecay\<close> it has just been enrolled and waits in
  \<^verbatim>\<open>toDecayItems\<close>; in \<open>bucketed\<close> it sits in the third of four buckets.
\<close>

definition decayingItem :: "int \<Rightarrow> Item" where
  "decayingItem d = plainItem\<lparr>duration := d, decaying := DECAYING_TRUE, canDecay := True,
                               referenceCounter := 2, itemParent := Some 3\<rparr>"

definition pendingDecay :: "int \<Rightarrow> world" where
  "pendingDecay d = emptyWorld\<lparr>items := (\<lambda>i. if i = 30 then decayingItem d else plainItem),
                               things := (\<lambda>c. if c = 3 then [30] else []),
                               toDecayItems := [30]\<rparr>"

definition bucketed :: "bool \<Rightarrow> world" where
  "bucketed cd = emptyWorld\<lparr>items := (\<lambda>i. if i = 30 then (decayingItem 5000)\<lparr>canDecay := cd\<rparr> else plainItem),
                             things := (\<lambda>c. if c = 3 then [30] else []),
                             decayItems := [[], [], [30], []]\<rparr>"

text \<open>
  The same item with 100 ms left, enrolled twice in the first bucket, which is the bucket of
  the next tick.
\<close>

definition twiceEnrolled :: world where
  "twiceEnrolled = emptyWorld\<lparr>items := (\<lambda>i. if i = 30 then decayingItem 100 else plainItem),
                               things := (\<lambda>c. if c = 3 then [30] else []),
                               decayItems := [[30, 30], [], [], []],
                               lastBucket := 3\<rparr>"

text \<open>Decay by transformation plays no part in these instances.\<close>

definition noTransform :: "world \<Rightarrow> item_id \<Rightarrow> world" where
  "noTransform w i = w"

subsection \<open>A step up a hill\<close>

text \<open>
  A player stands at (100, 100, z) on a tile of height 3 and steps east.  The tile above
  the player has no ground and no flags; the tile above the destination has ground.
\<close>

definition stepEast :: "Direction \<Rightarrow> Position \<Rightarrow> Position" where
  "stepEast dir p = p\<lparr>posx := posx p + 1\<rparr>"

definition hillTile :: "16 word \<Rightarrow> 16 word \<Rightarrow> 8 word \<Rightarrow> bool \<Rightarrow> nat \<Rightarrow> Tile" where
  "hillTile x y z g h = \<lparr>tilePos = \<lparr>posx = x, posy = y, posz = z\<rparr>, hasGround = g, tileFlags = [], tileHeight = h\<rparr>"

definition hillMap :: "8 word \<Rightarrow> tilemap" where
  "hillMap z p =
     (if p = \<lparr>posx = 100, posy = 100, posz = z\<rparr> then Some (hillTile 100 100 z True 3)
      else if p = \<lparr>posx = 101, posy = 100, posz = z\<rparr> then Some (hillTile 101 100 z True 0)
      else if p = \<lparr>posx = 100, posy = 100, posz = z - 1\<rparr> then Some (hillTile 100 100 (z - 1) False 0)
      else if p = \<lparr>posx = 101, posy = 100, posz = z - 1\<rparr> then Some (hillTile 101 100 (z - 1) True 0)
      else None)"

definition hillPlayer :: "8 word \<Rightarrow> Creature" where
  "hillPlayer z = \<lparr>getTile = hillTile 100 100 z True 3, direction = DIRECTION_NORTH,
                    lastPosition = \<lparr>posx = 100, posy = 99, posz = z\<rparr>, isPlayer = True\<rparr>"

section \<open>Properties\<close>

subsection \<open>The descent is bounded\<close>

lemma resolveDestination_counter:
  "snd (resolveDestination ops maxLayers w item d floorN) \<le> max (Suc floorN) maxLayers"
proof (induction ops maxLayers w item d floorN rule: resolveDestination.induct)
  case (1 ops maxLayers w item d floorN)
  show ?case
  proof (cases "destCylinder (queryDestination ops w item d) = destCylinder d")
    case True
    then show ?thesis by (simp add: resolveDestination.simps [of ops maxLayers w item d floorN])
  next
    case stable: False
    show ?thesis
    proof (cases "maxLayers \<le> Suc floorN")
      case True
      then show ?thesis using stable
        by (simp add: resolveDestination.simps [of ops maxLayers w item d floorN])
    next
      case False
      then have "snd (resolveDestination ops maxLayers w item d floorN) =
                 snd (resolveDestination ops maxLayers w item
                        ((queryDestination ops w item d)\<lparr>destFlags := {}\<rparr>) (Suc floorN))"
        using stable by (simp add: resolveDestination.simps [of ops maxLayers w item d floorN])
      moreover have "snd (resolveDestination ops maxLayers w item
                        ((queryDestination ops w item d)\<lparr>destFlags := {}\<rparr>) (Suc floorN))
                     \<le> max (Suc (Suc floorN)) maxLayers"
        using "1.IH" [OF refl stable] False by simp
      ultimately show ?thesis using False by simp
    qed
  qed
qed

lemma resolveDestination_endless:
  "(\<forall>d'. destCylinder (queryDestination ops w item d') \<noteq> destCylinder d')
   \<Longrightarrow> floorN < maxLayers
   \<Longrightarrow> snd (resolveDestination ops maxLayers w item d floorN) = maxLayers"
proof (induction ops maxLayers w item d floorN rule: resolveDestination.induct)
  case (1 ops maxLayers w item d floorN)
  have moving: "destCylinder (queryDestination ops w item d) \<noteq> destCylinder d"
    using "1.prems"(1) by blast
  show ?case
  proof (cases "maxLayers \<le> Suc floorN")
    case True
    then have "maxLayers = Suc floorN" using "1.prems"(2) by simp
    then show ?thesis using moving
      by (subst resolveDestination.simps) simp
  next
    case False
    then have "snd (resolveDestination ops maxLayers w item d floorN) =
               snd (resolveDestination ops maxLayers w item
                      ((queryDestination ops w item d)\<lparr>destFlags := {}\<rparr>) (Suc floorN))"
      using moving by (simp add: resolveDestination.simps [of ops maxLayers w item d floorN])
    also have "\<dots> = maxLayers"
      using "1.IH" [OF refl moving _ "1.prems"(1)] False by simp
    finally show ?thesis .
  qed
qed

lemma resolveDestination_endless0:
  assumes "\<forall>d'. destCylinder (queryDestination ops w item d') \<noteq> destCylinder d'"
  shows "snd (resolveDestination ops maxLayers w item d 0) = max 1 maxLayers"
proof (cases "maxLayers = 0")
  case True
  then show ?thesis using assms
    by (subst resolveDestination.simps) simp
next
  case False
  then show ?thesis using resolveDestination_endless [OF assms, of 0 maxLayers d] by simp
qed

text \<open>
  C8.  The descent that resolves the destination of \<open>internalMoveItem\<close> is a total function,
  and its counter \<^verbatim>\<open>floorN\<close>, which counts the times the loop body ran, ends at no more
  than \<^verbatim>\<open>MAP_MAX_LAYERS\<close> (at 1 when that constant is 0, since the test comes after the
  first increment).  This holds for every \<open>queryDestination\<close>; for one that never answers
  the holder it was asked about, the loop runs exactly that often and then stops.
\<close>

theorem resolveDestination_bounded:
  "snd (resolveDestination ops maxLayers w item d 0) \<le> max 1 maxLayers
   \<and> ((\<forall>d'. destCylinder (queryDestination ops w item d') \<noteq> destCylinder d')
        \<longrightarrow> snd (resolveDestination ops maxLayers w item d 0) = max 1 maxLayers)"
  using resolveDestination_counter [of ops maxLayers w item d 0]
        resolveDestination_endless0 [of ops w item maxLayers d]
  by simp

text \<open>With a bound of 3 and holders that always point further, the descent stops at 3.\<close>

theorem resolveDestination_bounded_witness:
  "snd (resolveDestination endlessOps 3 emptyWorld 0
          \<lparr>destCylinder = 0, destIndex = 0, destItem = None, destFlags = {}\<rparr> 0) = 3"
  using resolveDestination_bounded
          [of endlessOps 3 emptyWorld 0 "\<lparr>destCylinder = 0, destIndex = 0, destItem = None, destFlags = {}\<rparr>"]
  by (simp add: endlessOps_def openOps_def)

text \<open>The loop of the creature's tile overload has the same guard and the same bound.\<close>

lemma followTiles_counter:
  "snd (snd (snd (followTiles tops maxLayers creature toCylinder index flags fromCylinder n)))
     \<le> max (Suc n) maxLayers"
proof (induction tops maxLayers creature toCylinder index flags fromCylinder n rule: followTiles.induct)
  case (1 tops maxLayers creature toCylinder index flags fromCylinder n)
  obtain sub index' flags' where q: "tileQueryDestination tops toCylinder index creature flags = (sub, index', flags')"
    by (cases "tileQueryDestination tops toCylinder index creature flags") auto
  show ?case
  proof (cases "sub \<noteq> toCylinder \<and> getTile (moveCreature tops creature sub) = sub \<and> \<not> maxLayers \<le> Suc n")
    case True
    then have "followTiles tops maxLayers creature toCylinder index flags fromCylinder n =
               followTiles tops maxLayers (moveCreature tops creature sub) sub index' {} (Some toCylinder) (Suc n)"
      using q by (simp add: followTiles.simps [of tops maxLayers creature toCylinder index flags fromCylinder n] Let_def)
    moreover have "snd (snd (snd (followTiles tops maxLayers (moveCreature tops creature sub) sub index' {} (Some toCylinder) (Suc n))))
        \<le> max (Suc (Suc n)) maxLayers"
      using "1.IH" [OF q [symmetric] refl _ refl] True by simp
    ultimately show ?thesis using True by simp
  next
    case False
    then show ?thesis using q
      by (auto simp: followTiles.simps [of tops maxLayers creature toCylinder index flags fromCylinder n] Let_def)
  qed
qed

subsection \<open>Moving an item onto itself\<close>

text \<open>
  C4 (as amended).  When the resolved destination names the moved item itself as the item
  at the target, the world \<open>internalMoveItem\<close> returns is the world it was given: neither
  holder has changed, and the list of fired notifications is the same.  The outcome is that
  of the pre-move hook, which runs first: success when the hook lets the move through, and
  in particular when it is not consulted (no player acts, or a position is missing), and
  the hook's veto otherwise.
\<close>

theorem internalMoveItem_same_item:
  assumes "destItem (fst (resolveDestination ops maxLayers w item
            \<lparr>destCylinder = toCylinder, destIndex = index, destItem = None, destFlags = flags\<rparr> 0))
          = Some item"
  shows "internalMoveItem ops maxLayers w fromCylinder toCylinder index item n flags actor tradeItem
           fromPos toPos
           = Some (preMoveHook ops w actor fromPos toPos item n fromCylinder toCylinder, w, None)
       \<and> (actorPlayer actor = None \<or> fromPos = None \<or> toPos = None
            \<longrightarrow> internalMoveItem ops maxLayers w fromCylinder toCylinder index item n flags actor tradeItem
                  fromPos toPos = Some (RETURNVALUE_NOERROR, w, None))"
proof -
  have call: "internalMoveItem ops maxLayers w fromCylinder toCylinder index item n flags actor tradeItem
           fromPos toPos
           = Some (preMoveHook ops w actor fromPos toPos item n fromCylinder toCylinder, w, None)"
    using assms by (simp add: internalMoveItem_def Let_def)
  have "preMoveHook ops w actor fromPos toPos item n fromCylinder toCylinder = RETURNVALUE_NOERROR"
    if "actorPlayer actor = None \<or> fromPos = None \<or> toPos = None"
    using that by (auto simp: preMoveHook_def split: option.splits)
  then show ?thesis using call by simp
qed

text \<open>Moving the stack of 80 to where it already lies.\<close>

theorem internalMoveItem_same_item_witness:
  "internalMoveItem stackOps 16 twoStacks 2 2 0 10 80 {} None None None None
     = Some (RETURNVALUE_NOERROR, twoStacks, None)"
  using internalMoveItem_same_item [of stackOps 16 twoStacks 10 2 0 "{}" 2 80 None None None None]
  by (simp add: preMoveHook_def actorPlayer_def stackOps_def openOps_def twoStacks_def emptyWorld_def
        resolveDestination.simps)

text \<open>
  C4 as stated fails when a game rule vetoes: a player moves the stack of 80 to where it
  already lies, the hook answers not-possible, and that is what the call returns.
\<close>

theorem internalMoveItem_same_item_counterexample:
  "destItem (fst (resolveDestination vetoOps 16 twoStacks 10
       \<lparr>destCylinder = 2, destIndex = 0, destItem = None, destFlags = {}\<rparr> 0)) = Some 10
   \<and> internalMoveItem vetoOps 16 twoStacks 2 2 0 10 80 {} (Some (hillPlayer 7))  None
        (Some \<lparr>posx = 100, posy = 100, posz = 7\<rparr>) (Some \<lparr>posx = 100, posy = 100, posz = 7\<rparr>)
       = Some (RETURNVALUE_NOTPOSSIBLE, twoStacks, None)"
  by (simp add: internalMoveItem_def preMoveHook_def actorPlayer_def hillPlayer_def vetoOps_def
        stackOps_def openOps_def twoStacks_def emptyWorld_def resolveDestination.simps)

subsection \<open>Stack conservation\<close>

text \<open>Notifications, releases and decay enrolment leave the stock of a world alone.\<close>

lemma stock_things: "stock w = stock w' \<Longrightarrow> things w = things w'"
  by (simp add: stock_def)

lemma stock_itemCount: "stock w = stock w' \<Longrightarrow> itemCount (items w i) = itemCount (items w' i)"
proof -
  assume "stock w = stock w'"
  then have "snd (stock w) i = snd (stock w') i" by simp
  then show ?thesis by (simp add: stock_def)
qed

lemma stock_stackSize: "stock w = stock w' \<Longrightarrow> stackSize (items w i) = stackSize (items w' i)"
proof -
  assume "stock w = stock w'"
  then have "snd (stock w) i = snd (stock w') i" by simp
  then show ?thesis by (simp add: stock_def)
qed

lemma stock_heldCount: "stock w = stock w' \<Longrightarrow> heldCount w c i = heldCount w' c i"
  using stock_things [of w w'] stock_itemCount [of w w' i] by (simp add: heldCount_def)

lemma stock_countOk: "stock w = stock w' \<Longrightarrow> countOk w i = countOk w' i"
  using stock_itemCount [of w w' i] stock_stackSize [of w w' i] by (simp add: countOk_def)

lemma stock_stacksOk: "stock w = stock w' \<Longrightarrow> stacksOk w = stacksOk w'"
  using stock_things [of w w'] stock_countOk [of w w'] by (simp add: stacksOk_def)

lemma stock_totalCount: "stock w = stock w' \<Longrightarrow> totalCount w c = totalCount w' c"
proof -
  assume eq: "stock w = stock w'"
  have "(\<lambda>i. itemCount (items w i)) = (\<lambda>i. itemCount (items w' i))"
    using stock_itemCount [OF eq] by auto
  then show ?thesis using stock_things [OF eq] by (simp add: totalCount_def)
qed

lemma stock_notify [simp]: "stock (notify w e) = stock w"
  by (simp add: stock_def notify_def)

lemma stock_ReleaseItem [simp]: "stock (ReleaseItem w i) = stock w"
  by (simp add: stock_def ReleaseItem_def)

lemma stock_enrolDecay [simp]: "stock (enrolDecay w i) = stock w"
  by (auto simp: stock_def enrolDecay_def)

text \<open>From a successful call to the commit it went through.\<close>

lemma checkAdd_toItem:
  "checkAdd ops w fromCylinder d item n actor fromPos toPos = Some (Inr (w1, toItem))
   \<Longrightarrow> toItem = destItem d \<or> toItem = None"
  by (auto simp: checkAdd_def Let_def split: option.splits if_splits prod.splits)

lemma internalMoveItem_commit:
  assumes res: "internalMoveItem ops maxLayers w fromCylinder toCylinder index item n flags actor tradeItem
                  fromPos toPos = Some (RETURNVALUE_NOERROR, w', out)"
    and d: "d = fst (resolveDestination ops maxLayers w item
                  \<lparr>destCylinder = toCylinder, destIndex = index, destItem = None, destFlags = flags\<rparr> 0)"
    and notself: "destItem d \<noteq> Some item"
    and chk: "checkAdd ops w fromCylinder d item n actor fromPos toPos = Some (Inr (w1, toItem))"
    and q: "queryMaxCount ops w1 (destCylinder d) (destIndex d) item n (destFlags d) = (r, q)"
  shows "commitMove w1 fromCylinder d toItem item n (moveCount w1 item n q) r q RETURNVALUE_NOERROR
           (hooked actor fromPos toPos) = (RETURNVALUE_NOERROR, w', out)"
proof -
  have veto: "preMoveHook ops w actor fromPos toPos item n fromCylinder toCylinder = RETURNVALUE_NOERROR"
    using res by (auto simp: internalMoveItem_def Let_def split: if_splits)
  have "moveChecked ops w1 fromCylinder d toItem item n actor tradeItem (hooked actor fromPos toPos)
          = Some (RETURNVALUE_NOERROR, w', out)"
    using res veto notself chk unfolding internalMoveItem_def Let_def d [symmetric] by simp
  then show ?thesis
    using q by (auto simp: moveChecked_def Let_def split: if_splits option.splits bool.splits)
qed


text \<open>A call, with the resolved destination named.\<close>

lemma internalMoveItem_unfold:
  assumes "d = fst (resolveDestination ops maxLayers w item
                      \<lparr>destCylinder = toCylinder, destIndex = index, destItem = None,
                       destFlags = flags\<rparr> 0)"
  shows "internalMoveItem ops maxLayers w fromCylinder toCylinder index item n flags actor tradeItem
           fromPos toPos =
         (if preMoveHook ops w actor fromPos toPos item n fromCylinder toCylinder \<noteq> RETURNVALUE_NOERROR
          then Some (preMoveHook ops w actor fromPos toPos item n fromCylinder toCylinder, w, None)
          else if destItem d = Some item then Some (RETURNVALUE_NOERROR, w, None)
          else (case checkAdd ops w fromCylinder d item n actor fromPos toPos of
                  None \<Rightarrow> None
                | Some (Inl (ret, w')) \<Rightarrow> Some (ret, w', None)
                | Some (Inr (w', toItem)) \<Rightarrow>
                    moveChecked ops w' fromCylinder d toItem item n actor tradeItem
                      (hooked actor fromPos toPos)))"
  unfolding internalMoveItem_def Let_def assms [symmetric] by simp

text \<open>A destination that does not ask for an exchange leaves the world to the add check as it is.\<close>

lemma checkAdd_no_exchange:
  assumes "queryAdd ops w (destCylinder d) (destIndex d) item n (destFlags d) actor \<noteq> RETURNVALUE_NEEDEXCHANGE"
  shows "checkAdd ops w fromCylinder d item n actor fromPos toPos =
           (if queryAdd ops w (destCylinder d) (destIndex d) item n (destFlags d) actor \<noteq> RETURNVALUE_NOERROR
            then Some (Inl (queryAdd ops w (destCylinder d) (destIndex d) item n (destFlags d) actor, w))
            else Some (Inr (w, destItem d)))"
  using assms by (simp add: checkAdd_def Let_def)

text \<open>No step of the commit changes whether the moved item stacks.\<close>

lemma isStackable_removeThing [simp]:
  "isStackable (items (removeThing w c item m) i) = isStackable (items w i)"
  by (simp add: removeThing_def Let_def)

lemma isStackable_updateStack:
  "isStackable (items (fst (updateStack w c item toItem m)) item) = isStackable (items w item)"
  by (simp add: updateStack_def Let_def split_beta clone_def setItemCount_def ReleaseItem_def updateThing_def
           split: option.split)

lemma isStackable_addThing [simp]:
  "isStackable (items (addThing w c k i) x) = isStackable (items w x)"
  by (simp add: addThing_def)

lemma isStackable_notify [simp]:
  "isStackable (items (notify w e) x) = isStackable (items w x)"
  by (simp add: notify_def)

lemma isStackable_postMoveNotifications [simp]:
  "isStackable (items (postMoveNotifications w f t item k mv ui) x) = isStackable (items w x)"
  by (simp add: postMoveNotifications_def Let_def split: option.split)

text \<open>A stackable move that falls short reports what \<open>queryMaxCount\<close> reported.\<close>

lemma commitMove_shortfall:
  assumes "isStackable (items w item)" "q < n"
  shows "fst (commitMove w fromCylinder d toItem item n m r q ret hk) = r"
proof -
  obtain wB moveItem updateItem where
    us: "updateStack (removeThing w fromCylinder item m) (destCylinder d) item toItem m
           = (wB, moveItem, updateItem)"
    by (cases "updateStack (removeThing w fromCylinder item m) (destCylinder d) item toItem m") auto
  have "isStackable (items wB item)"
    using isStackable_updateStack [of "removeThing w fromCylinder item m" "destCylinder d" item toItem m]
      us assms(1) by simp
  then show ?thesis
    using assms us by (simp add: commitMove_def Let_def reportMove_def split: option.split)
qed


text \<open>After the add check: the source is asked for \<open>moveCount\<close>, and that is what is committed.\<close>

lemma moveChecked_commit:
  assumes q: "queryMaxCount ops w1 (destCylinder d) (destIndex d) item n (destFlags d) = (r, q)"
    and avail: "r = RETURNVALUE_NOERROR \<or> 0 < q"
    and trade: "tradeItemInDestination w1 tradeItem (destCylinder d) = Some False"
  shows "moveChecked ops w1 fromCylinder d toItem item n actor tradeItem hk =
           (let m = moveCount w1 item n q;
                ret = queryRemove ops w1 fromCylinder item m (destFlags d) actor
            in if ret \<noteq> RETURNVALUE_NOERROR then Some (ret, w1, None)
               else Some (commitMove w1 fromCylinder d toItem item n m r q RETURNVALUE_NOERROR hk))"
  using assms by (auto simp: moveChecked_def Let_def)

text \<open>Any other committed move reports the outcome it was given.\<close>

lemma commitMove_outcome:
  assumes "\<not> (isStackable (items w item) \<and> q < n)"
  shows "fst (commitMove w fromCylinder d toItem item n m r q ret hk) = ret"
proof (cases "isStackable (items w item)")
  case True
  obtain wB moveItem updateItem where
    us: "updateStack (removeThing w fromCylinder item m) (destCylinder d) item toItem m
           = (wB, moveItem, updateItem)"
    by (cases "updateStack (removeThing w fromCylinder item m) (destCylinder d) item toItem m") auto
  show ?thesis
    using assms True us by (simp add: commitMove_def Let_def reportMove_def split: option.split)
next
  case False
  then show ?thesis
    by (simp add: commitMove_def Let_def reportMove_def split: option.split)
qed

text \<open>A call that passes every check is the commit.\<close>

lemma internalMoveItem_reaches_commit:
  assumes hook: "preMoveHook ops w actor fromPos toPos item n fromCylinder toCylinder = RETURNVALUE_NOERROR"
    and d: "d = fst (resolveDestination ops maxLayers w item
                  \<lparr>destCylinder = toCylinder, destIndex = index, destItem = None, destFlags = flags\<rparr> 0)"
    and notself: "destItem d \<noteq> Some item"
    and chk: "checkAdd ops w fromCylinder d item n actor fromPos toPos = Some (Inr (w1, toItem))"
    and q: "queryMaxCount ops w1 (destCylinder d) (destIndex d) item n (destFlags d) = (r, q)"
    and avail: "r = RETURNVALUE_NOERROR \<or> 0 < q"
    and rem: "queryRemove ops w1 fromCylinder item (moveCount w1 item n q) (destFlags d) actor
                = RETURNVALUE_NOERROR"
    and trade: "tradeItemInDestination w1 tradeItem (destCylinder d) = Some False"
  shows "internalMoveItem ops maxLayers w fromCylinder toCylinder index item n flags actor tradeItem
           fromPos toPos =
         Some (commitMove w1 fromCylinder d toItem item n (moveCount w1 item n q) r q RETURNVALUE_NOERROR
                 (hooked actor fromPos toPos))"
proof -
  have "moveChecked ops w1 fromCylinder d toItem item n actor tradeItem (hooked actor fromPos toPos) =
          Some (commitMove w1 fromCylinder d toItem item n (moveCount w1 item n q) r q RETURNVALUE_NOERROR
                  (hooked actor fromPos toPos))"
    using rem by (simp add: moveChecked_commit [OF q avail trade] Let_def)
  then show ?thesis
    unfolding internalMoveItem_unfold [OF d] using hook notself chk by simp
qed


text \<open>Within the range of a byte the conversions of the source change nothing.\<close>

lemma u32_sub: "b \<le> a \<Longrightarrow> a < 2 ^ 32 \<Longrightarrow> u32 (int a - int b) = a - b"
proof -
  assume le: "b \<le> a" and small: "a < 2 ^ 32"
  have "int a - int b = int (a - b)" using le by simp
  then have "u32 (int a - int b) = (a - b) mod 2 ^ 32" by (simp only: u32_int)
  moreover have "a - b < 2 ^ 32" using small by (rule less_imp_diff_less)
  ultimately show ?thesis by (simp only: mod_less)
qed

lemma u32_add: "a + b < 2 ^ 32 \<Longrightarrow> u32 (int a + int b) = a + b"
proof -
  assume small: "a + b < 2 ^ 32"
  have "int a + int b = int (a + b)" by simp
  then have "u32 (int a + int b) = (a + b) mod 2 ^ 32" by (simp only: u32_int)
  then show ?thesis using small by (simp only: mod_less)
qed

lemma s32_small: "x < 2 ^ 31 \<Longrightarrow> s32 x = int x"
proof -
  assume small: "x < 2 ^ 31"
  have "(2::nat) ^ 31 < 2 ^ 32" by simp
  then have "x < 2 ^ 32" using small by (rule less_trans [rotated])
  then have "x mod 2 ^ 32 = x" by (rule mod_less)
  then show ?thesis using small by (simp add: s32_def)
qed

lemma u8_small: "x < 256 \<Longrightarrow> u8 x = x"
  by (simp add: u8_def)

lemma byte_less_2p31: "x \<le> 255 \<Longrightarrow> (x::nat) < 2 ^ 31"
  by simp

lemma byte_less_2p32: "x \<le> 255 \<Longrightarrow> (x::nat) < 2 ^ 32"
  by simp

lemma mergeAmount_room:
  assumes "itemCount (items w t) \<le> stackSize (items w t)" "stackSize (items w t) \<le> 255"
  shows "mergeAmount w t m = min (stackSize (items w t) - itemCount (items w t)) m"
  using assms u32_sub [of "itemCount (items w t)" "stackSize (items w t)"] byte_less_2p32
  by (simp add: mergeAmount_def)


lemma mergedUnits_le: "mergedUnits w item toItem m \<le> m"
  by (simp add: mergedUnits_def split: option.splits)

lemma remainder_count:
  assumes "k \<le> m" "m \<le> 255"
  shows "s32 (u32 (int m - int k)) = int (m - k)" "u8 (m - k) = m - k"
    "u8 (nat (int m - int k)) = m - k"
proof -
  have "nat (int m - int k) = m - k" by simp
  then show "u8 (nat (int m - int k)) = m - k" using assms by (simp add: u8_small)
  have m32: "m < 2 ^ 32" using assms(2) by (rule byte_less_2p32)
  have "m - k \<le> 255" using assms by simp
  then have "m - k < 2 ^ 31" by (rule byte_less_2p31)
  then show "s32 (u32 (int m - int k)) = int (m - k)"
    using u32_sub [OF assms(1) m32] s32_small by simp
  show "u8 (m - k) = m - k" using assms by (simp add: u8_small)
qed

lemma merged_count:
  assumes "c \<le> s" "s \<le> 255" "k \<le> s - c"
  shows "u8 (u32 (int c + int k)) = c + k"
proof -
  have le: "c + k \<le> 255" using assms by simp
  then have "c + k < 2 ^ 32" by (rule byte_less_2p32)
  then have "u32 (int c + int k) = c + k" by (rule u32_add)
  then show ?thesis using le by (simp add: u8_small)
qed

text \<open>What the merge and the split do to the stock.\<close>

lemma updateStack_effect:
  assumes m: "m \<le> 255"
    and tgt: "\<And>t. toItem = Some t \<Longrightarrow>
                itemCount (items wA t) \<le> stackSize (items wA t) \<and> stackSize (items wA t) \<le> 255
                \<and> t \<noteq> nextItem wA"
    and us: "updateStack wA toCyl item toItem m = (wB, moveItem, updateItem)"
    and k: "k = mergedUnits wA item toItem m"
  shows "moveItem = (if k < m then Some (nextItem wA) else None)
       \<and> things wB = things wA
       \<and> (\<forall>i. itemCount (items wB i) =
           (if i = nextItem wA \<and> k < m then m - k
            else if toItem = Some i \<and> equals wA item toItem then itemCount (items wA i) + k
            else itemCount (items wA i)))
       \<and> (\<forall>i. stackSize (items wB i) =
           (if i = nextItem wA \<and> k < m then stackSize (items wA item) else stackSize (items wA i)))"
proof -
  have km: "k \<le> m" unfolding k by (rule mergedUnits_le)
  note rc = remainder_count [OF km m]
  show ?thesis
  proof (cases "equals wA item toItem")
    case False
    then have k0: "k = 0" by (auto simp: k mergedUnits_def split: option.splits)
    have "updateStack wA toCyl item toItem m =
            (let newCount = s32 (u32 (int m - int k));
                 (w2, moveItem) =
                   (if newCount > 0 then
                      (let (wc, j) = clone wA item in (setItemCount wc j (u8 (nat newCount)), Some j))
                    else (wA, None));
                 w3 = (if isRemoved w2 item then ReleaseItem w2 item else w2)
             in (w3, moveItem, None))"
      using False k0 by (cases toItem) (simp_all add: updateStack_def Let_def)
    then show ?thesis using us k0 rc False
      by (auto simp: Let_def clone_def setItemCount_def ReleaseItem_def split: if_splits)
  next
    case True
    then obtain t where t: "toItem = Some t" by (auto simp: equals_def split: option.splits)
    note tg = tgt [OF t]
    have kroom: "k = min (stackSize (items wA t) - itemCount (items wA t)) m"
      using True t by (simp add: k mergedUnits_def)
    have ma: "mergeAmount wA t m = k"
      using tg kroom by (simp add: mergeAmount_room)
    have mc: "u8 (u32 (int (itemCount (items wA t)) + int k)) = itemCount (items wA t) + k"
      using tg kroom by (intro merged_count [of _ "stackSize (items wA t)"]) simp_all
    define wU where "wU = updateThing wA toCyl t (itemID (items wA t))
                            (u32 (int (itemCount (items wA t)) + int k))"
    have "updateStack wA toCyl item toItem m =
            (let newCount = s32 (u32 (int m - int k));
                 (w2, moveItem) =
                   (if newCount > 0 then
                      (let (wc, j) = clone wU item in (setItemCount wc j (u8 (nat newCount)), Some j))
                    else (wU, None));
                 w3 = (if isRemoved w2 item then ReleaseItem w2 item else w2)
             in (w3, moveItem, Some t))"
      using True t ma by (simp add: updateStack_def Let_def wU_def)
    then show ?thesis using us rc True t tg mc
      by (auto simp: Let_def clone_def setItemCount_def ReleaseItem_def wU_def updateThing_def
               split: if_splits)
  qed
qed


lemma set_insertAt: "set (insertAt k i xs) = insert i (set xs)"
proof (cases "0 \<le> k \<and> k \<le> int (length xs)")
  case True
  have "take (nat k) xs @ drop (nat k) xs = xs" by simp
  then have "set (take (nat k) xs) \<union> set (drop (nat k) xs) = set xs"
    by (metis set_append)
  then show ?thesis using True by (simp add: insertAt_def)
next
  case False
  then show ?thesis by (auto simp: insertAt_def)
qed

lemma removeThing_effect:
  assumes "isStackable (items w item)"
  shows "things (removeThing w c item m) =
           (if m = itemCount (items w item) then (things w)(c := removeAll item (things w c)) else things w)"
    and "itemCount (items (removeThing w c item m) i) =
           (if i = item \<and> m \<noteq> itemCount (items w item) then itemCount (items w item) - m
            else itemCount (items w i))"
    and "stackSize (items (removeThing w c item m) i) = stackSize (items w i)"
    and "isStackable (items (removeThing w c item m) i) = isStackable (items w i)"
    and "itemID (items (removeThing w c item m) i) = itemID (items w i)"
    and "itemAttributes (items (removeThing w c item m) i) = itemAttributes (items w i)"
    and "nextItem (removeThing w c item m) = nextItem w"
  using assms by (simp_all add: removeThing_def Let_def)

lemma addThing_effect:
  "things (addThing w c k i) = (things w)(c := insertAt k i (things w c))"
  "itemCount (items (addThing w c k i) x) = itemCount (items w x)"
  "stackSize (items (addThing w c k i) x) = stackSize (items w x)"
  by (simp_all add: addThing_def)

lemma stock_postMoveNotifications [simp]:
  "stock (postMoveNotifications w fromCylinder toCylinder item itemIndex moveItem updateItem) = stock w"
  by (simp add: postMoveNotifications_def Let_def split: option.split)

lemma stock_reportMove [simp]:
  "stock (fst (snd (reportMove w fromCylinder toCylinder item moveItem updateItem n r q ret hk))) = stock w"
  by (simp add: reportMove_def Let_def split: option.split)

lemma commitMove_stock:
  assumes stackable: "isStackable (items w1 item)"
    and cm: "commitMove w1 fromCylinder d toItem item n m r q ret hk = (res, w', out)"
    and us: "updateStack (removeThing w1 fromCylinder item m) (destCylinder d) item toItem m
               = (wB, moveItem, updateItem)"
  shows "stock w' = stock (case moveItem of
                             Some mi \<Rightarrow> addThing wB (destCylinder d) (destIndex d) mi
                           | None \<Rightarrow> wB)"
proof -
  have "stock (fst (snd (commitMove w1 fromCylinder d toItem item n m r q ret hk))) =
        stock (case moveItem of
                 Some mi \<Rightarrow> addThing wB (destCylinder d) (destIndex d) mi
               | None \<Rightarrow> wB)"
    unfolding commitMove_def Let_def
    using stackable us
    by (simp add: removeThing_effect)
  then show ?thesis using cm by simp
qed


lemma sum_list_insertAt:
  fixes f :: "nat \<Rightarrow> nat"
  shows "sum_list (map f (insertAt k j xs)) = f j + sum_list (map f xs)"
proof (cases "0 \<le> k \<and> k \<le> int (length xs)")
  case True
  have "sum_list (map f (take (nat k) xs)) + sum_list (map f (drop (nat k) xs))
          = sum_list (map f (take (nat k) xs @ drop (nat k) xs))"
    by (simp only: map_append sum_list_append)
  also have "\<dots> = sum_list (map f xs)"
    by (simp only: append_take_drop_id)
  finally show ?thesis using True by (simp add: insertAt_def)
next
  case False
  then show ?thesis by (auto simp: insertAt_def)
qed

lemma sum_list_same:
  fixes f :: "nat \<Rightarrow> nat"
  shows "(\<And>i. i \<in> set xs \<Longrightarrow> g i = f i) \<Longrightarrow> sum_list (map g xs) = sum_list (map f xs)"
  by (induction xs) auto

lemma sum_list_in_list:
  fixes f :: "nat \<Rightarrow> nat"
  shows "distinct xs \<Longrightarrow> t \<in> set xs \<Longrightarrow> g t = f t + k
         \<Longrightarrow> (\<And>i. i \<noteq> t \<Longrightarrow> i \<in> set xs \<Longrightarrow> g i = f i)
         \<Longrightarrow> sum_list (map g xs) = sum_list (map f xs) + k"
proof (induction xs)
  case Nil
  then show ?case by simp
next
  case (Cons x xs)
  show ?case
  proof (cases "x = t")
    case True
    then have notin: "t \<notin> set xs" using Cons.prems(1) by simp
    have "g i = f i" if "i \<in> set xs" for i
    proof -
      have "i \<noteq> t" using that notin by auto
      then show ?thesis using that by (intro Cons.prems(4)) simp_all
    qed
    then have "sum_list (map g xs) = sum_list (map f xs)"
      by (rule sum_list_same)
    then show ?thesis using True Cons.prems(3) by simp
  next
    case False
    then have "t \<in> set xs" "distinct xs" using Cons.prems by simp_all
    then have "sum_list (map g xs) = sum_list (map f xs) + k"
      using Cons.prems(3,4) by (intro Cons.IH) simp_all
    moreover have "g x = f x" using False by (intro Cons.prems(4)) simp_all
    ultimately show ?thesis by simp
  qed
qed

text \<open>
  The stock after the commit of a stackable move: the children of every holder, and the
  count and limit of every item, in terms of the world before.
\<close>

lemma commitMove_effect:
  assumes cm: "commitMove w1 fromCylinder d toItem item n m r q ret hk = (res, w', out)"
    and stackable: "isStackable (items w1 item)"
    and m255: "m \<le> 255"
    and tgt: "\<And>t. toItem = Some t \<Longrightarrow>
                t \<noteq> item \<and> t \<noteq> nextItem w1 \<and> itemCount (items w1 t) \<le> stackSize (items w1 t)
                \<and> stackSize (items w1 t) \<le> 255"
    and k: "k = mergedUnits w1 item toItem m"
    and c0: "c0 = itemCount (items w1 item)"
    and thA: "thA = (if m = c0 then (things w1)(fromCylinder := removeAll item (things w1 fromCylinder))
                     else things w1)"
  shows "things w' = (if k < m
                      then thA(destCylinder d := insertAt (destIndex d) (nextItem w1) (thA (destCylinder d)))
                      else thA)"
    and "itemCount (items w' i) =
           (if i = nextItem w1 \<and> k < m then m - k
            else if toItem = Some i \<and> equals w1 item toItem then itemCount (items w1 i) + k
            else if i = item \<and> m \<noteq> c0 then c0 - m
            else itemCount (items w1 i))"
    and "stackSize (items w' i) =
           (if i = nextItem w1 \<and> k < m then stackSize (items w1 item) else stackSize (items w1 i))"
proof -
  define to where "to = destCylinder d"
  define j where "j = nextItem w1"
  define wA where "wA = removeThing w1 fromCylinder item m"
  note rt = removeThing_effect [OF stackable, of fromCylinder m, folded wA_def c0]
  have thA': "things wA = thA" unfolding thA by (rule rt(1))
  have cntA: "\<And>i. itemCount (items wA i) = (if i = item \<and> m \<noteq> c0 then c0 - m else itemCount (items w1 i))"
    by (rule rt(2))
  have ssA: "\<And>i. stackSize (items wA i) = stackSize (items w1 i)"
    by (rule rt(3))
  have nextA: "nextItem wA = j" unfolding j_def by (rule rt(7))
  have eqA: "\<And>x. equals wA item x = equals w1 item x"
    by (simp add: equals_def rt(5) rt(6) split: option.splits)
  have kA: "mergedUnits wA item toItem m = k"
    using tgt by (auto simp: mergedUnits_def k eqA cntA ssA split: option.splits)
  obtain wB moveItem updateItem where
    us: "updateStack wA to item toItem m = (wB, moveItem, updateItem)"
    by (cases "updateStack wA to item toItem m") auto
  have tgtA: "itemCount (items wA t) \<le> stackSize (items wA t) \<and> stackSize (items wA t) \<le> 255
              \<and> t \<noteq> nextItem wA" if "toItem = Some t" for t
    using tgt [OF that] by (simp add: cntA ssA nextA j_def)
  note ue = updateStack_effect [OF m255 tgtA us kA [symmetric], unfolded nextA eqA]
  have mvB: "moveItem = (if k < m then Some j else None)" using ue by simp
  have thB: "things wB = things wA" using ue by simp
  have cntB: "\<And>i. itemCount (items wB i) =
                 (if i = j \<and> k < m then m - k
                  else if toItem = Some i \<and> equals w1 item toItem then itemCount (items wA i) + k
                  else itemCount (items wA i))"
    using ue by simp
  have ssB: "\<And>i. stackSize (items wB i) =
                 (if i = j \<and> k < m then stackSize (items wA item) else stackSize (items wA i))"
    using ue by simp
  define wC where "wC = (case moveItem of Some mi \<Rightarrow> addThing wB to (destIndex d) mi | None \<Rightarrow> wB)"
  have st: "stock w' = stock wC"
    unfolding wC_def to_def
    by (rule commitMove_stock [OF stackable cm us [unfolded wA_def to_def]])
  have thC: "things wC = (if k < m then thA(to := insertAt (destIndex d) j (thA to)) else thA)"
    by (simp add: wC_def mvB addThing_effect thB thA')
  have cntC: "\<And>i. itemCount (items wC i) = itemCount (items wB i)"
    by (simp add: wC_def mvB addThing_effect)
  have ssC: "\<And>i. stackSize (items wC i) = stackSize (items wB i)"
    by (simp add: wC_def mvB addThing_effect)
  show "things w' = (if k < m
                      then thA(destCylinder d := insertAt (destIndex d) (nextItem w1) (thA (destCylinder d)))
                      else thA)"
    using thC by (simp add: stock_things [OF st] to_def j_def)
  show "itemCount (items w' i) =
           (if i = nextItem w1 \<and> k < m then m - k
            else if toItem = Some i \<and> equals w1 item toItem then itemCount (items w1 i) + k
            else if i = item \<and> m \<noteq> c0 then c0 - m
            else itemCount (items w1 i))"
    using tgt by (auto simp: stock_itemCount [OF st] cntC cntB cntA j_def [symmetric])
  show "stackSize (items w' i) =
           (if i = nextItem w1 \<and> k < m then stackSize (items w1 item) else stackSize (items w1 i))"
    by (simp add: stock_stackSize [OF st] ssC ssB ssA j_def [symmetric])
qed


text \<open>
  Conservation for the commit itself, whatever outcome it reports: the source's count of
  the item goes down by \<open>m\<close>, the destination item gains the merged \<open>k\<close>, the clone holds
  \<open>m - k\<close>, a destination other than the source gains \<open>m\<close> in total, and the held stacks
  stay within their limits.
\<close>

lemma commitMove_conservation:
  assumes cm: "commitMove w1 fromCylinder d toItem item n m r q ret hk = (res, w', out)"
    and other: "toItem \<noteq> Some item"
    and stackable: "isStackable (items w1 item)"
    and held: "item \<in> set (things w1 fromCylinder)"
    and target: "\<forall>t. toItem = Some t \<longrightarrow> t \<in> set (things w1 (destCylinder d))"
    and fresh: "\<forall>c. nextItem w1 \<notin> set (things w1 c)"
    and ok: "stacksOk w1"
    and mle: "m \<le> itemCount (items w1 item)"
    and k: "k = mergedUnits w1 item toItem m"
  shows "heldCount w' fromCylinder item + m = heldCount w1 fromCylinder item
       \<and> (\<forall>t. toItem = Some t \<and> equals w1 item toItem \<longrightarrow>
              heldCount w' (destCylinder d) t = heldCount w1 (destCylinder d) t + k)
       \<and> heldCount w1 (destCylinder d) (nextItem w1) = 0
       \<and> heldCount w' (destCylinder d) (nextItem w1) + k = m
       \<and> (fromCylinder \<noteq> destCylinder d \<and> distinct (things w1 (destCylinder d))
             \<and> item \<notin> set (things w1 (destCylinder d))
           \<longrightarrow> totalCount w' (destCylinder d) = totalCount w1 (destCylinder d) + m)
       \<and> stacksOk w'"
proof -
  define c0 where "c0 = itemCount (items w1 item)"
  define to where "to = destCylinder d"
  define j where "j = nextItem w1"
  define thA where "thA = (if m = c0 then (things w1)(fromCylinder := removeAll item (things w1 fromCylinder))
                           else things w1)"
  have okI: "\<And>c i. i \<in> set (things w1 c) \<Longrightarrow> countOk w1 i"
    using ok by (simp add: stacksOk_def)
  have okitem: "1 \<le> c0" "c0 \<le> stackSize (items w1 item)" "stackSize (items w1 item) \<le> 255"
    using okI [OF held] by (simp_all add: countOk_def c0_def)
  have mle: "m \<le> c0" using mle by (simp add: c0_def)
  have m255: "m \<le> 255" using mle okitem by simp
  have jitem: "j \<noteq> item" using held fresh by (auto simp: j_def)
  have tfacts: "t \<noteq> item \<and> t \<noteq> j \<and> t \<in> set (things w1 to) \<and> countOk w1 t" if "toItem = Some t" for t
  proof -
    have "t \<noteq> item" using that other by auto
    moreover have "t \<in> set (things w1 to)" using target that by (simp add: to_def)
    moreover have "t \<noteq> j" using fresh \<open>t \<in> set (things w1 to)\<close> by (auto simp: j_def)
    ultimately show ?thesis using okI [of t to] by simp
  qed
  have tgt: "t \<noteq> item \<and> t \<noteq> nextItem w1 \<and> itemCount (items w1 t) \<le> stackSize (items w1 t)
             \<and> stackSize (items w1 t) \<le> 255" if "toItem = Some t" for t
    using tfacts [OF that] by (simp add: countOk_def j_def)
  note ce = commitMove_effect [OF cm stackable m255 tgt k c0_def thA_def, folded to_def j_def]
  have th': "things w' = (if k < m then thA(to := insertAt (destIndex d) j (thA to)) else thA)"
    by (rule ce(1))
  have cnt': "\<And>i. itemCount (items w' i) =
           (if i = j \<and> k < m then m - k
            else if toItem = Some i \<and> equals w1 item toItem then itemCount (items w1 i) + k
            else if i = item \<and> m \<noteq> c0 then c0 - m
            else itemCount (items w1 i))"
    by (rule ce(2))
  have ss': "\<And>i. stackSize (items w' i) =
           (if i = j \<and> k < m then stackSize (items w1 item) else stackSize (items w1 i))"
    by (rule ce(3))
  have km: "k \<le> m" unfolding k by (rule mergedUnits_le)
  have kroom: "itemCount (items w1 t) + k \<le> stackSize (items w1 t)"
    if "toItem = Some t" "equals w1 item toItem" for t
    using that tfacts [OF that(1)] by (auto simp: k mergedUnits_def countOk_def min_def)
  have src: "heldCount w' fromCylinder item + m = heldCount w1 fromCylinder item"
    using held mle jitem
    by (auto simp: heldCount_def th' thA_def cnt' c0_def [symmetric] set_insertAt dest: tfacts)
  have dst: "heldCount w' to t = heldCount w1 to t + k" if "toItem = Some t" "equals w1 item toItem" for t
    using that tfacts [OF that(1)]
    by (auto simp: heldCount_def th' thA_def cnt' set_insertAt)
  have j0: "heldCount w1 to j = 0" using fresh by (simp add: heldCount_def j_def)
  have jC: "heldCount w' to j + k = m"
    using km fresh jitem
    by (auto simp: heldCount_def th' thA_def cnt' set_insertAt j_def [symmetric])
  have tot: "totalCount w' to = totalCount w1 to + m"
    if apart: "fromCylinder \<noteq> to" and dis: "distinct (things w1 to)"
      and noitem: "item \<notin> set (things w1 to)"
  proof -
    define f where "f = (\<lambda>i. itemCount (items w1 i))"
    define g where "g = (\<lambda>i. itemCount (items w' i))"
    have thAto: "thA to = things w1 to" using apart by (simp add: thA_def)
    have old: "sum_list (map g (things w1 to)) = sum_list (map f (things w1 to)) + k"
    proof (cases "\<exists>t. toItem = Some t \<and> equals w1 item toItem")
      case True
      then obtain t where t: "toItem = Some t" "equals w1 item toItem" by blast
      note tf = tfacts [OF t(1)]
      have "g t = f t + k" using t tf by (simp add: g_def f_def cnt')
      moreover have "g i = f i" if "i \<noteq> t" "i \<in> set (things w1 to)" for i
        using that t noitem fresh by (auto simp: g_def f_def cnt' j_def)
      ultimately show ?thesis using dis tf
        by (intro sum_list_in_list) auto
    next
      case False
      then have k0: "k = 0" by (auto simp: k mergedUnits_def split: option.splits)
      have "g i = f i" if "i \<in> set (things w1 to)" for i
        using that False noitem fresh by (auto simp: g_def f_def cnt' j_def)
      then have "sum_list (map g (things w1 to)) = sum_list (map f (things w1 to))"
        by (rule sum_list_same)
      then show ?thesis using k0 by simp
    qed
    have gj: "k < m \<Longrightarrow> g j = m - k" by (simp add: g_def cnt')
    show ?thesis
      using old gj km
      by (auto simp: totalCount_def th' thAto sum_list_insertAt f_def [symmetric] g_def [symmetric])
  qed
  have okC: "stacksOk w'"
    unfolding stacksOk_def
  proof (intro allI ballI)
    fix c i
    assume i: "i \<in> set (things w' c)"
    show "countOk w' i"
    proof (cases "i = j")
      case True
      then have "k < m" using i fresh
        by (auto simp: th' thA_def j_def set_insertAt split: if_splits)
      then show ?thesis using True mle okitem km
        by (auto simp: countOk_def cnt' ss')
    next
      case False
      then have in1: "i \<in> set (things w1 c)" using i
        by (auto simp: th' thA_def set_insertAt split: if_splits)
      then have ok1: "countOk w1 i" by (rule okI)
      show ?thesis
      proof (cases "i = item")
        case True
        then have "toItem \<noteq> Some i" using tfacts by auto
        then show ?thesis using True ok1 mle False
          by (auto simp: countOk_def cnt' ss' c0_def [symmetric])
      next
        case notitem: False
        then show ?thesis using ok1 False kroom
          by (auto simp: countOk_def cnt' ss')
      qed
    qed
  qed
  show ?thesis
    using src dst j0 jC okC tot
    by (auto simp: to_def [symmetric] j_def [symmetric])
qed


text \<open>
  C1 (as amended).  A call of \<open>internalMoveItem\<close> for a stackable item succeeds, other than
  as the no-op of moving an item onto itself.  \<open>w1\<close> is the world in which the transfer
  starts: the world after the add check, which is the given world unless the destination
  asked for an exchange, and then the one in which the colliding item has gone back to the
  source.  In it the source holds the item, the destination holds the item named as
  destination item, the id the next clone gets is not in use, and every held stack is within
  its limit.  The quantity moved is \<open>m\<close>, the request capped by \<open>queryMaxCount\<close>, and it is
  at most what the item holds; \<open>k\<close> of it is merged.  Then the source's count of the item
  has gone down by exactly \<open>m\<close>; the destination item has gained \<open>k\<close>, the existing stack
  being filled first, and the rest, \<open>m - k\<close>, is what the clone holds in the destination, so
  that a destination other than the source holds \<open>m\<close> more in total; and every held stack
  is still within its limit.
\<close>

theorem internalMoveItem_stack_conservation:
  assumes res: "internalMoveItem ops maxLayers w fromCylinder toCylinder index item n flags actor tradeItem
                  fromPos toPos = Some (RETURNVALUE_NOERROR, w', out)"
    and d: "d = fst (resolveDestination ops maxLayers w item
                  \<lparr>destCylinder = toCylinder, destIndex = index, destItem = None, destFlags = flags\<rparr> 0)"
    and notself: "destItem d \<noteq> Some item"
    and chk: "checkAdd ops w fromCylinder d item n actor fromPos toPos = Some (Inr (w1, toItem))"
    and q: "queryMaxCount ops w1 (destCylinder d) (destIndex d) item n (destFlags d) = (r, q)"
    and stackable: "isStackable (items w1 item)"
    and held: "item \<in> set (things w1 fromCylinder)"
    and target: "\<forall>t. toItem = Some t \<longrightarrow> t \<in> set (things w1 (destCylinder d))"
    and fresh: "\<forall>c. nextItem w1 \<notin> set (things w1 c)"
    and ok: "stacksOk w1"
    and m: "m = min n q"
    and mle: "m \<le> itemCount (items w1 item)"
    and k: "k = mergedUnits w1 item toItem m"
  shows "heldCount w' fromCylinder item + m = heldCount w1 fromCylinder item
       \<and> (\<forall>t. toItem = Some t \<and> equals w1 item toItem \<longrightarrow>
              heldCount w' (destCylinder d) t = heldCount w1 (destCylinder d) t + k)
       \<and> heldCount w1 (destCylinder d) (nextItem w1) = 0
       \<and> heldCount w' (destCylinder d) (nextItem w1) + k = m
       \<and> (fromCylinder \<noteq> destCylinder d \<and> distinct (things w1 (destCylinder d))
             \<and> item \<notin> set (things w1 (destCylinder d))
           \<longrightarrow> totalCount w' (destCylinder d) = totalCount w1 (destCylinder d) + m)
       \<and> stacksOk w'
       \<and> (queryAdd ops w (destCylinder d) (destIndex d) item n (destFlags d) actor
             \<noteq> RETURNVALUE_NEEDEXCHANGE \<longrightarrow> w1 = w)"
proof -
  have mc: "moveCount w1 item n q = m" using stackable by (simp add: moveCount_def m)
  have cm: "commitMove w1 fromCylinder d toItem item n m r q RETURNVALUE_NOERROR
              (hooked actor fromPos toPos) = (RETURNVALUE_NOERROR, w', out)"
    using internalMoveItem_commit [OF res d notself chk q] mc by simp
  have "toItem = destItem d \<or> toItem = None" using chk by (rule checkAdd_toItem)
  then have other: "toItem \<noteq> Some item" using notself by auto
  have same: "queryAdd ops w (destCylinder d) (destIndex d) item n (destFlags d) actor
                \<noteq> RETURNVALUE_NEEDEXCHANGE \<longrightarrow> w1 = w"
  proof
    assume "queryAdd ops w (destCylinder d) (destIndex d) item n (destFlags d) actor
              \<noteq> RETURNVALUE_NEEDEXCHANGE"
    then show "w1 = w"
      using chk checkAdd_no_exchange [of ops w d item n actor fromCylinder fromPos toPos]
      by (simp split: if_splits)
  qed
  show ?thesis
    using commitMove_conservation [OF cm other stackable held target fresh ok mle k] same
    by (elim conjE, intro conjI) assumption+
qed

text \<open>
  Fifty of the stack of 80 go to the bag, onto the stack of 60: that stack becomes 100, 30
  stay behind, and the remaining 10 arrive as a clone, item 100.
\<close>

lemma twoStacks_resolved:
  "resolveDestination stackOps 16 twoStacks 10
     \<lparr>destCylinder = 3, destIndex = 0, destItem = None, destFlags = {}\<rparr> 0
   = (\<lparr>destCylinder = 3, destIndex = 0, destItem = Some 20, destFlags = {}\<rparr>, 0)"
  by (simp add: resolveDestination.simps stackOps_def openOps_def twoStacks_def emptyWorld_def)

lemma twoStacks_checkAdd:
  "checkAdd stackOps twoStacks 2 \<lparr>destCylinder = 3, destIndex = 0, destItem = Some 20, destFlags = {}\<rparr>
     10 50 None None None = Some (Inr (twoStacks, Some 20))"
  by (simp add: checkAdd_def stackOps_def openOps_def)

lemma twoStacks_ok: "stacksOk twoStacks"
  by (simp add: stacksOk_def countOk_def twoStacks_def emptyWorld_def stackOf_def plainItem_def)

lemma twoStacks_moves:
  "\<exists>w' out. internalMoveItem stackOps 16 twoStacks 2 3 0 10 50 {} None None None None
               = Some (RETURNVALUE_NOERROR, w', out)"
proof -
  have "internalMoveItem stackOps 16 twoStacks 2 3 0 10 50 {} None None None None =
          moveChecked stackOps twoStacks 2
            \<lparr>destCylinder = 3, destIndex = 0, destItem = Some 20, destFlags = {}\<rparr>
            (Some 20) 10 50 None None False"
    unfolding internalMoveItem_def Let_def twoStacks_resolved
    by (simp add: twoStacks_checkAdd preMoveHook_def actorPlayer_def hooked_def)
  moreover have "fst (the (moveChecked stackOps twoStacks 2
            \<lparr>destCylinder = 3, destIndex = 0, destItem = Some 20, destFlags = {}\<rparr>
            (Some 20) 10 50 None None False)) = RETURNVALUE_NOERROR
     \<and> moveChecked stackOps twoStacks 2
            \<lparr>destCylinder = 3, destIndex = 0, destItem = Some 20, destFlags = {}\<rparr>
            (Some 20) 10 50 None None False \<noteq> None"
    by (simp add: moveChecked_def tradeItemInDestination_def commitMove_def reportMove_def Let_def
          stackOps_def openOps_def moveCount_def split_beta)
  ultimately show ?thesis by (metis option.exhaust_sel prod.collapse)
qed


theorem internalMoveItem_stack_conservation_witness:
  "\<exists>w' out. internalMoveItem stackOps 16 twoStacks 2 3 0 10 50 {} None None None None
                 = Some (RETURNVALUE_NOERROR, w', out)
      \<and> heldCount w' 2 10 = 30 \<and> heldCount w' 3 20 = 100 \<and> heldCount w' 3 100 = 10
      \<and> totalCount w' 3 = 110 \<and> stacksOk w'"
proof -
  obtain w' out where res:
    "internalMoveItem stackOps 16 twoStacks 2 3 0 10 50 {} None None None None
       = Some (RETURNVALUE_NOERROR, w', out)"
    using twoStacks_moves by blast
  have d: "\<lparr>destCylinder = 3, destIndex = 0, destItem = Some 20, destFlags = {}\<rparr> =
             fst (resolveDestination stackOps 16 twoStacks 10
                    \<lparr>destCylinder = 3, destIndex = 0, destItem = None, destFlags = {}\<rparr> 0)"
    by (simp add: twoStacks_resolved)
  have q: "queryMaxCount stackOps twoStacks
             (destCylinder \<lparr>destCylinder = 3, destIndex = 0, destItem = Some 20, destFlags = {}\<rparr>)
             (destIndex \<lparr>destCylinder = 3, destIndex = 0, destItem = Some 20, destFlags = {}\<rparr>)
             10 50
             (destFlags \<lparr>destCylinder = 3, destIndex = 0, destItem = Some 20, destFlags = {}\<rparr>)
           = (RETURNVALUE_NOERROR, 50)"
    by (simp add: stackOps_def openOps_def)
  have facts:
    "isStackable (items twoStacks 10)" "10 \<in> set (things twoStacks 2)"
    "\<forall>t. Some 20 = Some t \<longrightarrow> t \<in> set (things twoStacks
            (destCylinder \<lparr>destCylinder = 3, destIndex = 0, destItem = Some 20, destFlags = {}\<rparr>))"
    "\<forall>c. nextItem twoStacks \<notin> set (things twoStacks c)"
    "50 \<le> itemCount (items twoStacks 10)"
    "(40::nat) = mergedUnits twoStacks 10 (Some 20) 50"
    by (simp_all add: twoStacks_def emptyWorld_def stackOf_def plainItem_def mergedUnits_def equals_def)
  have before: "heldCount twoStacks 2 10 = 80" "heldCount twoStacks 3 20 = 60" "totalCount twoStacks 3 = 60"
    "equals twoStacks 10 (Some 20)" "distinct (things twoStacks 3)" "10 \<notin> set (things twoStacks 3)"
    "nextItem twoStacks = 100"
    by (simp_all add: heldCount_def totalCount_def twoStacks_def emptyWorld_def stackOf_def plainItem_def
          equals_def)
  have "(50::nat) = min 50 50" by simp
  note cons = internalMoveItem_stack_conservation
               [OF res d _ twoStacks_checkAdd q facts(1-4) twoStacks_ok this facts(5) facts(6)]
  have "heldCount w' 2 10 + 50 = 80 \<and> heldCount w' 3 20 = 60 + 40 \<and> heldCount w' 3 100 + 40 = 50
        \<and> totalCount w' 3 = 60 + 50 \<and> stacksOk w'"
    using cons before by simp
  then show ?thesis using res by auto
qed

text \<open>
  C1 as stated fails twice, both times into the empty holder 4.  Ninety are requested of the
  stack of 80: the call succeeds, a clone of 90 arrives, and the source keeps the stack with
  a count of zero, so ten units have been made and a held stack is below 1.  And fifty are
  requested where \<open>queryMaxCount\<close> grants 40 without reporting a failure: the call
  succeeds and the source's count goes down by 40, not by the requested 50.
\<close>

lemma twoStacks_resolved_empty:
  "fst (resolveDestination ops 16 twoStacks 10
     \<lparr>destCylinder = 4, destIndex = 0, destItem = None, destFlags = {}\<rparr> 0)
   = \<lparr>destCylinder = 4, destIndex = 0, destItem = None, destFlags = {}\<rparr>"
  if "queryDestination ops = queryDestination stackOps"
  using that
  by (simp add: resolveDestination.simps stackOps_def openOps_def twoStacks_def emptyWorld_def)

lemma twoStacks_to_empty:
  assumes qd: "queryDestination ops = queryDestination stackOps"
    and qa: "queryAdd ops = queryAdd openOps"
    and qr: "queryRemove ops = queryRemove openOps"
    and q: "queryMaxCount ops twoStacks 4 0 10 n {} = (RETURNVALUE_NOERROR, q)"
    and m: "m = min n q"
  shows "\<exists>w' out. internalMoveItem ops 16 twoStacks 2 4 0 10 n {} None None None None
                     = Some (RETURNVALUE_NOERROR, w', out)
                 \<and> commitMove twoStacks 2 \<lparr>destCylinder = 4, destIndex = 0, destItem = None, destFlags = {}\<rparr>
                       None 10 n m RETURNVALUE_NOERROR q RETURNVALUE_NOERROR False
                     = (RETURNVALUE_NOERROR, w', out)"
proof -
  define d where "d = \<lparr>destCylinder = 4, destIndex = 0, destItem = None, destFlags = {}\<rparr>"
  have hook: "preMoveHook ops twoStacks None None None 10 n 2 4 = RETURNVALUE_NOERROR"
    by (simp add: preMoveHook_def actorPlayer_def)
  have dres: "d = fst (resolveDestination ops 16 twoStacks 10
                  \<lparr>destCylinder = 4, destIndex = 0, destItem = None, destFlags = {}\<rparr> 0)"
    by (simp add: d_def twoStacks_resolved_empty [OF qd])
  have notself: "destItem d \<noteq> Some 10" by (simp add: d_def)
  have chk: "checkAdd ops twoStacks 2 d 10 n None None None = Some (Inr (twoStacks, None))"
    by (simp add: checkAdd_def d_def qa openOps_def)
  have q': "queryMaxCount ops twoStacks (destCylinder d) (destIndex d) 10 n (destFlags d)
              = (RETURNVALUE_NOERROR, q)"
    using q by (simp add: d_def)
  have mc: "moveCount twoStacks 10 n q = m"
    by (simp add: moveCount_def m twoStacks_def emptyWorld_def stackOf_def plainItem_def)
  have rem: "queryRemove ops twoStacks 2 10 (moveCount twoStacks 10 n q) (destFlags d) None
               = RETURNVALUE_NOERROR"
    by (simp add: qr openOps_def)
  have trade: "tradeItemInDestination twoStacks None (destCylinder d) = Some False"
    by (simp add: tradeItemInDestination_def)
  have call: "internalMoveItem ops 16 twoStacks 2 4 0 10 n {} None None None None =
          Some (commitMove twoStacks 2 d None 10 n m RETURNVALUE_NOERROR q RETURNVALUE_NOERROR False)"
    using internalMoveItem_reaches_commit [OF hook dres notself chk q' _ rem trade]
    by (simp add: mc hooked_def actorPlayer_def)
  have "fst (commitMove twoStacks 2 d None 10 n m RETURNVALUE_NOERROR q RETURNVALUE_NOERROR False)
          = RETURNVALUE_NOERROR"
  proof (cases "q < n")
    case True
    have "isStackable (items twoStacks 10)"
      by (simp add: twoStacks_def emptyWorld_def stackOf_def plainItem_def)
    then show ?thesis using True by (rule commitMove_shortfall)
  next
    case False
    then show ?thesis by (intro commitMove_outcome) simp
  qed
  then obtain w' out where
    "commitMove twoStacks 2 d None 10 n m RETURNVALUE_NOERROR q RETURNVALUE_NOERROR False
       = (RETURNVALUE_NOERROR, w', out)"
    by (cases "commitMove twoStacks 2 d None 10 n m RETURNVALUE_NOERROR q RETURNVALUE_NOERROR False") auto
  then show ?thesis using call by (simp add: d_def)
qed

theorem internalMoveItem_stack_conservation_counterexample:
  "heldCount twoStacks 2 10 = 80 \<and> totalCount twoStacks 4 = 0 \<and> stacksOk twoStacks
   \<and> (\<exists>w' out. internalMoveItem stackOps 16 twoStacks 2 4 0 10 90 {} None None None None
                    = Some (RETURNVALUE_NOERROR, w', out)
         \<and> things w' 2 = [10] \<and> heldCount w' 2 10 = 0 \<and> totalCount w' 4 = 90 \<and> \<not> stacksOk w')
   \<and> (\<exists>w' out. internalMoveItem cappedOps 16 twoStacks 2 4 0 10 50 {} None None None None
                    = Some (RETURNVALUE_NOERROR, w', out)
         \<and> heldCount w' 2 10 = 40 \<and> totalCount w' 4 = 40)"
proof -
  define d where "d = \<lparr>destCylinder = 4, destIndex = 0, destItem = None, destFlags = {}\<rparr>"
  have before: "heldCount twoStacks 2 10 = 80" "totalCount twoStacks 4 = 0"
    by (simp_all add: heldCount_def totalCount_def twoStacks_def emptyWorld_def stackOf_def plainItem_def)
  have facts: "isStackable (items twoStacks 10)" "10 \<in> set (things twoStacks 2)"
    "\<forall>t. None = Some t \<longrightarrow> t \<in> set (things twoStacks (destCylinder d))"
    "\<forall>c. nextItem twoStacks \<notin> set (things twoStacks c)"
    "itemCount (items twoStacks 10) = 80" "nextItem twoStacks = 100"
    "things twoStacks 2 = [10]" "things twoStacks 4 = []"
    "mergedUnits twoStacks 10 None 90 = 0" "mergedUnits twoStacks 10 None 40 = 0"
    "distinct (things twoStacks (destCylinder d))" "10 \<notin> set (things twoStacks (destCylinder d))"
    by (simp_all add: d_def twoStacks_def emptyWorld_def stackOf_def plainItem_def mergedUnits_def)
  have over: "\<exists>w' out. internalMoveItem stackOps 16 twoStacks 2 4 0 10 90 {} None None None None
                    = Some (RETURNVALUE_NOERROR, w', out)
         \<and> things w' 2 = [10] \<and> heldCount w' 2 10 = 0 \<and> totalCount w' 4 = 90 \<and> \<not> stacksOk w'"
  proof -
    obtain w' out where call:
      "internalMoveItem stackOps 16 twoStacks 2 4 0 10 90 {} None None None None
         = Some (RETURNVALUE_NOERROR, w', out)"
      and cm: "commitMove twoStacks 2 d None 10 90 90 RETURNVALUE_NOERROR 90 RETURNVALUE_NOERROR False
                 = (RETURNVALUE_NOERROR, w', out)"
      using twoStacks_to_empty [of stackOps 90 90 90] unfolding d_def
      by (auto simp: stackOps_def openOps_def)
    have tgt: "\<And>t. None = Some t \<Longrightarrow>
                t \<noteq> 10 \<and> t \<noteq> nextItem twoStacks \<and> itemCount (items twoStacks t) \<le> stackSize (items twoStacks t)
                \<and> stackSize (items twoStacks t) \<le> 255"
      by simp
    note ce = commitMove_effect [OF cm facts(1) _ tgt refl refl refl]
    have th: "things w' = (things twoStacks)(4 := [100])"
      using ce(1) by (simp add: facts d_def insertAt_def)
    have cnt: "itemCount (items w' 10) = 0" "itemCount (items w' 100) = 90"
      using ce(2) [of 10] ce(2) [of 100] by (simp_all add: facts)
    have t2: "things w' 2 = [10]" and t4: "things w' 4 = [100]"
      by (simp_all add: th facts)
    have "\<not> countOk w' 10" by (simp add: countOk_def cnt)
    moreover have "10 \<in> set (things w' 2)" by (simp add: t2)
    ultimately have "\<not> stacksOk w'" unfolding stacksOk_def by blast
    then show ?thesis using call t2 t4 cnt by (auto simp: heldCount_def totalCount_def)
  qed
  have capped: "\<exists>w' out. internalMoveItem cappedOps 16 twoStacks 2 4 0 10 50 {} None None None None
                    = Some (RETURNVALUE_NOERROR, w', out)
         \<and> heldCount w' 2 10 = 40 \<and> totalCount w' 4 = 40"
  proof -
    obtain w' out where call:
      "internalMoveItem cappedOps 16 twoStacks 2 4 0 10 50 {} None None None None
         = Some (RETURNVALUE_NOERROR, w', out)"
      and cm: "commitMove twoStacks 2 d None 10 50 40 RETURNVALUE_NOERROR 40 RETURNVALUE_NOERROR False
                 = (RETURNVALUE_NOERROR, w', out)"
      using twoStacks_to_empty [of cappedOps 50 40 40] unfolding d_def
      by (auto simp: cappedOps_def stackOps_def openOps_def)
    have mle: "40 \<le> itemCount (items twoStacks 10)" by (simp add: facts)
    note cons = commitMove_conservation [OF cm _ facts(1-4) twoStacks_ok mle refl]
    have "heldCount w' 2 10 + 40 = 80" "totalCount w' (destCylinder d) = 0 + 40"
      using cons facts(11,12) before by (simp_all add: d_def)
    then show ?thesis using call by (auto simp: d_def)
  qed
  show ?thesis using before twoStacks_ok over capped by simp
qed

subsection \<open>The quantity that moves\<close>









subsection \<open>The exchange\<close>

text \<open>
  The destination asks for an exchange and names the colliding item.  When the source will
  not take that item, or has no room at all for it, the add check ends the call with that
  outcome and the world as it was.
\<close>

lemma checkAdd_source_refuses:
  assumes "queryAdd ops w (destCylinder d) (destIndex d) item n (destFlags d) actor = RETURNVALUE_NEEDEXCHANGE"
    and "destItem d = Some t"
    and "queryAdd ops w fromCylinder (getThingIndex w fromCylinder item) t (itemCount (items w t)) {} None = r"
    and "r \<noteq> RETURNVALUE_NOERROR"
  shows "checkAdd ops w fromCylinder d item n actor fromPos toPos = Some (Inl (r, w))"
  using assms by (simp add: checkAdd_def Let_def)

lemma checkAdd_source_full:
  assumes "queryAdd ops w (destCylinder d) (destIndex d) item n (destFlags d) actor = RETURNVALUE_NEEDEXCHANGE"
    and "destItem d = Some t"
    and "queryAdd ops w fromCylinder (getThingIndex w fromCylinder item) t (itemCount (items w t)) {} None
           = RETURNVALUE_NOERROR"
    and "preMoveHook ops w actor toPos fromPos t (itemCount (items w t)) (destCylinder d) fromCylinder
           = RETURNVALUE_NOERROR"
    and "queryMaxCount ops w fromCylinder INDEX_WHEREEVER t (itemCount (items w t)) {} = (r, 0)"
    and "r \<noteq> RETURNVALUE_NOERROR"
  shows "checkAdd ops w fromCylinder d item n actor fromPos toPos = Some (Inl (r, w))"
  using assms by (simp add: checkAdd_def Let_def)

text \<open>
  When the destination will not let go of the colliding item, the add check does not end
  the call: \<^verbatim>\<open>ret\<close> still holds the source's \<^verbatim>\<open>RETURNVALUE_NOERROR\<close>, and the move
  carries on with the colliding item still in place.
\<close>

lemma checkAdd_locked:
  assumes "queryAdd ops w (destCylinder d) (destIndex d) item n (destFlags d) actor = RETURNVALUE_NEEDEXCHANGE"
    and "destItem d = Some t"
    and "queryAdd ops w fromCylinder (getThingIndex w fromCylinder item) t (itemCount (items w t)) {} None
           = RETURNVALUE_NOERROR"
    and "preMoveHook ops w actor toPos fromPos t (itemCount (items w t)) (destCylinder d) fromCylinder
           = RETURNVALUE_NOERROR"
    and "queryMaxCount ops w fromCylinder INDEX_WHEREEVER t (itemCount (items w t)) {} = (r, q)"
    and "r = RETURNVALUE_NOERROR \<or> q \<noteq> 0"
    and "queryRemove ops w (destCylinder d) t (itemCount (items w t)) (destFlags d) actor \<noteq> RETURNVALUE_NOERROR"
  shows "checkAdd ops w fromCylinder d item n actor fromPos toPos = Some (Inr (w, Some t))"
  using assms by (auto simp: checkAdd_def Let_def)

text \<open>An add check that ends the call is the result of \<open>internalMoveItem\<close>.\<close>

lemma internalMoveItem_checkAdd_abort:
  assumes "preMoveHook ops w actor fromPos toPos item n fromCylinder toCylinder = RETURNVALUE_NOERROR"
    and "d = fst (resolveDestination ops maxLayers w item
                  \<lparr>destCylinder = toCylinder, destIndex = index, destItem = None, destFlags = flags\<rparr> 0)"
    and "destItem d \<noteq> Some item"
    and "checkAdd ops w fromCylinder d item n actor fromPos toPos = Some (Inl (r, w1))"
  shows "internalMoveItem ops maxLayers w fromCylinder toCylinder index item n flags actor tradeItem
           fromPos toPos = Some (r, w1, None)"
  using assms by (simp add: internalMoveItem_def Let_def)

lemma slotWorld_resolved:
  "fst (resolveDestination lockedOps 16 slotWorld 10
     \<lparr>destCylinder = 3, destIndex = 0, destItem = None, destFlags = {}\<rparr> 0)
   = \<lparr>destCylinder = 3, destIndex = 0, destItem = Some 20, destFlags = {}\<rparr>"
  by (simp add: resolveDestination.simps lockedOps_def swapOps_def stackOps_def openOps_def slotWorld_def
        emptyWorld_def)

lemma slotWorld_checkAdd:
  "checkAdd lockedOps slotWorld 2 \<lparr>destCylinder = 3, destIndex = 0, destItem = Some 20, destFlags = {}\<rparr>
     10 1 None None None = Some (Inr (slotWorld, Some 20))"
  by (simp add: checkAdd_def lockedOps_def swapOps_def stackOps_def openOps_def slotWorld_def emptyWorld_def
        preMoveHook_def actorPlayer_def)

lemma slotWorld_locked_result:
  "internalMoveItem lockedOps 16 slotWorld 2 3 0 10 1 {} None None None None =
     Some (commitMove slotWorld 2 \<lparr>destCylinder = 3, destIndex = 0, destItem = Some 20, destFlags = {}\<rparr>
             (Some 20) 10 1 1 RETURNVALUE_NOERROR 1 RETURNVALUE_NOERROR False)"
  unfolding internalMoveItem_def Let_def slotWorld_resolved slotWorld_checkAdd
  by (simp add: preMoveHook_def actorPlayer_def hooked_def moveChecked_def
        tradeItemInDestination_def moveCount_def lockedOps_def swapOps_def stackOps_def openOps_def
        slotWorld_def emptyWorld_def plainItem_def)

text \<open>
  C2 asks that a failed reciprocal move, whichever of its checks fails, aborts the whole
  operation with no mutation.  Here the occupied slot asks for an exchange, the source would
  take the colliding item 20, but the slot does not let go of it.  The call returns success
  all the same: item 10 has left holder 2 and lies in the slot in front of item 20, and
  both holders have been notified.
\<close>

theorem internalMoveItem_exchange_skipped:
  "queryAdd lockedOps slotWorld 3 0 10 1 {} None = RETURNVALUE_NEEDEXCHANGE
   \<and> queryRemove lockedOps slotWorld 3 20 1 {} None = RETURNVALUE_NOTPOSSIBLE
   \<and> things slotWorld 2 = [10] \<and> things slotWorld 3 = [20]
   \<and> (case internalMoveItem lockedOps 16 slotWorld 2 3 0 10 1 {} None None None None of
         None \<Rightarrow> False
       | Some (ret, w', out) \<Rightarrow>
           ret = RETURNVALUE_NOERROR \<and> things w' 2 = [] \<and> things w' 3 = [10, 20]
           \<and> notifications w' = [PostRemoveNotification 2 10 (Some 3) 0,
                                  PostAddNotification 3 10 (Some 2) 0])"
  unfolding slotWorld_locked_result
  by (simp add: commitMove_def reportMove_def postMoveNotifications_def Let_def removeThing_def
        addThing_def insertAt_def notify_def getThingIndex_def
        lockedOps_def swapOps_def stackOps_def openOps_def slotWorld_def emptyWorld_def plainItem_def)

subsection \<open>The trade item in the destination\<close>

text \<open>
  The walk up the parent chain finds the trade item when a holder \<open>k\<close> steps up is that
  item, and the add check leaves the chain as it was.
\<close>

lemma parentHoldsTradeItem_found:
  "nthParent w k c = Some c' \<Longrightarrow> cylItem w c' = Some t
   \<Longrightarrow> parentHoldsTradeItem w t (Some c) = Some True"
proof (induction k arbitrary: c)
  case 0
  then show ?case by (subst parentHoldsTradeItem.simps) simp
next
  case (Suc k)
  show ?case
  proof (cases "cylItem w c = Some t")
    case True
    then show ?thesis by (subst parentHoldsTradeItem.simps) simp
  next
    case False
    obtain p where p: "cylParent w c = Some p" "nthParent w k p = Some c'"
      using Suc.prems(1) by (auto split: option.splits)
    have "parentHoldsTradeItem w t (Some p) = Some True"
      using p(2) Suc.prems(2) by (rule Suc.IH)
    then show ?thesis using False p(1) by (subst parentHoldsTradeItem.simps) simp
  qed
qed

lemma tradeItemInDestination_found:
  assumes "nthParent w k c = Some c'" "cylItem w c' = Some t"
  shows "tradeItemInDestination w (Some t) c = Some True"
proof (cases "cylItem w c = Some t")
  case True
  then show ?thesis by (simp add: tradeItemInDestination_def)
next
  case False
  then obtain k' where k: "k = Suc k'" using assms by (cases k) auto
  obtain p where p: "cylParent w c = Some p" "nthParent w k' p = Some c'"
    using assms(1) unfolding k by (auto split: option.splits)
  have "parentHoldsTradeItem w t (Some p) = Some True"
    using p(2) assms(2) by (rule parentHoldsTradeItem_found)
  then show ?thesis using False p(1) by (simp add: tradeItemInDestination_def)
qed

lemma nthParent_cong:
  "cylParent w1 = cylParent w \<Longrightarrow> nthParent w1 k c = nthParent w k c"
  by (induction k arbitrary: c) (auto split: option.splits)

lemma exchangeItems_chain:
  "cylParent (snd (exchangeItems ops w fromCylinder d toItem item n actor hk)) = cylParent w
   \<and> cylItem (snd (exchangeItems ops w fromCylinder d toItem item n actor hk)) = cylItem w"
  by (simp add: exchangeItems_def Let_def notify_def addThingFront_def addThing_def removeThing_def)

lemma checkAdd_chain:
  assumes "checkAdd ops w fromCylinder d item n actor fromPos toPos = Some (Inr (w1, toItem))"
  shows "cylParent w1 = cylParent w \<and> cylItem w1 = cylItem w"
proof -
  have "w1 = w \<or> (\<exists>t r. exchangeItems ops w fromCylinder d t item n actor (hooked actor fromPos toPos) = (r, w1))"
    using assms
    by (auto simp: checkAdd_def Let_def split: option.splits if_splits prod.splits)
  then show ?thesis
  proof
    assume "w1 = w"
    then show ?thesis by simp
  next
    assume "\<exists>t r. exchangeItems ops w fromCylinder d t item n actor (hooked actor fromPos toPos) = (r, w1)"
    then obtain t r where e: "exchangeItems ops w fromCylinder d t item n actor (hooked actor fromPos toPos) = (r, w1)"
      by blast
    show ?thesis
      using exchangeItems_chain [of ops w fromCylinder d t item n actor "hooked actor fromPos toPos"]
      unfolding e by simp
  qed
qed

lemma checkAdd_abort_code:
  "checkAdd ops w fromCylinder d item n actor fromPos toPos = Some (Inl (r, w1)) \<Longrightarrow> r \<noteq> RETURNVALUE_NOERROR"
  by (auto simp: checkAdd_def Let_def split: option.splits if_splits prod.splits)

lemma moveChecked_refused:
  assumes "tradeItemInDestination w1 tradeItem (destCylinder d) = Some True"
  shows "\<exists>ret. moveChecked ops w1 fromCylinder d toItem item n actor tradeItem hk = Some (ret, w1, None)
               \<and> ret \<noteq> RETURNVALUE_NOERROR"
  using assms by (auto simp: moveChecked_def Let_def split: prod.splits)


lemma checkAdd_escrow_found:
  assumes chk: "checkAdd ops w fromCylinder d item n actor fromPos toPos = Some (Inr (w1, toItem))"
    and chain: "nthParent w k (destCylinder d) = Some c" "cylItem w c = Some t"
  shows "tradeItemInDestination w1 (Some t) (destCylinder d) = Some True"
proof -
  have same: "cylParent w1 = cylParent w \<and> cylItem w1 = cylItem w"
    using chk by (rule checkAdd_chain)
  have "nthParent w1 k (destCylinder d) = nthParent w k (destCylinder d)"
    using same by (intro nthParent_cong) simp
  then have "nthParent w1 k (destCylinder d) = Some c"
    using chain(1) by simp
  moreover have "cylItem w1 c = Some t" using chain(2) same by simp
  ultimately show ?thesis by (rule tradeItemInDestination_found)
qed

lemma internalMoveItem_escrow_no_success:
  assumes d: "d = fst (resolveDestination ops maxLayers w item
                        \<lparr>destCylinder = toCylinder, destIndex = index, destItem = None,
                         destFlags = flags\<rparr> 0)"
    and chain: "nthParent w k (destCylinder d) = Some c" "cylItem w c = Some t"
    and ok: "internalMoveItem ops maxLayers w fromCylinder toCylinder index item n flags actor
               (Some t) fromPos toPos = Some (RETURNVALUE_NOERROR, w', out)"
  shows "destItem d = Some item \<and> w' = w \<and> out = None"
proof -
  note call = internalMoveItem_unfold [OF d, of fromCylinder n actor "Some t" fromPos toPos]
  let ?veto = "preMoveHook ops w actor fromPos toPos item n fromCylinder toCylinder"
  let ?chk = "checkAdd ops w fromCylinder d item n actor fromPos toPos"
  show ?thesis
  proof (cases "?veto \<noteq> RETURNVALUE_NOERROR")
    case True
    then show ?thesis using ok unfolding call by simp
  next
    case veto: False
    show ?thesis
    proof (cases "destItem d = Some item")
      case True
      then show ?thesis using ok veto unfolding call by simp
    next
      case False
      show ?thesis
      proof (cases ?chk)
        case None
        then show ?thesis using ok veto False unfolding call by simp
      next
        case (Some res)
        show ?thesis
        proof (cases res)
          case (Inl p)
          obtain r w1 where p: "p = (r, w1)" by (cases p)
          have "r \<noteq> RETURNVALUE_NOERROR"
            using Some Inl p checkAdd_abort_code [of ops w fromCylinder d item n actor fromPos toPos r w1]
            by simp
          then show ?thesis using ok veto False Some Inl p unfolding call by simp
        next
          case (Inr p)
          obtain w1 toItem where p: "p = (w1, toItem)" by (cases p)
          have chk: "?chk = Some (Inr (w1, toItem))" using Some Inr p by simp
          have "tradeItemInDestination w1 (Some t) (destCylinder d) = Some True"
            using chk chain by (rule checkAdd_escrow_found)
          then obtain ret where
            "moveChecked ops w1 fromCylinder d toItem item n actor (Some t) (hooked actor fromPos toPos)
               = Some (ret, w1, None)"
            "ret \<noteq> RETURNVALUE_NOERROR"
            using moveChecked_refused by blast
          then show ?thesis using ok veto False chk unfolding call by simp
        qed
      qed
    qed
  qed
qed

lemma internalMoveItem_escrow_unchanged:
  assumes d: "d = fst (resolveDestination ops maxLayers w item
                        \<lparr>destCylinder = toCylinder, destIndex = index, destItem = None,
                         destFlags = flags\<rparr> 0)"
    and chain: "nthParent w k (destCylinder d) = Some c" "cylItem w c = Some t"
    and q: "queryAdd ops w (destCylinder d) (destIndex d) item n (destFlags d) actor \<noteq> RETURNVALUE_NEEDEXCHANGE"
  shows "\<exists>ret. internalMoveItem ops maxLayers w fromCylinder toCylinder index item n flags actor
                  (Some t) fromPos toPos = Some (ret, w, None)"
proof -
  note call = internalMoveItem_unfold [OF d, of fromCylinder n actor "Some t" fromPos toPos]
  let ?chk = "checkAdd ops w fromCylinder d item n actor fromPos toPos"
  show ?thesis
  proof (cases "queryAdd ops w (destCylinder d) (destIndex d) item n (destFlags d) actor = RETURNVALUE_NOERROR")
    case True
    have chk: "?chk = Some (Inr (w, destItem d))"
      using checkAdd_no_exchange [OF q, of fromCylinder fromPos toPos] True by simp
    have "tradeItemInDestination w (Some t) (destCylinder d) = Some True"
      using chain by (rule tradeItemInDestination_found)
    then obtain ret where
      "moveChecked ops w fromCylinder d (destItem d) item n actor (Some t) (hooked actor fromPos toPos)
         = Some (ret, w, None)"
      using moveChecked_refused by blast
    then show ?thesis unfolding call chk by simp
  next
    case False
    have chk: "?chk = Some (Inl (queryAdd ops w (destCylinder d) (destIndex d) item n (destFlags d) actor, w))"
      using checkAdd_no_exchange [OF q, of fromCylinder fromPos toPos] False by simp
    show ?thesis unfolding call chk by simp
  qed
qed

lemma internalMoveItem_escrow_code:
  assumes d: "d = fst (resolveDestination ops maxLayers w item
                        \<lparr>destCylinder = toCylinder, destIndex = index, destItem = None,
                         destFlags = flags\<rparr> 0)"
    and chain: "nthParent w k (destCylinder d) = Some c" "cylItem w c = Some t"
    and hook: "preMoveHook ops w actor fromPos toPos item n fromCylinder toCylinder = RETURNVALUE_NOERROR"
    and notself: "destItem d \<noteq> Some item"
    and chk: "checkAdd ops w fromCylinder d item n actor fromPos toPos = Some (Inr (w1, toItem))"
    and q: "queryMaxCount ops w1 (destCylinder d) (destIndex d) item n (destFlags d) = (r, q)"
    and avail: "r = RETURNVALUE_NOERROR \<or> 0 < q"
    and rem: "queryRemove ops w1 fromCylinder item (moveCount w1 item n q) (destFlags d) actor
                = RETURNVALUE_NOERROR"
  shows "internalMoveItem ops maxLayers w fromCylinder toCylinder index item n flags actor
           (Some t) fromPos toPos = Some (RETURNVALUE_NOTENOUGHROOM, w1, None)"
proof -
  note call = internalMoveItem_unfold [OF d, of fromCylinder n actor "Some t" fromPos toPos]
  have found: "tradeItemInDestination w1 (Some t) (destCylinder d) = Some True"
    using chk chain by (rule checkAdd_escrow_found)
  have "moveChecked ops w1 fromCylinder d toItem item n actor (Some t) (hooked actor fromPos toPos)
          = Some (RETURNVALUE_NOTENOUGHROOM, w1, None)"
    using q avail rem found by (auto simp: moveChecked_def Let_def)
  then show ?thesis unfolding call using hook notself chk by simp
qed

text \<open>
  C6 (as amended).  The trade item \<open>t\<close> is the item of the resolved destination holder or
  of a holder \<open>k\<close> steps up its parent chain.  Then the item is never moved into the
  destination: a call that returns success is the no-op of moving an item onto itself, with
  the world unchanged; when the destination's first \<open>queryAdd\<close> does not ask for an
  exchange the call returns and the world it returns is the world it was given; and a call
  that passes the hook, the add check, \<open>queryMaxCount\<close> and the source's \<open>queryRemove\<close>
  returns not-enough-room with the world \<open>w1\<close> the add check left, in which a colliding
  item may already have gone back to the source.
\<close>

theorem internalMoveItem_escrow_refused:
  assumes d: "d = fst (resolveDestination ops maxLayers w item
                        \<lparr>destCylinder = toCylinder, destIndex = index, destItem = None,
                         destFlags = flags\<rparr> 0)"
    and chain: "nthParent w k (destCylinder d) = Some c" "cylItem w c = Some t"
  shows "(\<forall>w' out. internalMoveItem ops maxLayers w fromCylinder toCylinder index item n flags actor
                       (Some t) fromPos toPos = Some (RETURNVALUE_NOERROR, w', out)
                    \<longrightarrow> destItem d = Some item \<and> w' = w \<and> out = None)
       \<and> (queryAdd ops w (destCylinder d) (destIndex d) item n (destFlags d) actor \<noteq> RETURNVALUE_NEEDEXCHANGE
            \<longrightarrow> (\<exists>ret. internalMoveItem ops maxLayers w fromCylinder toCylinder index item n flags actor
                          (Some t) fromPos toPos = Some (ret, w, None)))
       \<and> (\<forall>w1 toItem r q.
             preMoveHook ops w actor fromPos toPos item n fromCylinder toCylinder = RETURNVALUE_NOERROR
             \<and> destItem d \<noteq> Some item
             \<and> checkAdd ops w fromCylinder d item n actor fromPos toPos = Some (Inr (w1, toItem))
             \<and> queryMaxCount ops w1 (destCylinder d) (destIndex d) item n (destFlags d) = (r, q)
             \<and> (r = RETURNVALUE_NOERROR \<or> 0 < q)
             \<and> queryRemove ops w1 fromCylinder item (moveCount w1 item n q) (destFlags d) actor
                 = RETURNVALUE_NOERROR
             \<longrightarrow> internalMoveItem ops maxLayers w fromCylinder toCylinder index item n flags actor
                   (Some t) fromPos toPos = Some (RETURNVALUE_NOTENOUGHROOM, w1, None))"
proof -
  have a: "\<forall>w' out. internalMoveItem ops maxLayers w fromCylinder toCylinder index item n flags actor
                       (Some t) fromPos toPos = Some (RETURNVALUE_NOERROR, w', out)
                    \<longrightarrow> destItem d = Some item \<and> w' = w \<and> out = None"
  proof (intro allI impI)
    fix w' out
    assume "internalMoveItem ops maxLayers w fromCylinder toCylinder index item n flags actor
              (Some t) fromPos toPos = Some (RETURNVALUE_NOERROR, w', out)"
    then show "destItem d = Some item \<and> w' = w \<and> out = None"
      by (rule internalMoveItem_escrow_no_success [OF d chain])
  qed
  have b: "queryAdd ops w (destCylinder d) (destIndex d) item n (destFlags d) actor \<noteq> RETURNVALUE_NEEDEXCHANGE
            \<longrightarrow> (\<exists>ret. internalMoveItem ops maxLayers w fromCylinder toCylinder index item n flags actor
                          (Some t) fromPos toPos = Some (ret, w, None))"
  proof (intro impI)
    assume "queryAdd ops w (destCylinder d) (destIndex d) item n (destFlags d) actor
              \<noteq> RETURNVALUE_NEEDEXCHANGE"
    then show "\<exists>ret. internalMoveItem ops maxLayers w fromCylinder toCylinder index item n flags actor
                       (Some t) fromPos toPos = Some (ret, w, None)"
      by (rule internalMoveItem_escrow_unchanged [OF d chain])
  qed
  have c: "\<forall>w1 toItem r q.
             preMoveHook ops w actor fromPos toPos item n fromCylinder toCylinder = RETURNVALUE_NOERROR
             \<and> destItem d \<noteq> Some item
             \<and> checkAdd ops w fromCylinder d item n actor fromPos toPos = Some (Inr (w1, toItem))
             \<and> queryMaxCount ops w1 (destCylinder d) (destIndex d) item n (destFlags d) = (r, q)
             \<and> (r = RETURNVALUE_NOERROR \<or> 0 < q)
             \<and> queryRemove ops w1 fromCylinder item (moveCount w1 item n q) (destFlags d) actor
                 = RETURNVALUE_NOERROR
             \<longrightarrow> internalMoveItem ops maxLayers w fromCylinder toCylinder index item n flags actor
                   (Some t) fromPos toPos = Some (RETURNVALUE_NOTENOUGHROOM, w1, None)"
  proof (intro allI impI, elim conjE)
    fix w1 toItem r q
    assume hook: "preMoveHook ops w actor fromPos toPos item n fromCylinder toCylinder = RETURNVALUE_NOERROR"
      and notself: "destItem d \<noteq> Some item"
      and chk: "checkAdd ops w fromCylinder d item n actor fromPos toPos = Some (Inr (w1, toItem))"
      and q: "queryMaxCount ops w1 (destCylinder d) (destIndex d) item n (destFlags d) = (r, q)"
      and avail: "r = RETURNVALUE_NOERROR \<or> 0 < q"
      and rem: "queryRemove ops w1 fromCylinder item (moveCount w1 item n q) (destFlags d) actor
                  = RETURNVALUE_NOERROR"
    show "internalMoveItem ops maxLayers w fromCylinder toCylinder index item n flags actor
            (Some t) fromPos toPos = Some (RETURNVALUE_NOTENOUGHROOM, w1, None)"
      by (rule internalMoveItem_escrow_code [OF d chain hook notself chk q avail rem])
  qed
  from a b c show ?thesis by (intro conjI)
qed

text \<open>
  Item 10 is to go into the bag, holder 6, which lies inside the container in escrow: the
  call is refused and nothing has changed.
\<close>

lemma escrowWorld_resolved:
  "fst (resolveDestination openOps 16 escrowWorld 10
     \<lparr>destCylinder = 6, destIndex = 0, destItem = None, destFlags = {}\<rparr> 0)
   = \<lparr>destCylinder = 6, destIndex = 0, destItem = None, destFlags = {}\<rparr>"
  by (simp add: resolveDestination.simps openOps_def)

lemma escrowWorld_checkAdd:
  "checkAdd openOps escrowWorld 2 \<lparr>destCylinder = 6, destIndex = 0, destItem = None, destFlags = {}\<rparr>
     10 1 None None None = Some (Inr (escrowWorld, None))"
  by (simp add: checkAdd_def openOps_def)

theorem internalMoveItem_escrow_refused_witness:
  "nthParent escrowWorld 1 6 = Some 3 \<and> cylItem escrowWorld 3 = Some 40
   \<and> internalMoveItem openOps 16 escrowWorld 2 6 0 10 1 {} None (Some 40) None None
       = Some (RETURNVALUE_NOTENOUGHROOM, escrowWorld, None)"
proof -
  define d where "d = \<lparr>destCylinder = 6, destIndex = 0, destItem = None, destFlags = {}\<rparr>"
  have dres: "d = fst (resolveDestination openOps 16 escrowWorld 10
                  \<lparr>destCylinder = 6, destIndex = 0, destItem = None, destFlags = {}\<rparr> 0)"
    by (simp add: d_def escrowWorld_resolved)
  have chain: "nthParent escrowWorld 1 (destCylinder d) = Some 3" "cylItem escrowWorld 3 = Some 40"
    by (simp_all add: d_def escrowWorld_def)
  have pre: "preMoveHook openOps escrowWorld None None None 10 1 2 6 = RETURNVALUE_NOERROR
             \<and> destItem d \<noteq> Some 10
             \<and> checkAdd openOps escrowWorld 2 d 10 1 None None None = Some (Inr (escrowWorld, None))
             \<and> queryMaxCount openOps escrowWorld (destCylinder d) (destIndex d) 10 1 (destFlags d)
                 = (RETURNVALUE_NOERROR, 1)
             \<and> (RETURNVALUE_NOERROR = RETURNVALUE_NOERROR \<or> (0::nat) < 1)
             \<and> queryRemove openOps escrowWorld 2 10 (moveCount escrowWorld 10 1 1) (destFlags d) None
                 = RETURNVALUE_NOERROR"
    unfolding d_def escrowWorld_checkAdd
    by (simp add: preMoveHook_def actorPlayer_def openOps_def)
  note refused = internalMoveItem_escrow_refused [OF dres chain, of 2 1 None None None]
  have "internalMoveItem openOps 16 escrowWorld 2 6 0 10 1 {} None (Some 40) None None
          = Some (RETURNVALUE_NOTENOUGHROOM, escrowWorld, None)"
    using refused pre by blast
  then show ?thesis using chain by (simp add: d_def)
qed

text \<open>
  C6 as stated fails twice.  Item 10 is to go into the container in escrow itself, whose
  slot is occupied and asks for an exchange: the call is refused with not-enough-room, but
  by then the colliding item 20 has gone back to the source, so both holders have changed.
  And item 20, which lies in that container, moved to where it lies returns success.
\<close>

lemma escrowWorld_slot_resolved:
  "fst (resolveDestination swapOps 16 escrowWorld 10
     \<lparr>destCylinder = 3, destIndex = 0, destItem = None, destFlags = {}\<rparr> 0)
   = \<lparr>destCylinder = 3, destIndex = 0, destItem = Some 20, destFlags = {}\<rparr>"
  by (simp add: resolveDestination.simps swapOps_def stackOps_def openOps_def escrowWorld_def slotWorld_def
        emptyWorld_def)

lemma escrowWorld_same_resolved:
  "fst (resolveDestination swapOps 16 escrowWorld 20
     \<lparr>destCylinder = 3, destIndex = 0, destItem = None, destFlags = {}\<rparr> 0)
   = \<lparr>destCylinder = 3, destIndex = 0, destItem = Some 20, destFlags = {}\<rparr>"
  by (simp add: resolveDestination.simps swapOps_def stackOps_def openOps_def escrowWorld_def slotWorld_def
        emptyWorld_def)


lemma escrowWorld_exchange:
  "fst (exchangeItems swapOps escrowWorld 2
          \<lparr>destCylinder = 3, destIndex = 0, destItem = Some 20, destFlags = {}\<rparr> 20 10 1 None False)
     = RETURNVALUE_NOERROR
   \<and> things (snd (exchangeItems swapOps escrowWorld 2
          \<lparr>destCylinder = 3, destIndex = 0, destItem = Some 20, destFlags = {}\<rparr> 20 10 1 None False)) 2
       = [20, 10]
   \<and> things (snd (exchangeItems swapOps escrowWorld 2
          \<lparr>destCylinder = 3, destIndex = 0, destItem = Some 20, destFlags = {}\<rparr> 20 10 1 None False)) 3
       = []"
  by (simp add: exchangeItems_def Let_def addThingFront_def addThing_def removeThing_def notify_def
        getThingIndex_def insertAt_def swapOps_def stackOps_def openOps_def escrowWorld_def slotWorld_def
        emptyWorld_def plainItem_def)

lemma escrowWorld_slot_checkAdd:
  "checkAdd swapOps escrowWorld 2 \<lparr>destCylinder = 3, destIndex = 0, destItem = Some 20, destFlags = {}\<rparr>
     10 1 None None None
   = Some (Inr (snd (exchangeItems swapOps escrowWorld 2
          \<lparr>destCylinder = 3, destIndex = 0, destItem = Some 20, destFlags = {}\<rparr> 20 10 1 None False), None))"
proof -
  have pre: "\<And>n. queryAdd swapOps escrowWorld 3 0 10 n {} None = RETURNVALUE_NEEDEXCHANGE"
    "\<And>k n. queryAdd swapOps escrowWorld 2 k 20 n {} None = RETURNVALUE_NOERROR"
    "\<And>n. preMoveHook swapOps escrowWorld None None None 20 n 3 2 = RETURNVALUE_NOERROR"
    "\<And>k n. queryMaxCount swapOps escrowWorld 2 k 20 n {} = (RETURNVALUE_NOERROR, n)"
    "\<And>n. queryRemove swapOps escrowWorld 3 20 n {} None = RETURNVALUE_NOERROR"
    "hooked None None None = False"
    by (simp_all add: swapOps_def stackOps_def openOps_def escrowWorld_def slotWorld_def emptyWorld_def
          preMoveHook_def actorPlayer_def hooked_def)
  show ?thesis
    using escrowWorld_exchange
    by (simp add: checkAdd_def Let_def pre split_beta)
qed

theorem internalMoveItem_escrow_counterexample:
  "cylItem escrowWorld 3 = Some 40
   \<and> things escrowWorld 2 = [10] \<and> things escrowWorld 3 = [20]
   \<and> (case internalMoveItem swapOps 16 escrowWorld 2 3 0 10 1 {} None (Some 40) None None of
         None \<Rightarrow> False
       | Some (ret, w', out) \<Rightarrow>
           ret = RETURNVALUE_NOTENOUGHROOM \<and> things w' 2 = [20, 10] \<and> things w' 3 = [])
   \<and> internalMoveItem swapOps 16 escrowWorld 3 3 0 20 1 {} None (Some 40) None None
       = Some (RETURNVALUE_NOERROR, escrowWorld, None)"
proof -
  define d where "d = \<lparr>destCylinder = 3, destIndex = 0, destItem = Some 20, destFlags = {}\<rparr>"
  define w1 where "w1 = snd (exchangeItems swapOps escrowWorld 2 d 20 10 1 None False)"
  have before: "cylItem escrowWorld 3 = Some 40" "things escrowWorld 2 = [10]" "things escrowWorld 3 = [20]"
    by (simp_all add: escrowWorld_def slotWorld_def emptyWorld_def)
  have after: "things w1 2 = [20, 10]" "things w1 3 = []"
    using escrowWorld_exchange by (simp_all add: w1_def d_def)
  have dres: "d = fst (resolveDestination swapOps 16 escrowWorld 10
                  \<lparr>destCylinder = 3, destIndex = 0, destItem = None, destFlags = {}\<rparr> 0)"
    by (simp add: d_def escrowWorld_slot_resolved)
  have chain: "nthParent escrowWorld 0 (destCylinder d) = Some 3"
    by (simp add: d_def)
  have hook: "preMoveHook swapOps escrowWorld None None None 10 1 2 3 = RETURNVALUE_NOERROR"
    by (simp add: preMoveHook_def actorPlayer_def)
  have notself: "destItem d \<noteq> Some 10" by (simp add: d_def)
  have chk: "checkAdd swapOps escrowWorld 2 d 10 1 None None None = Some (Inr (w1, None))"
    unfolding d_def w1_def by (rule escrowWorld_slot_checkAdd)
  have q: "queryMaxCount swapOps w1 (destCylinder d) (destIndex d) 10 1 (destFlags d) = (RETURNVALUE_NOERROR, 1)"
    by (simp add: swapOps_def stackOps_def openOps_def)
  have rem: "queryRemove swapOps w1 2 10 (moveCount w1 10 1 1) (destFlags d) None = RETURNVALUE_NOERROR"
    by (simp add: swapOps_def stackOps_def openOps_def)
  have moved: "internalMoveItem swapOps 16 escrowWorld 2 3 0 10 1 {} None (Some 40) None None
                 = Some (RETURNVALUE_NOTENOUGHROOM, w1, None)"
    by (rule internalMoveItem_escrow_code [OF dres chain before(1) hook notself chk q _ rem]) simp
  have same: "internalMoveItem swapOps 16 escrowWorld 3 3 0 20 1 {} None (Some 40) None None
                = Some (RETURNVALUE_NOERROR, escrowWorld, None)"
    unfolding internalMoveItem_def Let_def escrowWorld_same_resolved
    by (simp add: preMoveHook_def actorPlayer_def)
  show ?thesis unfolding moved same using before after by simp
qed

subsection \<open>Adding an item: null arguments and the test flag\<close>

lemma internalAddItem_null:
  "toCylinder = None \<or> item = None \<Longrightarrow>
   internalAddItem ops w toCylinder item index flags test rc = (RETURNVALUE_NOTPOSSIBLE, w, rc)"
  by (subst internalAddItem.simps) (auto split: option.splits)

lemma internalAddItem_test:
  "internalAddItem ops w (Some destCyl) (Some item) index flags True rc =
     (let d = queryDestination ops w item
                \<lparr>destCylinder = destCyl, destIndex = index, destItem = None, destFlags = flags\<rparr>;
          ret = queryAdd ops w (destCylinder d) (destIndex d) item (itemCount (items w item)) (destFlags d) None
      in if ret \<noteq> RETURNVALUE_NOERROR then ret
         else fst (queryMaxCount ops w destCyl INDEX_WHEREEVER item (itemCount (items w item)) (destFlags d)),
      w, rc)"
  by (subst internalAddItem.simps) (simp add: Let_def split: prod.splits)

text \<open>
  C10.  With a null holder or a null item, \<open>internalAddItem\<close> answers not-possible and
  returns the world (and the caller's remainder count) unchanged.  With the test flag set it
  returns the world unchanged whatever its arguments, so nothing is mutated and nothing is
  enrolled for decay; for non-null arguments the outcome is that of the validation, the
  resolved destination's \<open>queryAdd\<close> and then the original holder's \<open>queryMaxCount\<close>.
\<close>

theorem internalAddItem_null_or_test:
  "(toCylinder = None \<or> item = None \<longrightarrow>
      internalAddItem ops w toCylinder item index flags test rc = (RETURNVALUE_NOTPOSSIBLE, w, rc))
   \<and> snd (internalAddItem ops w toCylinder item index flags True rc) = (w, rc)
   \<and> internalAddItem ops w (Some destCyl) (Some it) index flags True rc =
       (let d = queryDestination ops w it
                  \<lparr>destCylinder = destCyl, destIndex = index, destItem = None, destFlags = flags\<rparr>;
            ret = queryAdd ops w (destCylinder d) (destIndex d) it (itemCount (items w it)) (destFlags d) None
        in if ret \<noteq> RETURNVALUE_NOERROR then ret
           else fst (queryMaxCount ops w destCyl INDEX_WHEREEVER it (itemCount (items w it)) (destFlags d)),
        w, rc)"
proof (intro conjI impI)
  assume "toCylinder = None \<or> item = None"
  then show "internalAddItem ops w toCylinder item index flags test rc = (RETURNVALUE_NOTPOSSIBLE, w, rc)"
    by (rule internalAddItem_null)
next
  show "snd (internalAddItem ops w toCylinder item index flags True rc) = (w, rc)"
  proof (cases "toCylinder = None \<or> item = None")
    case True
    then show ?thesis by (simp add: internalAddItem_null)
  next
    case False
    then obtain c i where "toCylinder = Some c" "item = Some i" by auto
    then show ?thesis by (simp add: internalAddItem_test Let_def)
  qed
next
  show "internalAddItem ops w (Some destCyl) (Some it) index flags True rc =
       (let d = queryDestination ops w it
                  \<lparr>destCylinder = destCyl, destIndex = index, destItem = None, destFlags = flags\<rparr>;
            ret = queryAdd ops w (destCylinder d) (destIndex d) it (itemCount (items w it)) (destFlags d) None
        in if ret \<noteq> RETURNVALUE_NOERROR then ret
           else fst (queryMaxCount ops w destCyl INDEX_WHEREEVER it (itemCount (items w it)) (destFlags d)),
        w, rc)"
    by (rule internalAddItem_test)
qed

text \<open>Adding the stack of 80 to no holder, and testing whether the bag would take it.\<close>

theorem internalAddItem_null_or_test_witness:
  "internalAddItem stackOps twoStacks None (Some 10) INDEX_WHEREEVER {} False 0
     = (RETURNVALUE_NOTPOSSIBLE, twoStacks, 0)
   \<and> internalAddItem stackOps twoStacks (Some 3) (Some 10) INDEX_WHEREEVER {} True 0
     = (RETURNVALUE_NOERROR, twoStacks, 0)"
  using internalAddItem_null_or_test [of None "Some 10" stackOps twoStacks INDEX_WHEREEVER "{}" False 0 3 10]
  by (simp add: stackOps_def openOps_def Let_def)

subsection \<open>Removing an item that is enrolled for decay\<close>

text \<open>
  Whatever the holder protocol and the item, \<open>internalRemoveItem\<close> leaves every bucket but
  the first as it was.
\<close>

lemma removeFromDecayItems_later:
  "0 < k \<Longrightarrow> removeFromDecayItems bs i ! k = bs ! k"
  by (cases bs) (auto simp: removeFromDecayItems_def nth_Cons')

lemma decayItems_removeThing: "decayItems (removeThing w c i n) = decayItems w"
  by (simp add: removeThing_def Let_def)

lemma internalRemoveItem_later_bucket:
  assumes "0 < k"
  shows "decayItems (snd (internalRemoveItem ops w item n test flags)) ! k = decayItems w ! k"
  using assms
  by (simp add: internalRemoveItem_def Let_def notify_def ReleaseItem_def decayItems_removeThing
        removeFromDecayItems_later split: option.splits)

text \<open>
  C7 asks that an enrolled item is taken out of whichever bucket holds it before it is
  released.  Here item 30 sits in the third bucket and is removed entirely: it is detached
  from its holder, \<^verbatim>\<open>onRemoved\<close> is fired and it is put on the release list, but the
  third bucket still holds it, whether \<^verbatim>\<open>canDecay\<close> answers true (the source then
  searches the first bucket only) or false (the source then searches none).
\<close>

theorem internalRemoveItem_leaves_bucket:
  "internalRemoveItem openOps (bucketed True) 30 (-1) False {} =
     (RETURNVALUE_NOERROR,
      (bucketed True)\<lparr>items := (items (bucketed True))(30 := (decayingItem 5000)\<lparr>itemParent := None\<rparr>),
                      things := (things (bucketed True))(3 := []),
                      ToReleaseItems := [30],
                      notifications := [OnRemoved 30, PostRemoveNotification 3 30 None 0]\<rparr>)
   \<and> decayItems (snd (internalRemoveItem openOps (bucketed True) 30 (-1) False {})) = [[], [], [30], []]
   \<and> decayItems (snd (internalRemoveItem openOps (bucketed False) 30 (-1) False {})) = [[], [], [30], []]"
  by (simp add: internalRemoveItem_def Let_def notify_def ReleaseItem_def removeThing_def isRemoved_def
        removeFromDecayItems_def openOps_def bucketed_def decayingItem_def plainItem_def emptyWorld_def
        getThingIndex_def u32_def)

subsection \<open>How long an enrolled item lasts\<close>

text \<open>
  With a tick of 250 ms and 4 buckets, an item enrolled with less than a second to live goes
  into the bucket of the very next tick (\<^verbatim>\<open>dur / 1000\<close> is 0) and is gone after that one
  tick, however much of the second it had left.
\<close>

lemma u32_small: "0 \<le> d \<Longrightarrow> d < 1000 \<Longrightarrow> u32 d = nat d"
  by (simp add: u32_def)

lemma cleanup_pending_short:
  assumes "0 < d" "d < 1000"
  shows "cleanup 250 4 (pendingDecay d) =
           (pendingDecay d)\<lparr>toDecayItems := [], decayItems := [[], [30], [], []]\<rparr>"
proof -
  have "nat d div 1000 = 0" using assms by simp
  then show ?thesis using assms
    by (simp add: cleanup_def Let_def enrolBucket_def pushBucket_def bucketAt_def pendingDecay_def
          emptyWorld_def decayingItem_def plainItem_def u32_small)
qed

lemma checkDecay_first_tick:
  assumes "0 < d" "d < 1000"
  shows "(case checkDecay openOps noTransform 250 4 (cleanup 250 4 (pendingDecay d)) of
            None \<Rightarrow> False
          | Some w' \<Rightarrow> isRemoved w' 30)"
  unfolding cleanup_pending_short [OF assms]
  using assms
  by (simp add: cleanup_def checkDecay_def Let_def bucketAt_def
        pendingDecay_def decayingItem_def plainItem_def emptyWorld_def isRemoved_def
        decayLoop.simps decayVisit_def decayErased_def iteratorAfter_def eraseAt_def
        decreaseDuration_def internalDecayItem_def
        internalRemoveItem_def notify_def ReleaseItem_def removeThing_def removeFromDecayItems_def
        openOps_def getThingIndex_def decrementReferenceCounter_def u32_def)

text \<open>
  An item with 1500 ms is visited after a full rotation of four ticks; the 500 ms it then has
  left round to no bucket offset (\<^verbatim>\<open>(500 + 125) / 1000\<close> is 0), and it is removed at
  once: four ticks instead of six.
\<close>

lemma checkDecay_four_ticks:
  "(case ticks openOps noTransform 250 4 (Suc (Suc (Suc (Suc 0)))) (cleanup 250 4 (pendingDecay 1500)) of
      None \<Rightarrow> False
    | Some w' \<Rightarrow> isRemoved w' 30)
   \<and> (case ticks openOps noTransform 250 4 (Suc (Suc (Suc 0))) (cleanup 250 4 (pendingDecay 1500)) of
         None \<Rightarrow> False
       | Some w' \<Rightarrow> \<not> isRemoved w' 30)"
  by (simp add: cleanup_def checkDecay_def Let_def enrolBucket_def pushBucket_def bucketAt_def
        pendingDecay_def decayingItem_def plainItem_def emptyWorld_def u32_def isRemoved_def
        decayLoop.simps decayVisit_def decayErased_def iteratorAfter_def eraseAt_def
        decreaseDuration_def internalDecayItem_def
        internalRemoveItem_def notify_def ReleaseItem_def removeThing_def removeFromDecayItems_def
        openOps_def getThingIndex_def decrementReferenceCounter_def)

text \<open>
  With a tick of 1000 ms, where the literal 1000 and the tick length agree, an item with
  2000 ms is still there after two ticks and goes on the third.
\<close>

lemma checkDecay_late:
  "(case ticks openOps noTransform 1000 4 (Suc (Suc 0)) (cleanup 1000 4 (pendingDecay 2000)) of
      None \<Rightarrow> False
    | Some w' \<Rightarrow> \<not> isRemoved w' 30)
   \<and> (case ticks openOps noTransform 1000 4 (Suc (Suc (Suc 0))) (cleanup 1000 4 (pendingDecay 2000)) of
         None \<Rightarrow> False
       | Some w' \<Rightarrow> isRemoved w' 30)"
  by (simp add: cleanup_def checkDecay_def Let_def enrolBucket_def pushBucket_def bucketAt_def
        pendingDecay_def decayingItem_def plainItem_def emptyWorld_def u32_def isRemoved_def
        decayLoop.simps decayVisit_def decayErased_def iteratorAfter_def eraseAt_def
        decreaseDuration_def internalDecayItem_def
        internalRemoveItem_def notify_def ReleaseItem_def removeThing_def removeFromDecayItems_def
        openOps_def getThingIndex_def decrementReferenceCounter_def)

text \<open>
  The loop walks the live bucket.  Where the first bucket holds an item twice and the item
  is removed on its first visit, \<open>internalRemoveItem\<close> takes the second node out from
  under the iterator, and the tick has no defined outcome.
\<close>

lemma checkDecay_iterator_lost:
  "checkDecay openOps noTransform 250 4 twiceEnrolled = None"
  by (simp add: checkDecay_def Let_def bucketAt_def twiceEnrolled_def
        decayingItem_def plainItem_def emptyWorld_def isRemoved_def
        decayLoop.simps decayVisit_def decayErased_def iteratorAfter_def eraseAt_def
        decreaseDuration_def internalDecayItem_def
        internalRemoveItem_def notify_def ReleaseItem_def removeThing_def removeFromDecayItems_def
        openOps_def getThingIndex_def u32_def)

text \<open>
  C5 asks for exactly \<open>ceil(d/g)\<close> ticks and never fewer.  With a tick of 250 ms and 4
  buckets, an item enrolled with 600 ms should last 3 ticks.  After the enrolment
  (\<open>cleanup\<close>) it is in place, with 600 ms, in the bucket of the next tick; after one tick
  (\<open>checkDecay\<close>) it has been removed.
\<close>

theorem checkDecay_early:
  "\<not> isRemoved (cleanup 250 4 (pendingDecay 600)) 30
   \<and> duration (items (cleanup 250 4 (pendingDecay 600)) 30) = 600
   \<and> decayItems (cleanup 250 4 (pendingDecay 600)) = [[], [30], [], []]
   \<and> (case checkDecay openOps noTransform 250 4 (cleanup 250 4 (pendingDecay 600)) of
         None \<Rightarrow> False
       | Some w' \<Rightarrow> isRemoved w' 30)"
  by (simp add: cleanup_def checkDecay_def Let_def enrolBucket_def pushBucket_def bucketAt_def
        pendingDecay_def decayingItem_def plainItem_def emptyWorld_def u32_def isRemoved_def
        decayLoop.simps decayVisit_def decayErased_def iteratorAfter_def eraseAt_def
        decreaseDuration_def internalDecayItem_def
        internalRemoveItem_def notify_def ReleaseItem_def removeThing_def removeFromDecayItems_def
        openOps_def getThingIndex_def decrementReferenceCounter_def)

subsection \<open>Stepping up a level\<close>

lemma tryGoUp_ascends:
  assumes "posz currentPos \<noteq> 8" "hasHeight (getTile creature) 3"
    and "case tileAt (currentPos\<lparr>posz := posz currentPos - 1\<rparr>) of None \<Rightarrow> True
         | Some t \<Rightarrow> \<not> hasGround t \<and> \<not> hasFlag t TILESTATE_BLOCKSOLID"
    and "tileAt (destPos\<lparr>posz := posz destPos - 1\<rparr>) = Some t2"
    and "hasGround t2" "\<not> hasFlag t2 TILESTATE_IMMOVABLEBLOCKSOLID"
  shows "tryGoUp tileAt dir currentPos (creature, destPos, flags) =
     (if hasFlag t2 TILESTATE_FLOORCHANGE
      then (creature, destPos, flags \<union> {FLAG_IGNOREBLOCKITEM, FLAG_IGNOREBLOCKCREATURE})
      else (creature\<lparr>direction := dir\<rparr>, destPos\<lparr>posz := posz destPos - 1\<rparr>,
            flags \<union> {FLAG_IGNOREBLOCKITEM, FLAG_IGNOREBLOCKCREATURE}))"
  using assms by (simp add: tryGoUp_def)

lemma tryGoDown_flags: "snd (snd st) \<subseteq> snd (snd (tryGoDown tileAt dir currentPos st))"
  by (auto simp: tryGoDown_def split: prod.splits option.splits)

lemma tryGoDown_skip:
  "posz currentPos \<noteq> posz destPos \<Longrightarrow>
   tryGoDown tileAt dir currentPos (creature, destPos, flags) = (creature, destPos, flags)"
  by (simp add: tryGoDown_def)

text \<open>
  C9 (as amended).  A player makes a non-diagonal step from a tile of height 3, not on
  level \<open>z = 8\<close>; the tile above the player is absent or has neither ground nor the
  block-solid flag; the tile above the destination has ground and is not immovable-block-solid;
  the step itself keeps the level.  Then the tile overload is called with the blocking flags
  suppressed; and when the tile above the destination is not a floor-change tile, the
  destination is one level up and the player faces the direction of the move.
\<close>

theorem stepDestination_ascends:
  assumes player: "isPlayer creature" and straight: "\<not> diagonalDirection dir"
    and level: "posz (getPosition creature) \<noteq> 8"
    and height: "hasHeight (getTile creature) 3"
    and above: "case tileAt ((getPosition creature)\<lparr>posz := posz (getPosition creature) - 1\<rparr>) of
                  None \<Rightarrow> True
                | Some t \<Rightarrow> \<not> hasGround t \<and> \<not> hasFlag t TILESTATE_BLOCKSOLID"
    and dest: "tileAt ((nextPos dir (getPosition creature))
                 \<lparr>posz := posz (nextPos dir (getPosition creature)) - 1\<rparr>) = Some t2"
    and ground: "hasGround t2" and movable: "\<not> hasFlag t2 TILESTATE_IMMOVABLEBLOCKSOLID"
    and flat: "posz (nextPos dir (getPosition creature)) = posz (getPosition creature)"
  shows "case stepDestination nextPos tileAt creature dir flags of
           (creature', destPos, flags') \<Rightarrow>
             {FLAG_IGNOREBLOCKITEM, FLAG_IGNOREBLOCKCREATURE} \<subseteq> flags' \<and>
             (\<not> hasFlag t2 TILESTATE_FLOORCHANGE \<longrightarrow>
                destPos = (nextPos dir (getPosition creature))
                            \<lparr>posz := posz (nextPos dir (getPosition creature)) - 1\<rparr>
                \<and> direction creature' = dir)"
proof -
  define c1 where "c1 = creature\<lparr>lastPosition := getPosition creature\<rparr>"
  define cur where "cur = getPosition creature"
  define np where "np = nextPos dir cur"
  have cur1: "getPosition c1 = cur" "getTile c1 = getTile creature" "isPlayer c1"
    using player by (simp_all add: c1_def cur_def getPosition_def)
  have step: "stepDestination nextPos tileAt creature dir flags =
                tryGoDown tileAt dir cur (tryGoUp tileAt dir cur (c1, np, flags))"
    using cur1 straight by (simp add: stepDestination_def Let_def c1_def [symmetric] np_def)
  have up: "tryGoUp tileAt dir cur (c1, np, flags) =
     (if hasFlag t2 TILESTATE_FLOORCHANGE
      then (c1, np, flags \<union> {FLAG_IGNOREBLOCKITEM, FLAG_IGNOREBLOCKCREATURE})
      else (c1\<lparr>direction := dir\<rparr>, np\<lparr>posz := posz np - 1\<rparr>,
            flags \<union> {FLAG_IGNOREBLOCKITEM, FLAG_IGNOREBLOCKCREATURE}))"
    using level height above dest ground movable
    by (intro tryGoUp_ascends) (simp_all add: cur1 cur_def [symmetric] np_def [symmetric])
  show ?thesis
  proof (cases "hasFlag t2 TILESTATE_FLOORCHANGE")
    case True
    have "snd (snd (c1, np, flags \<union> {FLAG_IGNOREBLOCKITEM, FLAG_IGNOREBLOCKCREATURE}))
            \<subseteq> snd (snd (stepDestination nextPos tileAt creature dir flags))"
      unfolding step up using True by (simp only: if_True tryGoDown_flags)
    then show ?thesis using True by (auto split: prod.splits)
  next
    case False
    have "posz cur \<noteq> posz (np\<lparr>posz := posz np - 1\<rparr>)"
      using flat by (simp add: np_def cur_def)
    then have "stepDestination nextPos tileAt creature dir flags =
                 (c1\<lparr>direction := dir\<rparr>, np\<lparr>posz := posz np - 1\<rparr>,
                  flags \<union> {FLAG_IGNOREBLOCKITEM, FLAG_IGNOREBLOCKCREATURE})"
      unfolding step up using False by (simp add: tryGoDown_skip)
    then show ?thesis by (simp add: np_def cur_def)
  qed
qed

text \<open>The hill at level 7: the player ends up heading for (101, 100, 6), facing east.\<close>

theorem stepDestination_ascends_witness:
  "stepDestination stepEast (hillMap 7) (hillPlayer 7) DIRECTION_EAST {} =
     ((hillPlayer 7)\<lparr>direction := DIRECTION_EAST, lastPosition := \<lparr>posx = 100, posy = 100, posz = 7\<rparr>\<rparr>,
      \<lparr>posx = 101, posy = 100, posz = 6\<rparr>,
      {FLAG_IGNOREBLOCKITEM, FLAG_IGNOREBLOCKCREATURE})"
  using stepDestination_ascends [of "hillPlayer 7" DIRECTION_EAST "hillMap 7" stepEast "hillTile 101 100 6 True 0" "{}"]
  by (simp add: stepDestination_def tryGoUp_def tryGoDown_def hillMap_def hillPlayer_def hillTile_def
        stepEast_def getPosition_def hasHeight_def hasFlag_def Let_def)

text \<open>
  C9 as stated fails on level 8, where the source does not try to go up: every premise of
  the claim holds on the hill at level 8, and the destination stays on level 8, the flags
  stay empty and the player keeps facing north.
\<close>

theorem stepDestination_level8_counterexample:
  "isPlayer (hillPlayer 8) \<and> \<not> diagonalDirection DIRECTION_EAST
   \<and> hasHeight (getTile (hillPlayer 8)) 3
   \<and> hillMap 8 \<lparr>posx = 100, posy = 100, posz = 7\<rparr> = Some (hillTile 100 100 7 False 0)
   \<and> \<not> hasGround (hillTile 100 100 7 False 0)
   \<and> \<not> hasFlag (hillTile 100 100 7 False 0) TILESTATE_BLOCKSOLID
   \<and> hillMap 8 \<lparr>posx = 101, posy = 100, posz = 7\<rparr> = Some (hillTile 101 100 7 True 0)
   \<and> hasGround (hillTile 101 100 7 True 0)
   \<and> \<not> hasFlag (hillTile 101 100 7 True 0) TILESTATE_IMMOVABLEBLOCKSOLID
   \<and> stepDestination stepEast (hillMap 8) (hillPlayer 8) DIRECTION_EAST {} =
       ((hillPlayer 8)\<lparr>lastPosition := \<lparr>posx = 100, posy = 100, posz = 8\<rparr>\<rparr>,
        \<lparr>posx = 101, posy = 100, posz = 8\<rparr>, {})"
  by (simp add: stepDestination_def tryGoUp_def tryGoDown_def hillMap_def hillPlayer_def hillTile_def
        stepEast_def getPosition_def hasHeight_def hasFlag_def Let_def)

end
